(* ===== verification/Prelude.thy ===== *)
theory Prelude
  imports Main "HOL-Library.Word" "HOL-Library.AList" "HOL-Library.Sublist" "HOL-Library.Char_ord"
begin

text \<open>
  Shared vocabulary of the development: results with an error on the left, Go maps as
  association lists, the byte-string operations of Go's standard library that several
  components use, and the contract of a bounded history buffer.

  Go strings are byte strings: they are \<open>string\<close> here, one \<open>char\<close> per byte. The
  case-folding functions of Go's \<open>strings\<close> package (\<open>ToUpper\<close>, \<open>EqualFold\<close>) and
  \<open>TrimSpace\<close> are given on ASCII, which is the alphabet of HomeMatic addresses, device
  types and parameter names.
\<close>

section \<open>Collections of facts\<close>

named_theorems go_str \<open>facts on the string functions of the standard library\<close>
named_theorems go_map \<open>facts on Go maps kept as association lists\<close>

section \<open>Results\<close>

fun bind_r :: "'e + 'a \<Rightarrow> ('a \<Rightarrow> 'e + 'b) \<Rightarrow> 'e + 'b" where
  "bind_r (Inl e) f = Inl e"
| "bind_r (Inr a) f = f a"

lemma bind_r_Inr_iff [simp]: "bind_r m f = Inr b \<longleftrightarrow> (\<exists>a. m = Inr a \<and> f a = Inr b)"
  by (cases m) auto

lemma bind_r_assoc: "bind_r (bind_r m f) g = bind_r m (\<lambda>a. bind_r (f a) g)"
  by (cases m) auto

section \<open>Go maps\<close>

text \<open>
  A Go map is an association list. Its order stands for one of the iteration orders Go may
  choose; lookups never depend on it. \<open>AList.update\<close> stores, \<open>AList.delete\<close> deletes, and
  every map the program builds has distinct keys.
\<close>

type_synonym ('k, 'v) gomap = "('k \<times> 'v) list"

definition wf_map :: "('k, 'v) gomap \<Rightarrow> bool" where
  "wf_map m \<longleftrightarrow> distinct (map fst m)"

definition map_filter_v :: "('v \<Rightarrow> bool) \<Rightarrow> ('k, 'v) gomap \<Rightarrow> ('k, 'v) gomap" where
  "map_filter_v P m = filter (\<lambda>(k, v). P v) m"

text \<open>\<open>maps.Copy(dst, src)\<close>: every entry of \<open>src\<close>, stored over \<open>dst\<close>.\<close>

definition map_copy :: "('k, 'v) gomap \<Rightarrow> ('k, 'v) gomap \<Rightarrow> ('k, 'v) gomap" where
  "map_copy dst src = fold (\<lambda>(k, v) d. AList.update k v d) src dst"

lemma map_of_update [simp, go_map]: "map_of (AList.update k v m) = (map_of m)(k \<mapsto> v)"
  by (rule update_conv')

lemma map_of_delete [simp, go_map]: "map_of (AList.delete k m) = (map_of m)(k := None)"
  by (rule delete_conv')

lemma wf_map_Nil [simp, go_map]: "wf_map []"
  by (simp add: wf_map_def)

lemma wf_map_update [simp, go_map]: "wf_map m \<Longrightarrow> wf_map (AList.update k v m)"
  by (simp add: wf_map_def distinct_update)

lemma wf_map_delete [simp, go_map]: "wf_map m \<Longrightarrow> wf_map (AList.delete k m)"
  by (simp add: wf_map_def distinct_delete)

lemma wf_map_filter [simp, go_map]: "wf_map m \<Longrightarrow> wf_map (filter P m)"
  by (auto simp: wf_map_def intro: distinct_map_filter)

lemma wf_map_filter_v [simp, go_map]: "wf_map m \<Longrightarrow> wf_map (map_filter_v P m)"
  by (simp add: map_filter_v_def)

lemma map_of_eq_in_set [go_map]: "wf_map m \<Longrightarrow> map_of m k = Some v \<longleftrightarrow> (k, v) \<in> set m"
  by (simp add: wf_map_def)

lemma map_of_filter_v [go_map]:
  "wf_map m \<Longrightarrow> map_of (map_filter_v P m) k =
     (case map_of m k of None \<Rightarrow> None | Some v \<Rightarrow> if P v then Some v else None)"
  by (induction m) (auto simp: map_filter_v_def wf_map_def map_of_eq_None_iff
      split: option.splits if_splits dest: map_of_SomeD)

lemma map_of_map_copy [simp, go_map]:
  "map_of (map_copy dst src) = map_of dst ++ map_of (rev src)"
  by (induction src arbitrary: dst)
    (auto simp: map_copy_def map_add_def fun_eq_iff split: option.splits)

lemma map_copy_lookup [go_map]:
  "wf_map src \<Longrightarrow> map_of (map_copy dst src) k =
     (case map_of src k of Some v \<Rightarrow> Some v | None \<Rightarrow> map_of dst k)"
proof -
  assume "wf_map src"
  then have "map_of (rev src) = map_of src"
    by (intro map_of_eqI) (auto simp: wf_map_def rev_map [symmetric])
  then show ?thesis by (simp add: map_add_def)
qed

lemma wf_map_copy [simp, go_map]: "wf_map dst \<Longrightarrow> wf_map (map_copy dst src)"
  by (induction src arbitrary: dst) (auto simp: map_copy_def)

section \<open>Byte strings\<close>

text \<open>\<open>strings.ToUpper\<close> and \<open>strings.EqualFold\<close> on ASCII.\<close>

definition up_char :: "char \<Rightarrow> char" where
  "up_char c = (if CHR ''a'' \<le> c \<and> c \<le> CHR ''z'' then char_of (of_char c - 32 :: nat) else c)"

definition to_upper :: "string \<Rightarrow> string" where
  "to_upper s = map up_char s"

definition equal_fold :: "string \<Rightarrow> string \<Rightarrow> bool" where
  "equal_fold a b \<longleftrightarrow> to_upper a = to_upper b"

text \<open>\<open>strings.TrimSpace\<close> on ASCII: tab, newline, vertical tab, form feed, return, space.\<close>

definition is_space :: "char \<Rightarrow> bool" where
  "is_space c \<longleftrightarrow> c = CHR '' '' \<or> (CHR 0x09 \<le> c \<and> c \<le> CHR 0x0D)"

definition trim_space :: "string \<Rightarrow> string" where
  "trim_space s = rev (dropWhile is_space (rev (dropWhile is_space s)))"

text \<open>\<open>strings.Cut\<close> with a one-byte separator: before, after, found.\<close>

fun cut_byte :: "char \<Rightarrow> string \<Rightarrow> string \<times> string \<times> bool" where
  "cut_byte c [] = ([], [], False)"
| "cut_byte c (x # xs) =
     (if x = c then ([], xs, True)
      else (case cut_byte c xs of (b, a, f) \<Rightarrow> (x # b, a, f)))"

text \<open>\<open>strings.Split\<close> with a one-byte separator: never the empty list.\<close>

fun split_byte :: "char \<Rightarrow> string \<Rightarrow> string list" where
  "split_byte c [] = [[]]"
| "split_byte c (x # xs) =
     (if x = c then [] # split_byte c xs
      else (case split_byte c xs of [] \<Rightarrow> [[x]] | w # ws \<Rightarrow> (x # w) # ws))"

lemma of_char_up_char:
  "(of_char (up_char c) :: nat) =
     (if 97 \<le> (of_char c :: nat) \<and> (of_char c :: nat) \<le> 122 then of_char c - 32 else of_char c)"
  by (auto simp: up_char_def less_eq_char_def)

lemma up_char_idem [simp, go_str]: "up_char (up_char c) = up_char c"
proof -
  have "(of_char (up_char (up_char c)) :: nat) = of_char (up_char c)"
    by (auto simp: of_char_up_char)
  then show ?thesis by simp
qed

lemma to_upper_idem [simp, go_str]: "to_upper (to_upper s) = to_upper s"
  by (simp add: to_upper_def)

lemma length_to_upper [simp, go_str]: "length (to_upper s) = length s"
  by (simp add: to_upper_def)

lemma to_upper_append [go_str]: "to_upper (a @ b) = to_upper a @ to_upper b"
  by (simp add: to_upper_def)

lemma to_upper_Nil_iff [simp, go_str]: "to_upper s = [] \<longleftrightarrow> s = []"
  by (simp add: to_upper_def)

lemma up_char_colon [simp, go_str]: "up_char c = CHR '':'' \<longleftrightarrow> c = CHR '':''"
proof -
  have "(of_char (up_char c) :: nat) = 58 \<longleftrightarrow> (of_char c :: nat) = 58"
    by (auto simp: of_char_up_char)
  moreover have "(x = CHR '':'') \<longleftrightarrow> (of_char x :: nat) = 58" for x
    using of_char_eq_iff [where ?'a = nat, of x "CHR '':''"] by simp
  ultimately show ?thesis by simp
qed

lemma cut_byte_found [go_str]: "c \<notin> set b \<Longrightarrow> cut_byte c (b @ c # a) = (b, a, True)"
  by (induction b) auto

lemma cut_byte_absent [go_str]: "c \<notin> set s \<Longrightarrow> cut_byte c s = (s, [], False)"
  by (induction s) auto

lemma cut_byte_split [go_str]: "cut_byte c s = (b, a, True) \<Longrightarrow> s = b @ c # a \<and> c \<notin> set b"
  by (induction s arbitrary: b) (auto split: if_splits prod.splits)

text \<open>\<open>hex.EncodeToString\<close>: two lower-case digits per byte.\<close>

definition hex_digit :: "nat \<Rightarrow> char" where
  "hex_digit n = (if n < 10 then char_of (48 + n) else char_of (87 + n))"

fun hex_encode :: "8 word list \<Rightarrow> string" where
  "hex_encode [] = []"
| "hex_encode (b # bs) = hex_digit (unat b div 16) # hex_digit (unat b mod 16) # hex_encode bs"

lemma length_hex_encode [simp, go_str]: "length (hex_encode bs) = 2 * length bs"
  by (induction bs) auto

lemma of_char_hex_digit: "n < 16 \<Longrightarrow> of_char (hex_digit n) = (if n < 10 then 48 + n else 87 + n)"
  by (simp add: hex_digit_def take_bit_eq_mod)

lemma hex_digit_plain: "n < 16 \<Longrightarrow> hex_digit n \<noteq> CHR ''-''"
proof
  assume "n < 16" "hex_digit n = CHR ''-''"
  with of_char_hex_digit [of n] have "(if n < 10 then 48 + n else 87 + n) = (45::nat)" by simp
  then show False by (simp split: if_splits)
qed

lemma unat_lt_256: "unat (b :: 8 word) < 256"
proof -
  have "unat b < 2 ^ LENGTH(8)" by (rule unsigned_less)
  then show ?thesis by simp
qed

lemma hex_encode_plain [go_str]: "CHR ''-'' \<notin> set (hex_encode bs)"
proof (induction bs)
  case (Cons b bs)
  have "unat b div 16 < 16"
    using unat_lt_256 [of b] by (simp add: less_mult_imp_div_less)
  with Cons show ?case
    using hex_digit_plain [of "unat b div 16"] hex_digit_plain [of "unat b mod 16"] by auto
qed simp

section \<open>Bounded histories\<close>

text \<open>
  Two components keep a bounded log of what was put into them: the event ring of the
  openccu-lite fake and the introspection logs. Both append at the end and discard from the
  front. The contract says only that; what follows from it is proved here once.
\<close>

fun run_log :: "('x \<Rightarrow> 's \<Rightarrow> 's) \<Rightarrow> ('x \<Rightarrow> 's \<Rightarrow> 'a) \<Rightarrow> 'x list \<Rightarrow> 's \<Rightarrow> 'a list" where
  "run_log step entry [] s = []"
| "run_log step entry (x # xs) s = entry x s # run_log step entry xs (step x s)"

lemma length_run_log [simp]: "length (run_log step entry xs s) = length xs"
  by (induction xs arbitrary: s) auto

locale history_buffer =
  fixes items :: "'s \<Rightarrow> 'a list"
    and append_entry :: "'x \<Rightarrow> 's \<Rightarrow> 's"
    and entry :: "'x \<Rightarrow> 's \<Rightarrow> 'a"
    and capacity :: "'s \<Rightarrow> nat"
  assumes keeps_suffix: "suffix (items (append_entry x s)) (items s @ [entry x s])"
    and within_capacity: "length (items (append_entry x s)) \<le> capacity s"
    and capacity_fixed: "capacity (append_entry x s) = capacity s"
begin

lemma history_suffix:
  "suffix (items (fold append_entry xs s)) (items s @ run_log append_entry entry xs s)"
proof (induction xs arbitrary: s)
  case Nil
  then show ?case by simp
next
  case (Cons x xs)
  let ?tl = "run_log append_entry entry xs (append_entry x s)"
  have "suffix (items (append_entry x s) @ ?tl) ((items s @ [entry x s]) @ ?tl)"
    using keeps_suffix [of x s] by (auto simp: suffix_def)
  with Cons.IH [of "append_entry x s"] show ?case
    by (auto intro: suffix_order.trans)
qed

lemma capacity_run: "capacity (fold append_entry xs s) = capacity s"
  by (induction xs arbitrary: s) (auto simp: capacity_fixed)

lemma bounded_run: "length (items s) \<le> capacity s \<Longrightarrow>
    length (items (fold append_entry xs s)) \<le> capacity s"
  by (induction xs arbitrary: s) (auto simp: within_capacity, metis within_capacity capacity_fixed)

text \<open>What was appended last is what is held last, as long as anything is held.\<close>

lemma held_are_latest:
  "items (fold append_entry xs s) =
     drop (length (items s) + length xs - length (items (fold append_entry xs s)))
       (items s @ run_log append_entry entry xs s)"
proof -
  obtain zs where zs: "items s @ run_log append_entry entry xs s =
      zs @ items (fold append_entry xs s)"
    using history_suffix [of xs s] by (auto simp: suffix_def)
  from arg_cong [OF this, of length]
  have "length (items s) + length xs - length (items (fold append_entry xs s)) = length zs"
    by simp
  then show ?thesis unfolding zs by simp
qed

end

end
