(* ===== verification/Session.thy ===== *)
theory Session
  imports Prelude
begin

text \<open>
  \<^verbatim>\<open>internal/session/session.go\<close>: the token table behind the JSON-RPC login. A token lives until
  it is logged out, renewed, or idle for longer than the timeout. Clock readings are
  integers (nanoseconds); an operation that calls \<open>time.Now\<close> takes the reading \<open>now\<close> as an
  argument, and one that mints a token takes the random bytes it drew.
\<close>

section \<open>State\<close>

record session =
  sid :: string
  s_username :: string
  created_at :: int
  last_access :: int
  permissions :: "string set"

record session_manager =
  m_username :: string
  m_password :: string
  m_timeout :: int
  m_enabled :: bool
  m_sessions :: "(string, session) gomap"

text \<open>30 minutes, in nanoseconds.\<close>

definition default_timeout :: int where
  "default_timeout = 30 * 60 * 1000000000"

definition is_expired :: "int \<Rightarrow> int \<Rightarrow> session \<Rightarrow> bool" where
  "is_expired now timeout s \<longleftrightarrow> now - last_access s > timeout"

definition touch :: "int \<Rightarrow> session \<Rightarrow> session" where
  "touch now s = s\<lparr>last_access := now\<rparr>"

definition age :: "int \<Rightarrow> session \<Rightarrow> int" where
  "age now s = now - created_at s"

definition new_manager :: "string \<Rightarrow> string \<Rightarrow> int \<Rightarrow> bool \<Rightarrow> session_manager" where
  "new_manager username password timeout auth_enabled =
     \<lparr>m_username = username, m_password = password,
      m_timeout = (if timeout \<le> 0 then default_timeout else timeout),
      m_enabled = auth_enabled, m_sessions = []\<rparr>"

definition set_auth_enabled :: "bool \<Rightarrow> session_manager \<Rightarrow> session_manager" where
  "set_auth_enabled v m = m\<lparr>m_enabled := v\<rparr>"

section \<open>Tokens\<close>

text \<open>
  \<open>mintID\<close>: the hex rendering of 16 random bytes, or 32 zeros when the random source fails
  (\<open>None\<close>).
\<close>

definition mint_id :: "8 word list option \<Rightarrow> string" where
  "mint_id rnd = (case rnd of None \<Rightarrow> replicate 32 (CHR ''0'') | Some b \<Rightarrow> hex_encode b)"

section \<open>Operations\<close>

definition check_credentials :: "string \<Rightarrow> string \<Rightarrow> session_manager \<Rightarrow> bool" where
  "check_credentials username password m \<longleftrightarrow>
     username = m_username m \<and> password = m_password m"

definition login ::
  "string \<Rightarrow> string \<Rightarrow> 8 word list option \<Rightarrow> int \<Rightarrow> session_manager \<Rightarrow> string \<times> session_manager" where
  "login username password rnd now m =
     (if username \<noteq> m_username m \<or> password \<noteq> m_password m then ([], m)
      else (let i = mint_id rnd
            in (i, m\<lparr>m_sessions := AList.update i
                 \<lparr>sid = i, s_username = username, created_at = now, last_access = now,
                  permissions = {}\<rparr> (m_sessions m)\<rparr>)))"

definition logout :: "string \<Rightarrow> session_manager \<Rightarrow> bool \<times> session_manager" where
  "logout i m =
     (case map_of (m_sessions m) i of
        None \<Rightarrow> (False, m)
      | Some s \<Rightarrow> (True, m\<lparr>m_sessions := AList.delete i (m_sessions m)\<rparr>))"

definition renew ::
  "string \<Rightarrow> 8 word list option \<Rightarrow> int \<Rightarrow> session_manager \<Rightarrow> string \<times> session_manager" where
  "renew i rnd now m =
     (case map_of (m_sessions m) i of
        None \<Rightarrow> ([], m)
      | Some s \<Rightarrow>
          if is_expired now (m_timeout m) s
          then ([], m\<lparr>m_sessions := AList.delete i (m_sessions m)\<rparr>)
          else (let j = mint_id rnd
                in (j, m\<lparr>m_sessions := AList.delete i (AList.update j
                     \<lparr>sid = j, s_username = s_username s, created_at = now, last_access = now,
                      permissions = permissions s\<rparr> (m_sessions m))\<rparr>)))"

definition validate :: "string \<Rightarrow> int \<Rightarrow> session_manager \<Rightarrow> bool \<times> session_manager" where
  "validate i now m =
     (if \<not> m_enabled m then (True, m)
      else if i = [] then (False, m)
      else (case map_of (m_sessions m) i of
              None \<Rightarrow> (False, m)
            | Some s \<Rightarrow>
                if is_expired now (m_timeout m) s
                then (False, m\<lparr>m_sessions := AList.delete i (m_sessions m)\<rparr>)
                else (True, m\<lparr>m_sessions := AList.update i (touch now s) (m_sessions m)\<rparr>)))"

definition get_session :: "string \<Rightarrow> int \<Rightarrow> session_manager \<Rightarrow> session option" where
  "get_session i now m =
     (case map_of (m_sessions m) i of
        None \<Rightarrow> None
      | Some s \<Rightarrow> if is_expired now (m_timeout m) s then None else Some s)"

definition cleanup_expired :: "int \<Rightarrow> session_manager \<Rightarrow> nat \<times> session_manager" where
  "cleanup_expired now m =
     (length (map_filter_v (is_expired now (m_timeout m)) (m_sessions m)),
      m\<lparr>m_sessions := map_filter_v (\<lambda>s. \<not> is_expired now (m_timeout m) s) (m_sessions m)\<rparr>)"

definition active_count :: "int \<Rightarrow> session_manager \<Rightarrow> nat" where
  "active_count now m =
     length (map_filter_v (\<lambda>s. \<not> is_expired now (m_timeout m) s) (m_sessions m))"

definition invalidate_all :: "session_manager \<Rightarrow> nat \<times> session_manager" where
  "invalidate_all m = (length (m_sessions m), m\<lparr>m_sessions := []\<rparr>)"

section \<open>Histories of operations\<close>

datatype session_op =
    OpLogin string string "8 word list option"
  | OpLogout string
  | OpRenew string "8 word list option"
  | OpValidate string
  | OpCleanup
  | OpInvalidateAll
  | OpSetAuth bool

fun apply_op :: "session_op \<Rightarrow> int \<Rightarrow> session_manager \<Rightarrow> session_manager" where
  "apply_op (OpLogin u p rnd) now m = snd (login u p rnd now m)"
| "apply_op (OpLogout i) now m = snd (logout i m)"
| "apply_op (OpRenew i rnd) now m = snd (renew i rnd now m)"
| "apply_op (OpValidate i) now m = snd (validate i now m)"
| "apply_op OpCleanup now m = snd (cleanup_expired now m)"
| "apply_op OpInvalidateAll now m = snd (invalidate_all m)"
| "apply_op (OpSetAuth v) now m = set_auth_enabled v m"

text \<open>The token an operation mints, if it mints one.\<close>

fun minted :: "session_op \<Rightarrow> string option" where
  "minted (OpLogin u p rnd) = Some (mint_id rnd)"
| "minted (OpRenew i rnd) = Some (mint_id rnd)"
| "minted _ = None"

text \<open>The operations that end the life of a token themselves, whatever they answer.\<close>

fun ends :: "session_op \<Rightarrow> string \<Rightarrow> bool" where
  "ends (OpLogout i) k = (i = k)"
| "ends (OpRenew i rnd) k = (i = k)"
| "ends OpInvalidateAll k = True"
| "ends _ k = False"

text \<open>A manager and the clock reading of its latest operation; the clock never runs back.\<close>

inductive session_reachable :: "session_manager \<Rightarrow> int \<Rightarrow> bool" where
  start: "session_reachable (new_manager u p t e) now"
| step: "session_reachable m now \<Longrightarrow> now \<le> now' \<Longrightarrow> session_reachable (apply_op x now' m) now'"

text \<open>A run of operations with their clock readings.\<close>

fun run_ops :: "(session_op \<times> int) list \<Rightarrow> session_manager \<Rightarrow> session_manager" where
  "run_ops [] m = m"
| "run_ops ((x, t) # xs) m = run_ops xs (apply_op x t m)"

fun times_from :: "int \<Rightarrow> (session_op \<times> int) list \<Rightarrow> bool" where
  "times_from now [] = True"
| "times_from now ((x, t) # xs) = (now \<le> t \<and> times_from t xs)"

fun end_time :: "int \<Rightarrow> (session_op \<times> int) list \<Rightarrow> int" where
  "end_time now [] = now"
| "end_time now ((x, t) # xs) = end_time t xs"

section \<open>Invariant\<close>

definition session_ok :: "session_manager \<Rightarrow> int \<Rightarrow> string \<Rightarrow> session \<Rightarrow> bool" where
  "session_ok m now i s \<longleftrightarrow>
     sid s = i \<and> s_username s = m_username m \<and> created_at s \<le> last_access s \<and> last_access s \<le> now"

definition session_inv :: "session_manager \<Rightarrow> int \<Rightarrow> bool" where
  "session_inv m now \<longleftrightarrow>
     0 < m_timeout m \<and> wf_map (m_sessions m) \<and>
     (\<forall>i s. map_of (m_sessions m) i = Some s \<longrightarrow> session_ok m now i s)"

lemmas session_op_defs =
  login_def logout_def renew_def validate_def cleanup_expired_def invalidate_all_def
  set_auth_enabled_def touch_def

lemma session_inv_start: "session_inv (new_manager u p t e) now"
  by (simp add: session_inv_def new_manager_def default_timeout_def)

lemma session_inv_later: "session_inv m now \<Longrightarrow> now \<le> now' \<Longrightarrow> session_inv m now'"
  by (force simp: session_inv_def session_ok_def)

lemma session_ok_touch: "session_ok m now i s \<Longrightarrow> session_ok m now i (s\<lparr>last_access := now\<rparr>)"
  by (auto simp: session_ok_def)

lemma session_ok_table [simp]: "session_ok (m\<lparr>m_sessions := t\<rparr>) now i s = session_ok m now i s"
  by (simp add: session_ok_def)

lemma session_inv_apply: "session_inv m now \<Longrightarrow> session_inv (apply_op x now m) now"
proof (cases x)
  case (OpValidate i)
  assume "session_inv m now"
  with OpValidate show ?thesis
    by (auto simp: session_inv_def session_op_defs intro: session_ok_touch
        split: option.splits if_splits)
qed (auto simp: session_inv_def session_ok_def session_op_defs Let_def map_of_filter_v
      split: option.splits if_splits)

lemma session_inv_reachable: "session_reachable m now \<Longrightarrow> session_inv m now"
  by (induction rule: session_reachable.induct)
    (auto intro: session_inv_start session_inv_apply session_inv_later)

section \<open>Live tokens\<close>

text \<open>
  The abstraction of the table: the sessions a client can still use at a given time. Entries
  that have expired but were not collected yet are not part of it.
\<close>

definition live_view :: "session_manager \<Rightarrow> int \<Rightarrow> string \<rightharpoonup> session" where
  "live_view m now i =
     (case map_of (m_sessions m) i of
        None \<Rightarrow> None
      | Some s \<Rightarrow> if is_expired now (m_timeout m) s then None else Some s)"

lemma get_session_live: "get_session i now m = live_view m now i"
  by (simp add: get_session_def live_view_def)

lemma apply_op_timeout [simp]: "m_timeout (apply_op x now m) = m_timeout m"
  by (cases x) (auto simp: session_op_defs Let_def split: option.splits)

text \<open>A token nobody mints again cannot come back once it is dead.\<close>

lemma dead_step:
  assumes "wf_map (m_sessions m)" and "live_view m now i = None" and "minted x \<noteq> Some i"
    and "now \<le> t"
  shows "live_view (apply_op x t m) t i = None"
  using assms
  by (cases x)
    (auto simp: live_view_def session_op_defs Let_def map_of_filter_v is_expired_def
      split: option.splits if_splits)

lemma ends_dead: "ends x i \<Longrightarrow> live_view (apply_op x t m) t i = None"
  by (cases x) (auto simp: live_view_def session_op_defs Let_def split: option.splits if_splits)

lemma dead_later: "live_view m now i = None \<Longrightarrow> now \<le> t \<Longrightarrow> live_view m t i = None"
  by (auto simp: live_view_def is_expired_def split: option.splits if_splits)

lemma renew_dead: "live_view m now i = None \<Longrightarrow> fst (renew i rnd now m) = []"
  by (auto simp: renew_def live_view_def split: option.splits if_splits)

lemma wf_apply_op: "wf_map (m_sessions m) \<Longrightarrow> wf_map (m_sessions (apply_op x now m))"
  by (cases x) (auto simp: session_op_defs Let_def split: option.splits)

lemma dead_run:
  assumes "wf_map (m_sessions m)" and "live_view m now i = None"
    and "\<forall>x \<in> set xs. minted (fst x) \<noteq> Some i" and "times_from now xs"
  shows "live_view (run_ops xs m) (end_time now xs) i = None"
  using assms
proof (induction xs arbitrary: m now)
  case Nil
  then show ?case by simp
next
  case (Cons xt xs)
  obtain x t where [simp]: "xt = (x, t)" by (cases xt)
  from Cons.prems have "live_view (apply_op x t m) t i = None"
    by (intro dead_step) auto
  with Cons.prems show ?case
    by (auto intro!: Cons.IH wf_apply_op)
qed

lemma validate_live:
  "m_enabled m \<Longrightarrow> i \<noteq> [] \<Longrightarrow> fst (validate i now m) \<longleftrightarrow> live_view m now i \<noteq> None"
  by (auto simp: validate_def live_view_def split: option.splits)

lemma validate_keeps_view:
  "j \<noteq> i \<Longrightarrow> live_view (snd (validate i now m)) t j = live_view m t j"
  by (auto simp: validate_def live_view_def split: option.splits)

section \<open>Properties\<close>

text \<open>C1. In every reachable session table the keys are distinct, each entry is filed under its own
  id and belongs to the configured user, and its timestamps are ordered and never in the future.\<close>

theorem session_table_invariant: "session_reachable m now \<Longrightarrow> session_inv m now"
  by (rule session_inv_reachable)

text \<open>C2. A token that has been logged out, renewed, invalidated with all others, or has outlived its
  timeout stays dead: whatever clients do afterwards (log in, renew, validate, clean up, toggle
  authentication), unless that very token is drawn again no later validation accepts it while
  authentication is on, no renewal exchanges it and no lookup finds it.\<close>

theorem dead_token_stays_dead:
  assumes "session_reachable m now" and "now \<le> t0"
    and "ends x i \<or> (live_view m t0 i = None \<and> minted x \<noteq> Some i)" and "i \<noteq> []"
    and "\<forall>y \<in> set xs. minted (fst y) \<noteq> Some i" and "times_from t0 xs"
    and "end_time t0 xs \<le> t" and "m' = run_ops ((x, t0) # xs) m"
  shows "(m_enabled m' \<longrightarrow> \<not> fst (validate i t m')) \<and> fst (renew i rnd t m') = [] \<and>
    get_session i t m' = None"
proof -
  have wf: "wf_map (m_sessions m)"
    using session_inv_reachable [OF assms(1)] by (simp add: session_inv_def)
  have "live_view (apply_op x t0 m) t0 i = None"
    using assms(3) dead_step [OF wf, of t0 i x t0] by (auto intro: ends_dead)
  then have "live_view m' (end_time t0 xs) i = None"
    using dead_run [OF wf_apply_op [OF wf]] assms(5,6,8) by simp
  then have "live_view m' t i = None"
    using assms(7) by (rule dead_later)
  with assms(4) show ?thesis
    by (simp add: validate_live renew_dead get_session_live)
qed

text \<open>C3. Validation, exactly: with authentication on a token is accepted if and only if the table holds
  a session for it that was last used at most the timeout ago. Accepting slides the window: from
  then on the token is good up to \<open>now + timeout\<close> and no longer. Refusing drops what the table held
  for the token, and no other session is touched either way.\<close>

theorem validate_sliding_window:
  assumes "m_enabled m" and "i \<noteq> []" and "validate i now m = (ok, m')"
  shows "(ok \<longleftrightarrow> (\<exists>s. map_of (m_sessions m) i = Some s \<and> now - last_access s \<le> m_timeout m)) \<and>
    (ok \<longrightarrow> (\<forall>t \<ge> now. fst (validate i t m') \<longleftrightarrow> t \<le> now + m_timeout m)) \<and>
    (\<not> ok \<longrightarrow> map_of (m_sessions m') i = None) \<and>
    (\<forall>j. j \<noteq> i \<longrightarrow> map_of (m_sessions m') j = map_of (m_sessions m) j)"
  using assms
  by (auto simp: validate_def touch_def is_expired_def split: option.splits if_splits)

text \<open>Renewing a live token returns a fresh one that is live for the same user and permissions,
  kills the old one, and leaves every other token alone, provided the fresh token differs from
  the old one.\<close>

theorem renew_swaps_token:
  assumes "live_view m now i = Some s" and "0 \<le> m_timeout m" and "mint_id rnd \<noteq> i"
    and "renew i rnd now m = (j, m')"
  shows "j = mint_id rnd \<and>
     live_view m' now j = Some \<lparr>sid = j, s_username = s_username s, created_at = now,
       last_access = now, permissions = permissions s\<rparr> \<and>
     (\<forall>t. live_view m' t i = None) \<and>
     (\<forall>t k. k \<noteq> i \<longrightarrow> k \<noteq> j \<longrightarrow> live_view m' t k = live_view m t k)"
  using assms
  by (auto simp: renew_def live_view_def Let_def is_expired_def split: option.splits if_splits)

text \<open>C4. Collecting expired sessions is invisible: it removes exactly the dead entries, so the set of
  usable tokens is the same afterwards at every later time; what it reports and what stays add up.\<close>

theorem cleanup_invisible:
  assumes "session_reachable m now" and "cleanup_expired now m = (n, m')"
  shows "n + length (m_sessions m') = length (m_sessions m) \<and>
         length (m_sessions m') = active_count now m \<and>
         (\<forall>t \<ge> now. live_view m' t = live_view m t)"
proof -
  have wf: "wf_map (m_sessions m)"
    using session_inv_reachable [OF assms(1)] by (simp add: session_inv_def)
  have "live_view m' t i = live_view m t i" if "now \<le> t" for t i
    using assms(2) that wf
    by (auto simp: cleanup_expired_def live_view_def map_of_filter_v is_expired_def
        split: option.splits if_splits)
  moreover have "length (map_filter_v P xs) + length (map_filter_v (\<lambda>s. \<not> P s) xs) = length xs"
    for P and xs :: "(string, session) gomap"
    by (simp add: map_filter_v_def case_prod_unfold sum_length_filter_compl)
  ultimately show ?thesis
    using assms(2) by (auto simp: cleanup_expired_def active_count_def fun_eq_iff)
qed

text \<open>The session path and HTTP basic authentication accept the same credentials: a login mints a
  non-empty token, live at once, exactly when \<open>CheckCredentials\<close> accepts the pair, and
  otherwise changes nothing.\<close>

theorem login_iff_credentials:
  assumes "length bytes = 16" and "0 \<le> m_timeout m"
    and "login u p (Some bytes) now m = (i, m')"
  shows "(check_credentials u p m \<longleftrightarrow> i \<noteq> []) \<and>
    (if i = [] then m' = m else length i = 32 \<and> live_view m' now i \<noteq> None)"
proof -
  have ne: "hex_encode bytes \<noteq> []"
    using length_hex_encode [of bytes] assms(1) by force
  show ?thesis
    using assms ne
    by (auto simp: login_def check_credentials_def mint_id_def Let_def live_view_def
        is_expired_def split: if_splits)
qed

section \<open>Witnesses\<close>

definition demo_manager :: session_manager where
  "demo_manager = new_manager ''Admin'' ''pw'' 100 True"

definition demo_token :: string where
  "demo_token = mint_id (Some (replicate 16 7))"

definition demo_logged_in :: session_manager where
  "demo_logged_in = apply_op (OpLogin ''Admin'' ''pw'' (Some (replicate 16 7))) 10 demo_manager"

lemmas demo_session_defs =
  demo_manager_def demo_logged_in_def demo_token_def new_manager_def default_timeout_def

lemma demo_reachable: "session_reachable demo_logged_in 10"
  unfolding demo_logged_in_def demo_manager_def
  by (rule session_reachable.step [OF session_reachable.start [where now = 0]]) simp

lemma sixteen: "replicate 16 x = [x, x, x, x, x, x, x, x, x, x, x, x, x, x, x, x]"
  by (simp add: eval_nat_numeral)

lemma demo_token_value: "demo_token = ''07070707070707070707070707070707''"
  by (simp add: demo_token_def mint_id_def sixteen hex_digit_def char_of_eq_iff)

theorem session_table_invariant_witness: "session_inv demo_logged_in 10"
  by (rule session_table_invariant [OF demo_reachable])

theorem dead_token_stays_dead_witness:
  "\<not> fst (validate demo_token 50
       (run_ops [(OpLogout demo_token, 20), (OpCleanup, 30)] demo_logged_in)) \<and>
   fst (renew demo_token None 50
       (run_ops [(OpRenew demo_token (Some (replicate 16 9)), 20), (OpCleanup, 30)] demo_logged_in)) = []"
proof -
  have ne: "demo_token \<noteq> []" by (simp add: demo_token_value)
  have e: "m_enabled (run_ops [(OpLogout demo_token, 20), (OpCleanup, 30)] demo_logged_in)"
    by (simp add: demo_session_defs login_def logout_def cleanup_expired_def Let_def split: option.splits)
  have "\<not> fst (validate demo_token 50
       (run_ops [(OpLogout demo_token, 20), (OpCleanup, 30)] demo_logged_in))"
    using dead_token_stays_dead [OF demo_reachable, of 20 "OpLogout demo_token" demo_token
        "[(OpCleanup, 30)]" 50, OF _ _ ne _ _ _ refl] e by simp
  moreover have "fst (renew demo_token None 50
       (run_ops [(OpRenew demo_token (Some (replicate 16 9)), 20), (OpCleanup, 30)] demo_logged_in)) = []"
    using dead_token_stays_dead [OF demo_reachable, of 20 "OpRenew demo_token (Some (replicate 16 9))"
        demo_token "[(OpCleanup, 30)]" 50, OF _ _ ne _ _ _ refl] by simp
  ultimately show ?thesis by simp
qed

theorem validate_sliding_window_witness:
  "fst (validate demo_token 150 (snd (validate demo_token 50 demo_logged_in))) \<and>
   \<not> fst (validate demo_token 151 (snd (validate demo_token 50 demo_logged_in))) \<and>
   map_of (m_sessions (snd (validate demo_token 111 demo_logged_in))) demo_token = None"
proof -
  have v: "validate demo_token 50 demo_logged_in = (True, snd (validate demo_token 50 demo_logged_in))"
    and x: "validate demo_token 111 demo_logged_in = (False, snd (validate demo_token 111 demo_logged_in))"
    and e: "m_enabled demo_logged_in" and t: "m_timeout demo_logged_in = 100" and ne: "demo_token \<noteq> []"
    by (simp_all add: demo_session_defs login_def validate_def is_expired_def Let_def
        demo_token_value [unfolded demo_token_def])
  from validate_sliding_window [OF e ne v] validate_sliding_window [OF e ne x] t
  show ?thesis by simp
qed

theorem renew_swaps_token_witness:
  "live_view (snd (renew demo_token (Some (replicate 16 9)) 20 demo_logged_in)) 20 demo_token = None"
proof -
  let ?r = "renew demo_token (Some (replicate 16 9)) 20 demo_logged_in"
  have l: "live_view demo_logged_in 20 demo_token =
      Some \<lparr>sid = demo_token, s_username = ''Admin'', created_at = 10, last_access = 10, permissions = {}\<rparr>"
    by (simp add: demo_session_defs live_view_def login_def is_expired_def Let_def)
  have t: "0 \<le> m_timeout demo_logged_in"
    by (simp add: demo_session_defs login_def Let_def)
  have d: "mint_id (Some (replicate 16 9)) \<noteq> demo_token"
    by (simp add: demo_token_value mint_id_def sixteen hex_digit_def char_of_eq_iff)
  show ?thesis
    using renew_swaps_token [OF l t d, of "fst ?r" "snd ?r"] by simp
qed

theorem cleanup_invisible_witness:
  "fst (cleanup_expired 500 demo_logged_in) = 1 \<and>
   live_view (snd (cleanup_expired 500 demo_logged_in)) 500 = live_view demo_logged_in 500"
proof -
  have r: "session_reachable (apply_op (OpSetAuth True) 500 demo_logged_in) 500"
    by (rule session_reachable.step [OF demo_reachable]) simp
  have same: "apply_op (OpSetAuth True) 500 demo_logged_in = demo_logged_in"
    by (simp add: demo_session_defs login_def set_auth_enabled_def Let_def)
  have "fst (cleanup_expired 500 demo_logged_in) = 1"
    by (simp add: demo_session_defs login_def cleanup_expired_def map_filter_v_def is_expired_def Let_def)
  then have "cleanup_expired 500 demo_logged_in = (1, snd (cleanup_expired 500 demo_logged_in))"
    by (cases "cleanup_expired 500 demo_logged_in") simp
  from cleanup_invisible [OF r [unfolded same] this] this show ?thesis
    by (metis fst_conv order_refl)
qed

theorem login_iff_credentials_witness:
  "fst (login ''Admin'' ''pw'' (Some (replicate 16 7)) 10 demo_manager) \<noteq> []"
proof -
  let ?l = "login ''Admin'' ''pw'' (Some (replicate 16 7)) 10 demo_manager"
  have "check_credentials ''Admin'' ''pw'' demo_manager" and "0 \<le> m_timeout demo_manager"
    by (simp_all add: check_credentials_def demo_session_defs)
  then show ?thesis
    using login_iff_credentials [of "replicate 16 7" demo_manager "''Admin''" "''pw''" 10
        "fst ?l" "snd ?l"] by simp
qed

end
