(* ===== verification/Go_Num.thy ===== *)
theory Go_Num
  imports Prelude
begin

text \<open>
  Integer syntax as Go's \<open>strconv\<close> reads and writes it (\<open>ParseUint\<close>, \<open>ParseInt\<close>,
  \<open>FormatInt\<close>/\<open>Itoa\<close>): the part of the standard library the resume position, the level
  converters and the script lexer rest on. A malformed or out-of-range text is \<open>None\<close>.
\<close>

section \<open>Reading\<close>

definition digit_val :: "char \<Rightarrow> nat option" where
  "digit_val c = (let n = of_char c in
     if 48 \<le> n \<and> n \<le> 57 then Some (n - 48)
     else if 97 \<le> n \<and> n \<le> 122 then Some (n - 87)
     else if 65 \<le> n \<and> n \<le> 90 then Some (n - 55)
     else None)"

fun digits_val :: "nat \<Rightarrow> nat \<Rightarrow> string \<Rightarrow> nat option" where
  "digits_val base acc [] = Some acc"
| "digits_val base acc (c # cs) =
     (case digit_val c of
        None \<Rightarrow> None
      | Some d \<Rightarrow> if d < base then digits_val base (acc * base + d) cs else None)"

definition parse_uint :: "nat \<Rightarrow> string \<Rightarrow> nat option" where
  "parse_uint base s =
     (if s = [] then None
      else (case digits_val base 0 s of
              None \<Rightarrow> None
            | Some n \<Rightarrow> if n < 2 ^ 64 then Some n else None))"

definition parse_int :: "nat \<Rightarrow> string \<Rightarrow> int option" where
  "parse_int base s =
     (case s of
        [] \<Rightarrow> None
      | c # cs \<Rightarrow>
          if c = CHR ''-'' then
            (case parse_uint base cs of
               None \<Rightarrow> None
             | Some n \<Rightarrow> if n \<le> 2 ^ 63 then Some (- int n) else None)
          else
            (case parse_uint base (if c = CHR ''+'' then cs else s) of
               None \<Rightarrow> None
             | Some n \<Rightarrow> if n < 2 ^ 63 then Some (int n) else None))"

section \<open>Writing\<close>

definition digit_char :: "nat \<Rightarrow> char" where
  "digit_char d = (if d < 10 then char_of (48 + d) else char_of (87 + d))"

fun digits_of :: "nat \<Rightarrow> string" where
  "digits_of n = (if n < 10 then [digit_char n] else digits_of (n div 10) @ [digit_char (n mod 10)])"

declare digits_of.simps [simp del]

definition format_int :: "int \<Rightarrow> string" where
  "format_int i = (if i < 0 then CHR ''-'' # digits_of (nat (- i)) else digits_of (nat i))"

section \<open>Round trip\<close>

lemma digit_val_char: "d < 36 \<Longrightarrow> digit_val (digit_char d) = Some d"
  by (auto simp: digit_val_def digit_char_def Let_def)

lemma digits_val_append:
  "digits_val base acc (xs @ ys) = Option.bind (digits_val base acc xs) (\<lambda>a. digits_val base a ys)"
  by (induction xs arbitrary: acc) (auto split: option.splits)

lemma digits_of_nonempty: "digits_of n \<noteq> []"
  by (subst digits_of.simps) simp

lemma digits_val_digits_of: "\<exists>k. \<forall>acc. digits_val 10 acc (digits_of n) = Some (acc * 10 ^ k + n)"
proof (induction n rule: digits_of.induct)
  case (1 n)
  show ?case
  proof (cases "n < 10")
    case True
    then show ?thesis
      by (subst digits_of.simps) (auto simp: digit_val_char intro: exI [of _ "Suc 0"])
  next
    case False
    then obtain k where k: "\<forall>acc. digits_val 10 acc (digits_of (n div 10)) = Some (acc * 10 ^ k + n div 10)"
      using 1 by auto
    have "\<forall>acc. digits_val 10 acc (digits_of n) = Some (acc * 10 ^ Suc k + n)"
    proof
      fix acc
      have "digits_val 10 acc (digits_of n) =
          Some ((acc * 10 ^ k + n div 10) * 10 + n mod 10)"
        using False k by (subst digits_of.simps) (simp add: digits_val_append digit_val_char)
      also have "(acc * 10 ^ k + n div 10) * 10 + n mod 10 = acc * 10 ^ Suc k + n"
        by (simp add: algebra_simps)
      finally show "digits_val 10 acc (digits_of n) = Some (acc * 10 ^ Suc k + n)" .
    qed
    then show ?thesis by blast
  qed
qed

lemma parse_uint_digits_of: "n < 2 ^ 64 \<Longrightarrow> parse_uint 10 (digits_of n) = Some n"
  using digits_val_digits_of [of n] by (auto simp: parse_uint_def digits_of_nonempty)

lemma parse_uint_bound: "parse_uint base s = Some n \<Longrightarrow> n < 2 ^ 64"
  by (auto simp: parse_uint_def split: if_splits option.splits)

lemma digits_val_chars: "digits_val 10 acc s = Some n \<Longrightarrow> \<forall>c \<in> set s. (48::nat) \<le> of_char c \<and> (of_char c :: nat) \<le> 57"
  by (induction s arbitrary: acc)
    (auto simp: digit_val_def Let_def split: option.splits if_splits)

lemma digits_of_chars: "\<forall>c \<in> set (digits_of n). (48::nat) \<le> of_char c \<and> (of_char c :: nat) \<le> 57"
  using digits_val_digits_of [of n] digits_val_chars by blast

lemma parse_int_format:
  assumes "- (2 ^ 63) \<le> i" and "i < 2 ^ 63"
  shows "parse_int 10 (format_int i) = Some i"
proof (cases "i < 0")
  case True
  with assms have "parse_uint 10 (digits_of (nat (- i))) = Some (nat (- i))"
    by (intro parse_uint_digits_of) (simp add: nat_less_iff)
  with True assms show ?thesis
    by (simp add: format_int_def parse_int_def nat_le_iff)
next
  case False
  with assms have p: "parse_uint 10 (digits_of (nat i)) = Some (nat i)"
    by (intro parse_uint_digits_of) (simp add: nat_less_iff)
  obtain c cs where d: "digits_of (nat i) = c # cs"
    using digits_of_nonempty by (cases "digits_of (nat i)") auto
  then have "(48::nat) \<le> of_char c" "(of_char c :: nat) \<le> 57"
    using digits_of_chars [of "nat i"] by auto
  then have "c \<noteq> CHR ''-''" "c \<noteq> CHR ''+''"
    by auto
  with False p d assms show ?thesis
    by (simp add: format_int_def parse_int_def nat_less_iff)
qed

end
