(* ===== verification/Ring.thy ===== *)
theory Ring
  imports Go_Num
begin

text \<open>
  \<^verbatim>\<open>pkg/litefake/ring.go\<close> and the message filter of \<^verbatim>\<open>pkg/litefake/stream.go\<close>: the bounded
  history of the event stream, its boot id, its open readers, and the resume rule.

  Sequence numbers are \<open>uint64\<close> in the source and \<open>nat\<close> here (the counter starts at 0 and
  grows by one per message); the resume position a client sends is still parsed with the
  64-bit bound. The limits are \<open>nat\<close>: \<open>fake.go\<close> replaces every non-positive option by a
  positive default before it builds the ring. A reader is a pointer in the source; here it is
  an address drawn from a counter, and its channel is the list of queued messages.
\<close>

section \<open>State\<close>

definition type_hello :: string where "type_hello = ''hello''"
definition type_event :: string where "type_event = ''event''"
definition type_state :: string where "type_state = ''state''"
definition type_resync :: string where "type_resync = ''resync''"
definition resync_boot :: string where "resync_boot = ''boot''"
definition resync_gap :: string where "resync_gap = ''gap''"

record message =
  msg_seq :: nat
  msg_typ :: string
  msg_data :: string
  msg_at :: int
  msg_iface :: string
  msg_address :: string
  msg_key :: string

record reader =
  subject :: string
  queue :: "message list"
  dropped :: nat
  killed :: bool

datatype limit_error = TooManyTotal nat | TooManyPerSubject nat

record attach_result =
  ar_boot :: string
  ar_seq :: nat
  ar_replay :: "message list"
  ar_resync :: string

record ring =
  boot_id :: string
  last_seq :: nat
  msgs :: "message list"
  max_events :: nat
  max_age :: int
  queue_size :: nat
  per_subj :: nat
  total_streams :: nat
  readers :: "(nat, reader) gomap"
  next_reader :: nat

definition new_ring :: "string \<Rightarrow> nat \<Rightarrow> int \<Rightarrow> nat \<Rightarrow> nat \<Rightarrow> nat \<Rightarrow> ring" where
  "new_ring boot events period q per_subject limit =
     \<lparr>boot_id = boot, last_seq = 0, msgs = [], max_events = events, max_age = period, queue_size = q,
      per_subj = per_subject, total_streams = limit, readers = [], next_reader = 0\<rparr>"

text \<open>\<open>newBootID\<close>: 8 random bytes in hex, or 16 zeros when the random source fails.\<close>

definition new_boot_id :: "8 word list option \<Rightarrow> string" where
  "new_boot_id rnd = (case rnd of None \<Rightarrow> replicate 16 (CHR ''0'') | Some b \<Rightarrow> hex_encode b)"

section \<open>Publishing\<close>

text \<open>\<open>pruneLocked\<close>: first the count bound, then the age bound on what is left.\<close>

definition prune :: "int \<Rightarrow> ring \<Rightarrow> ring" where
  "prune now g = g\<lparr>msgs :=
     dropWhile (\<lambda>m. msg_at m < now - max_age g) (drop (length (msgs g) - max_events g) (msgs g))\<rparr>"

text \<open>The non-blocking send: a full queue drops the message and counts the loss.\<close>

definition offer :: "nat \<Rightarrow> message \<Rightarrow> reader \<Rightarrow> reader" where
  "offer depth m rd =
     (if length (queue rd) < depth then rd\<lparr>queue := queue rd @ [m]\<rparr>
      else rd\<lparr>dropped := Suc (dropped rd)\<rparr>)"

record publication =
  p_typ :: string
  p_iface :: string
  p_address :: string
  p_key :: string
  p_build :: "nat \<Rightarrow> string"
  p_now :: int

definition new_message :: "publication \<Rightarrow> ring \<Rightarrow> message" where
  "new_message p g =
     \<lparr>msg_seq = Suc (last_seq g), msg_typ = p_typ p, msg_data = p_build p (Suc (last_seq g)),
      msg_at = p_now p, msg_iface = p_iface p, msg_address = p_address p, msg_key = p_key p\<rparr>"

definition publish :: "publication \<Rightarrow> ring \<Rightarrow> ring" where
  "publish p g =
     (let m = new_message p g;
          g1 = prune (p_now p) (g\<lparr>last_seq := Suc (last_seq g), msgs := msgs g @ [m]\<rparr>)
      in g1\<lparr>readers := map (\<lambda>(i, rd). (i, offer (queue_size g) m rd)) (readers g1)\<rparr>)"

section \<open>Attaching and resuming\<close>

definition resume :: "string \<Rightarrow> ring \<Rightarrow> message list \<times> string" where
  "resume last_event_id g =
     (case cut_byte (CHR ''-'') last_event_id of
        (boot, seq_text, ok) \<Rightarrow>
          if \<not> ok \<or> boot \<noteq> boot_id g then ([], resync_boot)
          else (case parse_uint 10 seq_text of
                  None \<Rightarrow> ([], resync_boot)
                | Some since \<Rightarrow>
                    if last_seq g \<le> since then ([], [])
                    else (case msgs g of
                            [] \<Rightarrow> ([], resync_gap)
                          | m # ms \<Rightarrow>
                              if Suc since < msg_seq m then ([], resync_gap)
                              else (filter (\<lambda>m. since < msg_seq m) (msgs g), []))))"

definition same_subject :: "string \<Rightarrow> ring \<Rightarrow> nat" where
  "same_subject s g = length (filter (\<lambda>(i, rd). subject rd = s) (readers g))"

definition attach ::
  "string \<Rightarrow> string \<Rightarrow> bool \<Rightarrow> int \<Rightarrow> ring \<Rightarrow> limit_error + (nat \<times> attach_result \<times> ring)" where
  "attach s last_event_id has_resume now g =
     (if total_streams g \<le> length (readers g) then Inl (TooManyTotal (total_streams g))
      else if per_subj g \<le> same_subject s g then Inl (TooManyPerSubject (per_subj g))
      else (let i = next_reader g;
                rd = \<lparr>subject = s, queue = [], dropped = 0, killed = False\<rparr>;
                g1 = prune now (g\<lparr>readers := AList.update i rd (readers g), next_reader := Suc i\<rparr>);
                (rp, rs) = (if has_resume then resume last_event_id g1 else ([], []))
            in Inr (i, \<lparr>ar_boot = boot_id g1, ar_seq = last_seq g1, ar_replay = rp, ar_resync = rs\<rparr>, g1)))"

section \<open>The remaining operations\<close>

definition lookup_seq :: "nat \<Rightarrow> ring \<Rightarrow> message option" where
  "lookup_seq n g = List.find (\<lambda>m. msg_seq m = n) (msgs g)"

definition detach :: "nat \<Rightarrow> ring \<Rightarrow> ring" where
  "detach i g = g\<lparr>readers := AList.delete i (readers g)\<rparr>"

definition position :: "ring \<Rightarrow> string \<times> nat" where
  "position g = (boot_id g, last_seq g)"

definition last_event_id :: "ring \<Rightarrow> string" where
  "last_event_id g = fst (position g) @ CHR ''-'' # digits_of (snd (position g))"

definition on_readers :: "(reader \<Rightarrow> reader) \<Rightarrow> ring \<Rightarrow> ring" where
  "on_readers f g = g\<lparr>readers := map (\<lambda>(i, rd). (i, f rd)) (readers g)\<rparr>"

definition stop_reader :: "reader \<Rightarrow> reader" where
  "stop_reader rd = rd\<lparr>killed := True\<rparr>"

definition drop_streams :: "ring \<Rightarrow> ring" where
  "drop_streams g = on_readers stop_reader g"

definition force_overflow :: "ring \<Rightarrow> ring" where
  "force_overflow g = on_readers (\<lambda>rd. rd\<lparr>dropped := Suc (dropped rd)\<rparr>) g"

definition force_gap :: "ring \<Rightarrow> ring" where
  "force_gap g = g\<lparr>msgs := []\<rparr>"

definition restart :: "8 word list option \<Rightarrow> ring \<Rightarrow> ring" where
  "restart rnd g = on_readers stop_reader (g\<lparr>boot_id := new_boot_id rnd, last_seq := 0, msgs := []\<rparr>)"

definition open_streams :: "ring \<Rightarrow> nat" where
  "open_streams g = length (readers g)"

text \<open>The stream loop takes the oldest queued message: \<open>m := <-rd.queue\<close>.\<close>

definition receive :: "nat \<Rightarrow> ring \<Rightarrow> (message \<times> ring) option" where
  "receive i g =
     (case map_of (readers g) i of
        None \<Rightarrow> None
      | Some rd \<Rightarrow>
          (case queue rd of
             [] \<Rightarrow> None
           | m # ms \<Rightarrow> Some (m, g\<lparr>readers := AList.update i (rd\<lparr>queue := ms\<rparr>) (readers g)\<rparr>)))"

section \<open>The stream filter\<close>

record stream_filter =
  f_ifaces :: "string list"
  f_addresses :: "string list"
  f_keys :: "string list"
  f_types :: "string list"

text \<open>A set of the source is a list here; an empty one matches everything.\<close>

definition in_set :: "string list \<Rightarrow> string \<Rightarrow> bool" where
  "in_set vs v \<longleftrightarrow> vs = [] \<or> v \<in> set vs"

definition match_address :: "stream_filter \<Rightarrow> string \<Rightarrow> bool" where
  "match_address f address \<longleftrightarrow> f_addresses f = [] \<or>
     (\<exists>a \<in> set (f_addresses f). address = a \<or> prefix (a @ '':'') address)"

definition match_msg :: "stream_filter \<Rightarrow> message \<Rightarrow> bool" where
  "match_msg f m =
     (if msg_typ m = type_hello \<or> msg_typ m = type_resync then True
      else if \<not> in_set (f_types f) (msg_typ m) \<or> \<not> in_set (f_ifaces f) (msg_iface m) then False
      else if msg_typ m = type_event \<or> msg_typ m = type_state
      then match_address f (msg_address m) \<and> in_set (f_keys f) (msg_key m)
      else True)"

definition match_state :: "stream_filter \<Rightarrow> string \<Rightarrow> string \<Rightarrow> string \<Rightarrow> bool" where
  "match_state f iface address datapoint \<longleftrightarrow>
     in_set (f_ifaces f) iface \<and> match_address f address \<and> in_set (f_keys f) datapoint"

section \<open>Sequence numbers are consecutive\<close>

text \<open>The messages held are the newest ones, without a hole, ending at the last number assigned.\<close>

definition seqs_ok :: "nat \<Rightarrow> message list \<Rightarrow> bool" where
  "seqs_ok l xs \<longleftrightarrow> map msg_seq xs = [Suc l - length xs ..< Suc l] \<and> length xs \<le> l"

lemma seqs_ok_Nil [simp]: "seqs_ok l []"
  by (simp add: seqs_ok_def)

lemma seqs_ok_suffix: "seqs_ok l xs \<Longrightarrow> suffix ys xs \<Longrightarrow> seqs_ok l ys"
proof -
  assume ok: "seqs_ok l xs" and "suffix ys xs"
  then obtain zs where xs: "xs = zs @ ys" by (auto simp: suffix_def)
  from ok have le: "length zs + length ys \<le> l"
    and eq: "map msg_seq zs @ map msg_seq ys = [Suc l - (length zs + length ys) ..< Suc l]"
    by (auto simp: seqs_ok_def xs)
  from arg_cong [OF eq, of "drop (length zs)"]
  have "map msg_seq ys = [Suc l - (length zs + length ys) + length zs ..< Suc l]"
    by (simp del: upt_Suc)
  also have "Suc l - (length zs + length ys) + length zs = Suc l - length ys"
    using le by simp
  finally show ?thesis using le by (simp add: seqs_ok_def)
qed

lemma seqs_ok_snoc: "seqs_ok l xs \<Longrightarrow> msg_seq m = Suc l \<Longrightarrow> seqs_ok (Suc l) (xs @ [m])"
  by (auto simp: seqs_ok_def)

lemma suffix_prune: "suffix (msgs (prune now g)) (msgs g)"
  unfolding prune_def
  by (simp add: suffix_order.trans [OF suffix_dropWhile suffix_drop])

lemma prune_fields [simp]:
  "boot_id (prune now g) = boot_id g" "last_seq (prune now g) = last_seq g"
  "max_events (prune now g) = max_events g" "queue_size (prune now g) = queue_size g"
  "per_subj (prune now g) = per_subj g" "total_streams (prune now g) = total_streams g"
  "readers (prune now g) = readers g" "next_reader (prune now g) = next_reader g"
  by (simp_all add: prune_def)

lemma length_prune: "length (msgs (prune now g)) \<le> max_events g"
  unfolding prune_def
  by (simp, rule order_trans [OF length_dropWhile_le]) simp

section \<open>The ring invariant\<close>

definition readers_ok :: "ring \<Rightarrow> bool" where
  "readers_ok g \<longleftrightarrow> wf_map (readers g) \<and>
     (\<forall>i rd. map_of (readers g) i = Some rd \<longrightarrow> i < next_reader g \<and> length (queue rd) \<le> queue_size g)"

definition limits_ok :: "ring \<Rightarrow> bool" where
  "limits_ok g \<longleftrightarrow> length (readers g) \<le> total_streams g \<and> (\<forall>s. same_subject s g \<le> per_subj g)"

definition ring_inv :: "ring \<Rightarrow> bool" where
  "ring_inv g \<longleftrightarrow> seqs_ok (last_seq g) (msgs g) \<and> readers_ok g \<and> limits_ok g \<and> CHR ''-'' \<notin> set (boot_id g)"

lemma new_boot_id_plain: "CHR ''-'' \<notin> set (new_boot_id rnd)"
  by (simp add: new_boot_id_def hex_encode_plain split: option.splits)

datatype ring_op =
    Publish publication
  | Attach string string bool int
  | Receive nat
  | Detach nat
  | DropStreams
  | ForceOverflow
  | ForceGap
  | Restart "8 word list option"

fun ring_step :: "ring_op \<Rightarrow> ring \<Rightarrow> ring" where
  "ring_step (Publish p) g = publish p g"
| "ring_step (Attach s lid h now) g = (case attach s lid h now g of Inl e \<Rightarrow> g | Inr (i, r, g') \<Rightarrow> g')"
| "ring_step (Receive i) g = (case receive i g of None \<Rightarrow> g | Some (m, g') \<Rightarrow> g')"
| "ring_step (Detach i) g = detach i g"
| "ring_step DropStreams g = drop_streams g"
| "ring_step ForceOverflow g = force_overflow g"
| "ring_step ForceGap g = force_gap g"
| "ring_step (Restart b) g = restart b g"

inductive ring_reachable :: "ring \<Rightarrow> bool" where
  start: "ring_reachable (new_ring (new_boot_id rnd) e a q ps tot)"
| step: "ring_reachable g \<Longrightarrow> ring_reachable (ring_step x g)"

lemma map_of_map_snd: "map_of (map (\<lambda>(i, x). (i, f x)) xs) k = map_option f (map_of xs k)"
  by (induction xs) auto

lemma wf_map_map_snd [simp]: "wf_map (map (\<lambda>(i, x). (i, f x)) xs) = wf_map xs"
  by (simp add: wf_map_def case_prod_unfold comp_def)

lemma subject_comp:
  "(\<And>rd. subject (f rd) = subject rd) \<Longrightarrow>
   (\<lambda>(i, rd). subject rd = s) \<circ> (\<lambda>(i, rd). (i, f rd)) = (\<lambda>(i, rd). subject rd = s)"
  by auto

lemma offer_subject [simp]: "subject (offer depth m rd) = subject rd"
  by (simp add: offer_def)

lemma stop_reader_fields [simp]:
  "subject (stop_reader rd) = subject rd" "queue (stop_reader rd) = queue rd"
  "dropped (stop_reader rd) = dropped rd"
  by (simp_all add: stop_reader_def)

lemma length_offer: "length (queue rd) \<le> depth \<Longrightarrow> length (queue (offer depth m rd)) \<le> depth"
  by (simp add: offer_def)

lemma limits_map:
  "(\<And>rd. subject (f rd) = subject rd) \<Longrightarrow> limits_ok g \<Longrightarrow>
   limits_ok (g\<lparr>readers := map (\<lambda>(i, rd). (i, f rd)) (readers g)\<rparr>)"
  by (simp add: limits_ok_def same_subject_def filter_map subject_comp)

lemma readers_map:
  "(\<And>rd. length (queue rd) \<le> queue_size g \<Longrightarrow> length (queue (f rd)) \<le> queue_size g) \<Longrightarrow> readers_ok g \<Longrightarrow>
   readers_ok (g\<lparr>readers := map (\<lambda>(i, rd). (i, f rd)) (readers g)\<rparr>)"
  by (auto simp: readers_ok_def map_of_map_snd)

lemma ring_inv_on_readers:
  assumes "\<And>rd. subject (f rd) = subject rd" and "\<And>rd. queue (f rd) = queue rd" and "ring_inv g"
  shows "ring_inv (on_readers f g)"
  using assms limits_map [of f g] readers_map [of g f]
  by (simp add: ring_inv_def on_readers_def)

lemma ring_inv_publish: "ring_inv g \<Longrightarrow> ring_inv (publish p g)"
proof -
  assume inv: "ring_inv g"
  let ?g = "g\<lparr>last_seq := Suc (last_seq g), msgs := msgs g @ [new_message p g]\<rparr>"
  have "seqs_ok (Suc (last_seq g)) (msgs ?g)"
    using inv by (simp add: ring_inv_def seqs_ok_snoc new_message_def)
  then have "seqs_ok (Suc (last_seq g)) (msgs (prune (p_now p) ?g))"
    by (rule seqs_ok_suffix) (rule suffix_prune)
  moreover have "readers_ok (prune (p_now p) ?g)" "limits_ok (prune (p_now p) ?g)"
    using inv by (simp_all add: ring_inv_def readers_ok_def limits_ok_def same_subject_def)
  ultimately show ?thesis
    using readers_map [of "prune (p_now p) ?g" "offer (queue_size g) (new_message p g)"]
      limits_map [of "offer (queue_size g) (new_message p g)" "prune (p_now p) ?g"]
    using inv by (simp add: ring_inv_def publish_def Let_def length_offer)
qed

lemma update_fresh: "k \<notin> fst ` set xs \<Longrightarrow> AList.update k v xs = xs @ [(k, v)]"
  by (induction xs) auto

lemma reader_fresh: "readers_ok g \<Longrightarrow> next_reader g \<le> i \<Longrightarrow> i \<notin> fst ` set (readers g)"
  unfolding readers_ok_def by (metis leD map_of_eq_None_iff not_None_eq)

lemma ring_inv_attach: "ring_inv g \<Longrightarrow> attach s lid h now g = Inr (i, r, g') \<Longrightarrow> ring_inv g'"
proof -
  assume inv: "ring_inv g" and at: "attach s lid h now g = Inr (i, r, g')"
  let ?rd = "\<lparr>subject = s, queue = [], dropped = 0, killed = False\<rparr>"
  let ?g = "g\<lparr>readers := readers g @ [(next_reader g, ?rd)], next_reader := Suc (next_reader g)\<rparr>"
  have fresh: "next_reader g \<notin> fst ` set (readers g)"
    using inv reader_fresh by (auto simp: ring_inv_def)
  from at have g': "g' = prune now ?g"
    and lim: "length (readers g) < total_streams g" "same_subject s g < per_subj g"
    by (auto simp: attach_def Let_def update_fresh [OF fresh] split: if_splits prod.splits)
  have "seqs_ok (last_seq g) (msgs (prune now ?g))"
    using inv by (intro seqs_ok_suffix [OF _ suffix_prune]) (simp add: ring_inv_def)
  moreover have "readers_ok (prune now ?g)"
  proof -
    have none: "map_of (readers g) (next_reader g) = None"
      using fresh by (simp add: map_of_eq_None_iff)
    show ?thesis
      using inv fresh none
      by (auto simp: ring_inv_def readers_ok_def wf_map_def map_add_def less_Suc_eq
          split: option.splits if_splits)
  qed
  moreover have "limits_ok (prune now ?g)"
    using inv lim by (auto simp: ring_inv_def limits_ok_def same_subject_def)
  ultimately show ?thesis using inv by (simp add: ring_inv_def g')
qed

lemma receive_fields:
  assumes "receive i g = Some (m, g')"
  shows "msgs g' = msgs g" "last_seq g' = last_seq g" "total_streams g' = total_streams g"
    "per_subj g' = per_subj g" "queue_size g' = queue_size g" "boot_id g' = boot_id g"
    "next_reader g' = next_reader g"
  using assms by (auto simp: receive_def split: option.splits list.splits)

lemma length_update_old: "k \<in> fst ` set xs \<Longrightarrow> length (AList.update k v xs) = length xs"
  by (induction xs) auto

lemma filter_update_old:
  "map_of xs k = Some v \<Longrightarrow> P (k, v') = P (k, v) \<Longrightarrow>
   length (filter P (AList.update k v' xs)) = length (filter P xs)"
  by (induction xs) auto

lemma ring_inv_receive: "ring_inv g \<Longrightarrow> receive i g = Some (m, g') \<Longrightarrow> ring_inv g'"
proof -
  assume inv: "ring_inv g" and rc: "receive i g = Some (m, g')"
  then obtain rd ms where rd: "map_of (readers g) i = Some rd" "queue rd = m # ms"
    and g': "g' = g\<lparr>readers := AList.update i (rd\<lparr>queue := ms\<rparr>) (readers g)\<rparr>"
    by (auto simp: receive_def split: option.splits list.splits)
  have "i \<in> fst ` set (readers g)"
    using rd(1) by (force dest: map_of_SomeD)
  moreover have "same_subject s g' = same_subject s g" for s
    unfolding same_subject_def g' using rd
    by (simp add: filter_update_old [where v = rd])
  moreover have "readers_ok g'"
    using inv rd by (auto simp: ring_inv_def readers_ok_def g' dest: spec [of _ i])
  ultimately show ?thesis
    using inv by (simp add: ring_inv_def limits_ok_def g' length_update_old)
qed

lemma ring_inv_detach: "ring_inv g \<Longrightarrow> ring_inv (detach i g)"
proof -
  assume inv: "ring_inv g"
  have shrink: "length (filter P (filter Q xs)) \<le> length (filter P xs)"
    for P Q :: "nat \<times> reader \<Rightarrow> bool" and xs
    by (induction xs) auto
  have "length (filter P (AList.delete i (readers g))) \<le> length (filter P (readers g))" for P
    using shrink by (simp add: AList.delete_eq)
  then have "limits_ok (detach i g)"
    using inv length_delete_le [of i "readers g"]
    by (auto simp: ring_inv_def limits_ok_def detach_def same_subject_def intro: order_trans)
  then show ?thesis
    using inv by (auto simp: ring_inv_def readers_ok_def detach_def)
qed

lemma ring_inv_step: "ring_inv g \<Longrightarrow> ring_inv (ring_step x g)"
proof (cases x)
  case (Attach s lid h now)
  assume "ring_inv g"
  with Attach show ?thesis
    by (auto intro: ring_inv_attach split: sum.splits)
next
  case (Receive i)
  assume "ring_inv g"
  with Receive show ?thesis
    by (auto intro: ring_inv_receive split: option.splits)
next
  case ForceGap
  assume "ring_inv g"
  with ForceGap show ?thesis
    by (simp add: ring_inv_def force_gap_def readers_ok_def limits_ok_def same_subject_def)
next
  case (Restart b)
  assume "ring_inv g"
  then have "ring_inv (g\<lparr>boot_id := new_boot_id b, last_seq := 0, msgs := []\<rparr>)"
    by (simp add: ring_inv_def readers_ok_def limits_ok_def same_subject_def new_boot_id_plain)
  with Restart show ?thesis
    by (simp add: restart_def ring_inv_on_readers)
qed (auto simp: drop_streams_def force_overflow_def
    intro: ring_inv_publish ring_inv_detach ring_inv_on_readers)

lemma ring_inv_reachable: "ring_reachable g \<Longrightarrow> ring_inv g"
proof (induction rule: ring_reachable.induct)
  case (start rnd e a q ps tot)
  show ?case
    by (simp add: ring_inv_def new_ring_def new_boot_id_plain readers_ok_def limits_ok_def same_subject_def)
next
  case (step g x)
  then show ?case by (blast intro: ring_inv_step)
qed

section \<open>Resuming\<close>

lemma seqs_ok_nth: "seqs_ok l xs \<Longrightarrow> k < length xs \<Longrightarrow> msg_seq (xs ! k) = Suc l - length xs + k"
proof -
  assume ok: "seqs_ok l xs" and k: "k < length xs"
  then have "msg_seq (xs ! k) = [Suc l - length xs ..< Suc l] ! k"
    by (simp add: seqs_ok_def flip: nth_map)
  with ok k show ?thesis by (simp add: seqs_ok_def del: upt_Suc)
qed

lemma upt_filter_greater: "a \<le> Suc n \<Longrightarrow> filter (\<lambda>x. n < x) [a ..< b] = [Suc n ..< b]"
  by (induction b) (auto simp: le_Suc_eq)

text \<open>The resume rule as the contract words it: the three outcomes, by what the ring still holds.\<close>

lemma resume_cases:
  assumes inv: "seqs_ok (last_seq g) (msgs g)" and "CHR ''-'' \<notin> set b" and "n < 2 ^ 64"
  shows "resume (b @ CHR ''-'' # digits_of n) g =
    (if b \<noteq> boot_id g then ([], resync_boot)
     else if last_seq g \<le> n then ([], [])
     else if length (msgs g) < last_seq g - n then ([], resync_gap)
     else (filter (\<lambda>m. n < msg_seq m) (msgs g), []))"
proof (cases "msgs g")
  case Nil
  with assms show ?thesis
    by (simp add: resume_def cut_byte_found parse_uint_digits_of)
next
  case (Cons m ms)
  with inv have "msg_seq m = Suc (last_seq g) - length (msgs g)" "length (msgs g) \<le> last_seq g"
    using seqs_ok_nth [OF inv, of 0] by (auto simp: seqs_ok_def)
  with Cons assms show ?thesis
    by (auto simp: resume_def cut_byte_found parse_uint_digits_of)
qed

lemma replay_seqs:
  assumes "seqs_ok l xs" and "n < l" and "l - n \<le> length xs"
  shows "map msg_seq (filter (\<lambda>m. n < msg_seq m) xs) = [Suc n ..< Suc l]"
proof -
  have "map msg_seq (filter (\<lambda>m. n < msg_seq m) xs) = filter (\<lambda>x. n < x) (map msg_seq xs)"
    by (simp add: filter_map comp_def)
  also have "\<dots> = [Suc n ..< Suc l]"
    using assms by (simp add: seqs_ok_def upt_filter_greater del: upt_Suc)
  finally show ?thesis .
qed

section \<open>What a stream sees\<close>

text \<open>The messages reader \<open>i\<close> takes off its queue during a run.\<close>

fun taken :: "nat \<Rightarrow> ring_op \<Rightarrow> ring \<Rightarrow> message list" where
  "taken i (Receive j) g =
     (if j = i then (case receive i g of Some (m, g') \<Rightarrow> [m] | None \<Rightarrow> []) else [])"
| "taken i x g = []"

fun stream_run :: "nat \<Rightarrow> ring_op list \<Rightarrow> ring \<Rightarrow> message list \<times> ring" where
  "stream_run i [] g = ([], g)"
| "stream_run i (x # xs) g =
     (case stream_run i xs (ring_step x g) of (rest, g') \<Rightarrow> (taken i x g @ rest, g'))"

fun keeps_stream :: "nat \<Rightarrow> ring_op \<Rightarrow> bool" where
  "keeps_stream i (Restart b) = False"
| "keeps_stream i (Detach j) = (j \<noteq> i)"
| "keeps_stream i x = True"

definition stream_state :: "nat \<Rightarrow> nat \<Rightarrow> message list \<Rightarrow> ring \<Rightarrow> bool" where
  "stream_state i p got g \<longleftrightarrow> p \<le> last_seq g \<and>
     (\<exists>rd. map_of (readers g) i = Some rd \<and>
        (dropped rd = 0 \<longrightarrow> map msg_seq (got @ queue rd) = [Suc p ..< Suc (last_seq g)]))"

lemma stream_state_publish:
  "stream_state i p got g \<Longrightarrow> stream_state i p got (publish q g)"
proof -
  assume "stream_state i p got g"
  then obtain rd where rd: "map_of (readers g) i = Some rd" "p \<le> last_seq g"
    and ok: "dropped rd = 0 \<Longrightarrow> map msg_seq (got @ queue rd) = [Suc p ..< Suc (last_seq g)]"
    by (auto simp: stream_state_def simp del: upt_Suc)
  have "last_seq (publish q g) = Suc (last_seq g)"
    and "map_of (readers (publish q g)) i = Some (offer (queue_size g) (new_message q g) rd)"
    by (simp_all add: publish_def Let_def map_of_map_snd rd(1))
  moreover have "[Suc p ..< Suc (Suc (last_seq g))] = [Suc p ..< Suc (last_seq g)] @ [Suc (last_seq g)]"
    using rd(2) by (intro upt_Suc_append) simp
  ultimately show ?thesis
    using ok rd(2) by (auto simp: stream_state_def offer_def new_message_def simp del: upt_Suc)
qed

lemma stream_state_on_readers:
  assumes "\<And>rd. queue (f rd) = queue rd" and "\<And>rd. dropped rd \<le> dropped (f rd)"
    and "stream_state i p got g"
  shows "stream_state i p got (on_readers f g)"
proof -
  from assms(3) obtain rd where "map_of (readers g) i = Some rd" "p \<le> last_seq g"
    "dropped rd = 0 \<longrightarrow> map msg_seq (got @ queue rd) = [Suc p ..< Suc (last_seq g)]"
    by (auto simp: stream_state_def)
  moreover from assms(2) have "dropped (f rd) = 0 \<Longrightarrow> dropped rd = 0"
    by (metis le_zero_eq)
  ultimately show ?thesis
    by (simp add: stream_state_def on_readers_def map_of_map_snd assms(1) del: upt_Suc)
qed

lemma stream_state_attach:
  assumes "ring_inv g" and "stream_state i p got g" and "attach s lid h now g = Inr (j, r, g')"
  shows "stream_state i p got g'"
proof -
  have "i \<noteq> next_reader g"
    using assms(1,2) by (auto simp: ring_inv_def readers_ok_def stream_state_def)
  with assms(2,3) show ?thesis
    by (auto simp: stream_state_def attach_def Let_def split: if_splits prod.splits)
qed

lemma stream_state_receive:
  assumes "stream_state i p got g" and "receive j g = Some (m, g')"
  shows "stream_state i p (got @ (if j = i then [m] else [])) g'"
  using assms by (auto simp: stream_state_def receive_def split: option.splits list.splits)

lemma stream_state_detach: "stream_state i p got g \<Longrightarrow> j \<noteq> i \<Longrightarrow> stream_state i p got (detach j g)"
  by (simp add: stream_state_def detach_def del: upt_Suc)

lemma stream_state_gap: "stream_state i p got g \<Longrightarrow> stream_state i p got (force_gap g)"
  by (simp add: stream_state_def force_gap_def del: upt_Suc)

lemma stream_state_step:
  assumes "ring_inv g" and "stream_state i p got g" and "keeps_stream i x"
  shows "stream_state i p (got @ taken i x g) (ring_step x g)"
proof (cases x)
  case (Attach s lid h now)
  with assms show ?thesis
    by (auto intro: stream_state_attach split: sum.splits)
next
  case (Receive j)
  show ?thesis
  proof (cases "receive j g")
    case None
    with Receive assms(2) show ?thesis by auto
  next
    case (Some mg)
    obtain m g' where [simp]: "mg = (m, g')" by (cases mg)
    from stream_state_receive [OF assms(2), of j m g'] Some Receive
    show ?thesis by (auto split: if_splits)
  qed
qed (use assms in \<open>auto simp: drop_streams_def force_overflow_def
    intro: stream_state_publish stream_state_on_readers stream_state_detach stream_state_gap\<close>)

lemma stream_run_state:
  assumes "ring_inv g" and "stream_state i p got g" and "\<forall>x \<in> set xs. keeps_stream i x"
    and "stream_run i xs g = (rest, g')"
  shows "stream_state i p (got @ rest) g'"
  using assms
proof (induction xs arbitrary: g got rest)
  case Nil
  then show ?case by simp
next
  case (Cons x xs)
  obtain rest' where rest: "stream_run i xs (ring_step x g) = (rest', g')" "rest = taken i x g @ rest'"
    using Cons.prems(4) by (auto split: prod.splits)
  have "stream_state i p (got @ taken i x g) (ring_step x g)"
    using Cons.prems by (intro stream_state_step) auto
  with Cons.IH [OF ring_inv_step [OF Cons.prems(1)] this _ rest(1)] Cons.prems(3)
  show ?case by (simp add: rest(2))
qed

section \<open>The ring as a bounded history\<close>

interpretation ring_log: history_buffer msgs publish new_message max_events
proof unfold_locales
  fix p :: publication and g :: ring
  let ?g = "g\<lparr>last_seq := Suc (last_seq g), msgs := msgs g @ [new_message p g]\<rparr>"
  show "suffix (msgs (publish p g)) (msgs g @ [new_message p g])"
    using suffix_prune [of "p_now p" ?g] by (simp add: publish_def Let_def)
  show "length (msgs (publish p g)) \<le> max_events g"
    using length_prune [of "p_now p" ?g] by (simp add: publish_def Let_def)
  show "max_events (publish p g) = max_events g"
    by (simp add: publish_def Let_def)
qed

section \<open>What the ring holds\<close>

text \<open>The moment at which an operation prunes, the messages a run publishes, and the last prune.\<close>

fun prune_time :: "ring_op \<Rightarrow> ring \<Rightarrow> int option" where
  "prune_time (Publish p) g = Some (p_now p)"
| "prune_time (Attach s lid h now) g = (case attach s lid h now g of Inl e \<Rightarrow> None | Inr r \<Rightarrow> Some now)"
| "prune_time _ g = None"

fun published_by :: "ring_op \<Rightarrow> ring \<Rightarrow> message list" where
  "published_by (Publish p) g = [new_message p g]"
| "published_by _ g = []"

fun published :: "ring_op list \<Rightarrow> ring \<Rightarrow> message list" where
  "published [] g = []"
| "published (x # xs) g = published_by x g @ published xs (ring_step x g)"

definition later_prune :: "int \<Rightarrow> ring_op \<Rightarrow> ring \<Rightarrow> int" where
  "later_prune t x g = (case prune_time x g of None \<Rightarrow> t | Some now \<Rightarrow> now)"

fun last_prune :: "int \<Rightarrow> ring_op list \<Rightarrow> ring \<Rightarrow> int" where
  "last_prune t [] g = t"
| "last_prune t (x # xs) g = last_prune (later_prune t x g) xs (ring_step x g)"

fun prunes_ordered :: "int \<Rightarrow> ring_op list \<Rightarrow> ring \<Rightarrow> bool" where
  "prunes_ordered t [] g = True"
| "prunes_ordered t (x # xs) g =
     (t \<le> later_prune t x g \<and> prunes_ordered (later_prune t x g) xs (ring_step x g))"

fun keeps_history :: "ring_op \<Rightarrow> bool" where
  "keeps_history ForceGap = False"
| "keeps_history (Restart b) = False"
| "keeps_history x = True"

definition newest :: "nat \<Rightarrow> int \<Rightarrow> message list \<Rightarrow> message list" where
  "newest n cutoff xs = filter (\<lambda>m. cutoff \<le> msg_at m) (drop (length xs - n) xs)"

lemma dropWhile_sorted:
  "sorted (map f xs) \<Longrightarrow> dropWhile (\<lambda>x. f x < c) xs = filter (\<lambda>x. c \<le> f x) xs"
  for f :: "'a \<Rightarrow> int"
proof (induction xs)
  case (Cons x xs)
  then show ?case by (auto intro!: filter_True [symmetric])
qed simp

lemma sorted_drop_map: "sorted (map f xs) \<Longrightarrow> sorted (map f (drop n xs))"
  by (metis drop_map sorted_wrt_drop)

lemma sorted_filter_map: "sorted (map f xs) \<Longrightarrow> sorted (map f (filter P xs))"
  by (rule sorted_filter)

lemma newest_snoc:
  fixes t u :: int
  assumes "t \<le> u" and "length d \<le> n" and "sorted (map msg_at d)"
  shows "filter (\<lambda>m. u \<le> msg_at m) (drop (Suc (length (filter (\<lambda>m. t \<le> msg_at m) d)) - n)
             (filter (\<lambda>m. t \<le> msg_at m) d @ [m])) =
         filter (\<lambda>m. u \<le> msg_at m) (drop (Suc (length d) - n) (d @ [m]))"
proof -
  let ?f = "filter (\<lambda>m. t \<le> msg_at m) d"
  have shrink: "filter (\<lambda>m. u \<le> msg_at m) (filter (\<lambda>m. t \<le> msg_at m) xs) = filter (\<lambda>m. u \<le> msg_at m) xs" for xs
    unfolding filter_filter using assms(1) by (intro filter_cong) auto
  consider "length d < n" | "?f = d" | "length d = n" "length ?f < n" "?f \<noteq> d"
    using assms(2) by (metis filter_True length_filter_less le_neq_implies_less)
  then show ?thesis
  proof cases
    case 1
    then have "length ?f < n" by (metis length_filter_le le_less_trans)
    with 1 show ?thesis using shrink [of d] by simp
  next
    case 3
    then obtain x d' where d: "d = x # d'" by (cases d) auto
    have "\<not> t \<le> msg_at x"
    proof
      assume "t \<le> msg_at x"
      with assms(3) d have "\<forall>y \<in> set d. t \<le> msg_at y" by (auto intro: order_trans)
      with 3(3) show False by (simp add: filter_id_conv)
    qed
    with d 3 show ?thesis using shrink [of d'] by simp
  qed simp
qed

definition holds_newest :: "message list \<Rightarrow> int \<Rightarrow> ring \<Rightarrow> bool" where
  "holds_newest h t g \<longleftrightarrow> msgs g = newest (max_events g) (t - max_age g) h \<and>
     sorted (map msg_at h) \<and> (\<forall>m \<in> set h. msg_at m \<le> t)"

lemma prune_msgs:
  "sorted (map msg_at (msgs g)) \<Longrightarrow>
   msgs (prune now g) = newest (max_events g) (now - max_age g) (msgs g)"
  by (simp add: prune_def newest_def dropWhile_sorted sorted_drop_map not_less [symmetric])

lemma length_newest: "length (newest n c xs) \<le> n"
  unfolding newest_def by (rule order_trans [OF length_filter_le]) simp

lemma sorted_newest: "sorted (map msg_at xs) \<Longrightarrow> sorted (map msg_at (newest n c xs))"
  by (simp add: newest_def sorted_drop_map sorted_filter_map)

lemma newest_newest: "t \<le> u \<Longrightarrow> newest n (u - a) (newest n (t - a) h) = newest n (u - a) h"
  using length_newest [of n "t - a" h]
  by (auto simp: newest_def intro!: filter_cong)

lemma newest_add:
  assumes "t \<le> u" and "sorted (map msg_at h)"
  shows "newest n (u - a) (newest n (t - a) h @ [m]) = newest n (u - a) (h @ [m])"
proof -
  let ?d = "drop (length h - n) h"
  have "drop (Suc (length h) - n) (h @ [m]) = drop (Suc (length ?d) - n) (drop (length h - n) (h @ [m]))"
    unfolding drop_drop by (rule arg_cong [where f = "\<lambda>k. drop k (h @ [m])"]) auto
  then have "drop (Suc (length h) - n) (h @ [m]) = drop (Suc (length ?d) - n) (?d @ [m])"
    by simp
  moreover have "newest n (u - a) (newest n (t - a) h @ [m]) =
      filter (\<lambda>m. u - a \<le> msg_at m) (drop (Suc (length ?d) - n) (?d @ [m]))"
    unfolding newest_def length_append_singleton
    by (rule newest_snoc) (use assms in \<open>simp_all add: sorted_drop_map\<close>)
  ultimately show ?thesis by (simp add: newest_def)
qed

lemma prune_max_age [simp]: "max_age (prune now g) = max_age g"
  by (simp add: prune_def)

lemma max_fields_step [simp]:
  "max_events (ring_step x g) = max_events g" "max_age (ring_step x g) = max_age g"
  by (cases x; auto simp: publish_def Let_def attach_def receive_def detach_def drop_streams_def on_readers_def
      force_overflow_def force_gap_def restart_def split: sum.splits option.splits list.splits prod.splits if_splits)+

lemma holds_newest_publish:
  assumes "holds_newest h t g" and "t \<le> p_now p"
  shows "holds_newest (h @ [new_message p g]) (p_now p) (publish p g)"
proof -
  let ?g = "g\<lparr>last_seq := Suc (last_seq g), msgs := msgs g @ [new_message p g]\<rparr>"
  have m: "msg_at (new_message p g) = p_now p" by (simp add: new_message_def)
  have s: "sorted (map msg_at (h @ [new_message p g]))" and b: "\<forall>k \<in> set h. msg_at k \<le> p_now p"
    using assms by (auto simp: holds_newest_def m sorted_append)
  then have "sorted (map msg_at (msgs ?g))"
    using assms sorted_newest [of h] by (auto simp: holds_newest_def m sorted_append newest_def dest: in_set_dropD)
  then have "msgs (publish p g) = newest (max_events g) (p_now p - max_age g) (msgs g @ [new_message p g])"
    using prune_msgs [of ?g "p_now p"] by (simp add: publish_def Let_def)
  with assms s b show ?thesis
    by (simp add: holds_newest_def newest_add m)
      (simp add: publish_def Let_def)
qed

lemma holds_newest_attach:
  assumes "holds_newest h t g" and "t \<le> now" and "attach s lid r now g = Inr (i, res, g')"
  shows "holds_newest h now g'"
proof -
  obtain rds n where g': "g' = prune now (g\<lparr>readers := rds, next_reader := n\<rparr>)"
    using assms(3) by (auto simp: attach_def Let_def split: if_splits prod.splits)
  have "sorted (map msg_at (msgs g))"
    using assms(1) sorted_newest by (simp add: holds_newest_def)
  then have "msgs g' = newest (max_events g) (now - max_age g) (msgs g)"
    using prune_msgs [of "g\<lparr>readers := rds, next_reader := n\<rparr>" now] by (simp add: g')
  with assms(1,2) show ?thesis
    by (auto simp: holds_newest_def newest_newest g')
qed

lemma holds_newest_step:
  assumes "holds_newest h t g" and "keeps_history x" and "t \<le> later_prune t x g"
  shows "holds_newest (h @ published_by x g) (later_prune t x g) (ring_step x g)"
proof (cases x)
  case (Attach s lid r now)
  with assms show ?thesis
    by (auto simp: later_prune_def intro: holds_newest_attach split: sum.splits)
next
  case (Receive i)
  with assms show ?thesis
    by (auto simp: later_prune_def holds_newest_def receive_def split: option.splits list.splits)
next
  case (Publish p)
  with assms show ?thesis
    by (simp add: later_prune_def holds_newest_publish)
qed (use assms in \<open>auto simp: later_prune_def holds_newest_def detach_def drop_streams_def
    force_overflow_def on_readers_def\<close>)

lemma holds_newest_run:
  "holds_newest h t g \<Longrightarrow> \<forall>x \<in> set xs. keeps_history x \<Longrightarrow> prunes_ordered t xs g \<Longrightarrow>
   holds_newest (h @ published xs g) (last_prune t xs g) (fold ring_step xs g)"
proof (induction xs arbitrary: h t g)
  case (Cons x xs)
  then have "holds_newest (h @ published_by x g) (later_prune t x g) (ring_step x g)"
    by (intro holds_newest_step) auto
  from Cons.IH [OF this] Cons.prems show ?case by simp
qed simp

lemma max_fields_run [simp]:
  "max_events (fold ring_step xs g) = max_events g" "max_age (fold ring_step xs g) = max_age g"
  by (induction xs arbitrary: g) auto

section \<open>Properties\<close>

text \<open>C5. Whatever is published, attached, dropped or restarted: the messages the ring holds carry
  consecutive numbers ending at the last one assigned, no queue exceeds its depth, and the stream
  limits per subject and in total are never exceeded.\<close>

theorem ring_invariant: "ring_reachable g \<Longrightarrow> ring_inv g"
  by (rule ring_inv_reachable)

text \<open>Whatever the ages, the ring only ever forgets from the old end of its history.\<close>

lemma ring_forgets_oldest: "suffix (msgs (fold publish ps g)) (msgs g @ run_log publish new_message ps g)"
  using ring_log.held_are_latest [of ps g] by (metis suffix_drop)

text \<open>C6. The ring holds exactly what its two bounds allow: along any run of publications, attached,
  served and detached streams on a ring that was empty at first, whose clock does not run back, the
  messages held are those among the last \<open>maxEvents\<close> published ones that were no older than
  \<open>maxAge\<close> when the ring last pruned (at a publication or a successful attach), in order and as they
  were published. Nothing is forgotten earlier, nothing is kept longer.\<close>

theorem ring_keeps_newest:
  assumes "msgs g = []" and "\<forall>x \<in> set xs. keeps_history x" and "prunes_ordered t xs g"
  shows "msgs (fold ring_step xs g) =
    newest (max_events g) (last_prune t xs g - max_age g) (published xs g)"
  using holds_newest_run [of "[]" t g xs] assms by (simp add: holds_newest_def newest_def)

text \<open>C7. The resume rule never skips a message silently: from position \<open>n\<close> of this boot a client gets
  nothing when it is up to date, exactly the messages \<open>n + 1\<close> to the newest when the ring still holds
  them all, and \<open>resync{gap}\<close> otherwise; another boot's id gives \<open>resync{boot}\<close>.\<close>

theorem resume_complete:
  assumes "ring_reachable g" and "CHR ''-'' \<notin> set b" and "n < 2 ^ 64"
    and "resume (b @ CHR ''-'' # digits_of n) g = (replay, reason)"
  shows "(b \<noteq> boot_id g \<and> replay = [] \<and> reason = resync_boot) \<or>
         (b = boot_id g \<and> last_seq g \<le> n \<and> replay = [] \<and> reason = []) \<or>
         (b = boot_id g \<and> n < last_seq g \<and> reason = [] \<and> set replay \<subseteq> set (msgs g) \<and>
            map msg_seq replay = [Suc n ..< Suc (last_seq g)]) \<or>
         (b = boot_id g \<and> n < last_seq g \<and> replay = [] \<and> reason = resync_gap \<and>
            length (msgs g) < last_seq g - n)"
proof -
  have ok: "seqs_ok (last_seq g) (msgs g)"
    using ring_inv_reachable [OF assms(1)] by (simp add: ring_inv_def)
  show ?thesis
    using assms(4) replay_seqs [OF ok, of n]
    unfolding resume_cases [OF ok assms(2,3)]
    by (auto split: if_splits simp del: upt_Suc)
qed

text \<open>C8. A stream sees every message exactly once and in order: the replay it was attached with,
  then what it has taken off its queue, then what still waits there, carry consecutive numbers from
  the resume position to the newest message, as long as it lost none and the ring did not restart.\<close>

theorem stream_exactly_once:
  assumes "ring_reachable g" and "n \<le> last_seq g" and "n < 2 ^ 64"
    and "attach s (boot_id g @ CHR ''-'' # digits_of n) True now g = Inr (i, res, g1)"
    and "ar_resync res = []"
    and "\<forall>x \<in> set xs. keeps_stream i x" and "stream_run i xs g1 = (got, g2)"
    and "map_of (readers g2) i = Some rd" and "dropped rd = 0"
  shows "map msg_seq (ar_replay res @ got @ queue rd) = [Suc n ..< Suc (last_seq g2)]"
proof -
  let ?g = "prune now (g\<lparr>readers := AList.update (next_reader g)
      \<lparr>subject = s, queue = [], dropped = 0, killed = False\<rparr> (readers g), next_reader := Suc (next_reader g)\<rparr>)"
  have inv: "ring_inv g" by (rule ring_inv_reachable) fact
  have inv1: "ring_inv g1" using ring_inv_attach [OF inv assms(4)] .
  have g1: "g1 = ?g" and i: "i = next_reader g" and last: "last_seq g1 = last_seq g"
    and rep: "resume (boot_id g1 @ CHR ''-'' # digits_of n) g1 = (ar_replay res, [])"
    using assms(4,5) by (auto simp: attach_def Let_def split: if_splits prod.splits)
  have "stream_state i (last_seq g1) [] g1"
    by (simp add: stream_state_def g1 i)
  with inv1 have st: "stream_state i (last_seq g1) got g2"
    using stream_run_state [of g1 i "last_seq g1" "[]" xs got g2] assms(6,7) by simp
  have ok: "seqs_ok (last_seq g1) (msgs g1)" and plain: "CHR ''-'' \<notin> set (boot_id g1)"
    using inv1 by (simp_all add: ring_inv_def)
  have "map msg_seq (ar_replay res) = [Suc n ..< Suc (last_seq g1)]"
    using rep assms(2) last replay_seqs [OF ok, of n]
    unfolding resume_cases [OF ok plain assms(3)]
    by (auto simp: resync_gap_def split: if_splits simp del: upt_Suc)
  moreover have "map msg_seq (got @ queue rd) = [Suc (last_seq g1) ..< Suc (last_seq g2)]"
    and "last_seq g1 \<le> last_seq g2"
    using st assms(8,9) by (auto simp: stream_state_def simp del: upt_Suc)
  ultimately show ?thesis
    using upt_add_eq_append [of "Suc n" "Suc (last_seq g1)" "last_seq g2 - last_seq g1"] assms(2) last
    by (simp del: upt_Suc)
qed

section \<open>Witnesses\<close>

definition demo_pub :: publication where
  "demo_pub = \<lparr>p_typ = type_event, p_iface = ''HmIP-RF'', p_address = ''VCU1:1'', p_key = ''STATE'',
     p_build = (\<lambda>n. ''data''), p_now = 0\<rparr>"

definition demo_ring :: ring where
  "demo_ring = ring_step (Publish demo_pub) (ring_step (Publish demo_pub)
     (new_ring (new_boot_id (Some [])) 10 100 4 2 16))"

lemma demo_ring_reachable: "ring_reachable demo_ring"
  unfolding demo_ring_def by (intro ring_reachable.step ring_reachable.start)

lemmas demo_ring_defs = demo_ring_def demo_pub_def new_ring_def new_boot_id_def publish_def
  prune_def new_message_def Let_def

theorem ring_invariant_witness: "ring_inv demo_ring"
  by (rule ring_invariant [OF demo_ring_reachable])

text \<open>Three publications at 0, 10 and 200 with room for two messages and an age bound of 195.\<close>

definition demo_run :: "ring_op list" where
  "demo_run = [Publish demo_pub, Publish (demo_pub\<lparr>p_now := 10\<rparr>), Publish (demo_pub\<lparr>p_now := 200\<rparr>)]"

theorem ring_keeps_newest_witness:
  "map msg_seq (msgs (fold ring_step demo_run (new_ring [] 2 195 4 2 16))) = [2, 3] \<and>
   map msg_seq (msgs (fold ring_step demo_run (new_ring [] 2 100 4 2 16))) = [3]"
proof -
  have k: "\<forall>x \<in> set demo_run. keeps_history x" by (simp add: demo_run_def)
  have "msgs (fold ring_step demo_run (new_ring [] 2 a 4 2 16)) =
      newest 2 (200 - a) (published demo_run (new_ring [] 2 a 4 2 16))" for a
    using ring_keeps_newest [OF _ k, of "new_ring [] 2 a 4 2 16" 0]
    by (simp add: demo_run_def demo_pub_def new_ring_def later_prune_def)
  moreover have "last_seq (publish p g) = Suc (last_seq g)" for p g by (simp add: publish_def Let_def)
  ultimately show ?thesis
    by (simp add: newest_def demo_run_def demo_pub_def new_message_def new_ring_def)
qed

theorem resume_complete_witness:
  "map msg_seq (fst (resume (''-'' @ digits_of 1) demo_ring)) = [2 ..< 3]"
proof -
  have b: "boot_id demo_ring = []" and l: "last_seq demo_ring = 2" and h: "length (msgs demo_ring) = 2"
    by (simp_all add: demo_ring_defs)
  have r: "resume ([] @ CHR ''-'' # digits_of 1) demo_ring =
      (fst (resume (''-'' @ digits_of 1) demo_ring), snd (resume (''-'' @ digits_of 1) demo_ring))"
    by simp
  from resume_complete [OF demo_ring_reachable _ _ r] show ?thesis
    by (auto simp: b l h upt_rec)
qed

theorem stream_exactly_once_witness:
  "\<exists>i res g1 g2 rd got.
     attach ''token:a'' (boot_id demo_ring @ ''-'' @ digits_of 1) True 0 demo_ring = Inr (i, res, g1) \<and>
     stream_run i [Publish demo_pub, Receive i, Publish demo_pub] g1 = (got, g2) \<and>
     map_of (readers g2) i = Some rd \<and>
     map msg_seq (ar_replay res @ got @ queue rd) = [2, 3, 4]"
proof -
  let ?a = "attach ''token:a'' (boot_id demo_ring @ CHR ''-'' # digits_of 1) True 0 demo_ring"
  obtain i res g1 where a: "?a = Inr (i, res, g1)"
    and res: "ar_resync res = []" and i: "i = 0" and g1: "g1 = demo_ring\<lparr>readers := [(0,
      \<lparr>subject = ''token:a'', queue = [], dropped = 0, killed = False\<rparr>)], next_reader := 1\<rparr>"
    by (simp add: demo_ring_defs attach_def same_subject_def resume_def digits_of.simps digit_char_def
        parse_uint_def digit_val_def)
  let ?xs = "[Publish demo_pub, Receive i, Publish demo_pub]"
  obtain got g2 where run: "stream_run i ?xs g1 = (got, g2)" by (cases "stream_run i ?xs g1")
  then obtain rd where rd: "map_of (readers g2) i = Some rd" and d: "dropped rd = 0"
    and l: "last_seq g2 = 4"
    by (auto simp: g1 i demo_ring_defs receive_def offer_def)
  have b: "boot_id demo_ring = []" and ls: "last_seq demo_ring = 2" by (simp_all add: demo_ring_defs)
  have "map msg_seq (ar_replay res @ got @ queue rd) = [Suc 1 ..< Suc (last_seq g2)]"
    by (rule stream_exactly_once [OF demo_ring_reachable _ _ a res _ run rd d]) (simp_all add: ls)
  also have "\<dots> = [2, 3, 4]" by (simp add: l upt_rec)
  finally show ?thesis using a rd run
    by (intro exI [of _ i] exI [of _ res] exI [of _ g1] exI [of _ g2] exI [of _ rd] exI [of _ got]) simp
qed

end
