(* ===== verification/Logs.thy ===== *)
theory Logs
  imports Prelude
begin

text \<open>
  \<^verbatim>\<open>internal/ccu/logs.go\<close>: the bounded introspection logs. A log holds pointers to its entries,
  because a callback entry is added before the call and completed after it; so the model has a
  store of entry cells, addressed by a counter, and the list of addresses the log holds. Calls
  overlap freely: starting and finishing a call are two steps.
\<close>

section \<open>The bounded log\<close>

definition log_capacity :: nat where "log_capacity = 10000"

record 'a bounded_log =
  cells :: "nat \<Rightarrow> 'a"
  held :: "nat list"
  next_cell :: nat

definition log_add :: "'a \<Rightarrow> 'a bounded_log \<Rightarrow> 'a bounded_log" where
  "log_add e l =
     (let es = held l @ [next_cell l]
      in l\<lparr>cells := (cells l)(next_cell l := e), held := drop (length es - log_capacity) es,
           next_cell := Suc (next_cell l)\<rparr>)"

definition log_update :: "nat \<Rightarrow> ('a \<Rightarrow> 'a) \<Rightarrow> 'a bounded_log \<Rightarrow> 'a bounded_log" where
  "log_update i f l = l\<lparr>cells := (cells l)(i := f (cells l i))\<rparr>"

definition log_snapshot :: "'a bounded_log \<Rightarrow> 'a list" where
  "log_snapshot l = map (cells l) (held l)"

definition log_clear :: "'a bounded_log \<Rightarrow> 'a bounded_log" where
  "log_clear l = l\<lparr>held := []\<rparr>"

definition empty_log :: "'a \<Rightarrow> 'a bounded_log" where
  "empty_log z = \<lparr>cells = (\<lambda>_. z), held = [], next_cell = 0\<rparr>"

section \<open>The callback log\<close>

record callback_entry =
  cb_interface :: string
  cb_url :: string
  cb_method :: string
  cb_sent :: int
  cb_answered :: "int option"
  cb_error :: string

text \<open>\<open>loggedRemote.Call\<close> before and after the inner call.\<close>

definition call_start :: "string \<Rightarrow> string \<Rightarrow> string \<Rightarrow> int \<Rightarrow> callback_entry bounded_log \<Rightarrow> callback_entry bounded_log" where
  "call_start iface url meth now l =
     log_add \<lparr>cb_interface = iface, cb_url = url, cb_method = meth, cb_sent = now,
       cb_answered = None, cb_error = []\<rparr> l"

definition finish_entry :: "string option \<Rightarrow> int \<Rightarrow> callback_entry \<Rightarrow> callback_entry" where
  "finish_entry err now e =
     (case err of Some t \<Rightarrow> e\<lparr>cb_error := t\<rparr> | None \<Rightarrow> e\<lparr>cb_answered := Some now\<rparr>)"

definition call_end :: "nat \<Rightarrow> string option \<Rightarrow> int \<Rightarrow> callback_entry bounded_log \<Rightarrow> callback_entry bounded_log" where
  "call_end i err now l = log_update i (finish_entry err now) l"

section \<open>The write log\<close>

record 'v rejected_parameter =
  rp_name :: string
  rp_value :: 'v
  rp_reason :: string

record 'v write_entry =
  we_time :: int
  we_interface :: string
  we_method :: string
  we_address :: string
  we_paramset :: string
  we_values :: "(string, 'v) gomap"
  we_rejected :: "'v rejected_parameter list"
  we_error :: string

definition record_write ::
  "string \<Rightarrow> int \<Rightarrow> string \<Rightarrow> string \<Rightarrow> string \<Rightarrow> (string, 'v) gomap \<Rightarrow> 'v rejected_parameter list \<Rightarrow>
   string option \<Rightarrow> 'v write_entry bounded_log \<Rightarrow> 'v write_entry bounded_log" where
  "record_write iface now meth address pset vals rejected err l =
     log_add \<lparr>we_time = now, we_interface = iface, we_method = meth, we_address = address,
       we_paramset = pset, we_values = vals, we_rejected = rejected,
       we_error = (case err of None \<Rightarrow> [] | Some t \<Rightarrow> t)\<rparr> l"

section \<open>A log is a bounded history\<close>

interpretation log_history: history_buffer held log_add "\<lambda>e l. next_cell l" "\<lambda>l. log_capacity"
proof unfold_locales
  show "suffix (held (log_add x s)) (held s @ [next_cell s])" for x :: 'a and s
    by (simp add: log_add_def Let_def suffix_drop del: drop_append suffix_snoc)
  show "length (held (log_add x s)) \<le> log_capacity" for x :: 'a and s
    unfolding log_add_def Let_def by simp
qed simp

section \<open>What the log should show\<close>

text \<open>
  The specification keeps every call ever started, in order, and the point of the last clear. It
  shows the newest \<open>logCapacity\<close> of the calls started since.
\<close>

datatype callback_op =
    CallStart string string string int
  | CallEnd nat "string option" int
  | ClearLog

fun log_step :: "callback_op \<Rightarrow> callback_entry bounded_log \<Rightarrow> callback_entry bounded_log" where
  "log_step (CallStart iface url meth now) l = call_start iface url meth now l"
| "log_step (CallEnd i err now) l = (if i < next_cell l then call_end i err now l else l)"
| "log_step ClearLog l = log_clear l"

fun history_step :: "callback_op \<Rightarrow> callback_entry list \<times> nat \<Rightarrow> callback_entry list \<times> nat" where
  "history_step (CallStart iface url meth now) (cs, base) =
     (cs @ [\<lparr>cb_interface = iface, cb_url = url, cb_method = meth, cb_sent = now,
             cb_answered = None, cb_error = []\<rparr>], base)"
| "history_step (CallEnd i err now) (cs, base) =
     (if i < length cs then cs[i := finish_entry err now (cs ! i)] else cs, base)"
| "history_step ClearLog (cs, base) = (cs, length cs)"

definition newest_calls :: "callback_entry list \<times> nat \<Rightarrow> callback_entry list" where
  "newest_calls h = drop (max (snd h) (length (fst h) - log_capacity)) (fst h)"

definition log_abs :: "callback_entry bounded_log \<Rightarrow> callback_entry list \<times> nat \<Rightarrow> bool" where
  "log_abs l h \<longleftrightarrow> (case h of (cs, base) \<Rightarrow>
     length cs = next_cell l \<and> base \<le> length cs \<and> (\<forall>i < length cs. cells l i = cs ! i) \<and>
     held l = [max base (length cs - log_capacity) ..< length cs])"

lemma log_abs_snapshot: "log_abs l h \<Longrightarrow> log_snapshot l = newest_calls h"
proof -
  assume abs: "log_abs l h"
  obtain cs base where h: "h = (cs, base)" by (cases h)
  let ?k = "max base (length cs - log_capacity)"
  have "map (cells l) [?k ..< length cs] = map ((!) cs) [?k ..< length cs]"
    using abs by (intro map_cong) (simp_all add: log_abs_def h)
  also have "\<dots> = drop ?k cs"
    by (rule nth_equalityI) simp_all
  finally show ?thesis
    using abs by (simp add: log_abs_def h log_snapshot_def newest_calls_def)
qed

lemma window_snoc:
  "b \<le> n \<Longrightarrow> (let es = [max b (n - c) ..< n] @ [n] in drop (length es - c) es) = [max b (Suc n - c) ..< Suc n]"
proof -
  assume "b \<le> n"
  then have "[max b (n - c) ..< n] @ [n] = [max b (n - c) ..< Suc n]" by simp
  moreover have "max b (n - c) + (Suc n - max b (n - c) - c) = max b (Suc n - c)"
    using \<open>b \<le> n\<close> by linarith
  ultimately show ?thesis by (simp add: Let_def del: upt_Suc)
qed

lemma log_abs_step: "log_abs l h \<Longrightarrow> log_abs (log_step x l) (history_step x h)"
proof -
  assume abs: "log_abs l h"
  obtain cs base where h: "h = (cs, base)" by (cases h)
  from abs have len: "next_cell l = length cs" and base: "base \<le> length cs"
    and at: "\<And>i. i < length cs \<Longrightarrow> cells l i = cs ! i"
    and hd: "held l = [max base (length cs - log_capacity) ..< length cs]"
    by (auto simp: log_abs_def h)
  show ?thesis
  proof (cases x)
    case (CallStart iface url meth now)
    let ?e = "\<lparr>cb_interface = iface, cb_url = url, cb_method = meth, cb_sent = now,
      cb_answered = None, cb_error = []\<rparr>"
    have step: "log_step x l = l\<lparr>cells := (cells l)(length cs := ?e),
        held := [max base (Suc (length cs) - log_capacity) ..< Suc (length cs)],
        next_cell := Suc (length cs)\<rparr>"
      unfolding CallStart log_step.simps call_start_def log_add_def Let_def len hd
      by (simp only: window_snoc [OF base, of log_capacity, unfolded Let_def])
    have "i < Suc (length cs) \<Longrightarrow> ((cells l)(length cs := ?e)) i = (cs @ [?e]) ! i" for i
      using at [of i] by (cases "i = length cs") (auto simp: nth_append)
    then show ?thesis
      unfolding step using base by (simp add: CallStart h log_abs_def del: upt_Suc)
  next
    case (CallEnd i err now)
    show ?thesis
      using base by (simp add: CallEnd h log_abs_def call_end_def log_update_def len hd at nth_list_update)
  next
    case ClearLog
    show ?thesis
      by (simp add: ClearLog h log_abs_def log_clear_def len at)
  qed
qed

lemma log_abs_run: "log_abs l h \<Longrightarrow> log_abs (fold log_step xs l) (fold history_step xs h)"
proof (induction xs arbitrary: l h)
  case (Cons x xs)
  from Cons.IH [OF log_abs_step [OF Cons.prems]] show ?case by simp
qed simp

section \<open>Properties\<close>

text \<open>C9. However calls to clients overlap, finish late or fail, and whenever the log is cleared, it
  shows exactly the newest 10000 calls started since the last clear, oldest first, each completed by
  its own outcome and by no other call's: the log refines the unbounded history of all calls.\<close>

theorem callback_log_refines_history:
  "log_snapshot (fold log_step xs (empty_log z)) = newest_calls (fold history_step xs ([], 0))"
  by (rule log_abs_snapshot, rule log_abs_run) (simp add: log_abs_def empty_log_def)

end
