(* ===== verification/Fault_Injection.thy ===== *)
theory Fault_Injection
  imports Prelude
begin

text \<open>
  \<^verbatim>\<open>internal/ccu/faultinject.go\<close>: the rules that make the next calls of a server misbehave, and
  \<open>intercept\<close>, which applies them. Rules are pointers in the source, but only the injector holds
  them, so they are values here. The release channel is a flag (a call may be waiting on it) and a
  count of the times it was closed; which event a waiting call sees first is an argument.
\<close>

section \<open>Rules\<close>

datatype fault = Fault int string

record fault_rule =
  r_method :: string
  times :: int
  r_fault :: "fault option"
  delay :: int
  hang :: bool
  close_connection :: bool

record injector =
  rules :: "fault_rule list"
  release_open :: bool
  releases :: nat

definition new_injector :: injector where
  "new_injector = \<lparr>rules = [], release_open = False, releases = 0\<rparr>"

definition inject_fault :: "fault_rule \<Rightarrow> injector \<Rightarrow> injector" where
  "inject_fault rule f =
     (let rule1 = (if r_method rule = [] then rule\<lparr>r_method := ''*''\<rparr> else rule);
          rule2 = (if times rule1 = 0 then rule1\<lparr>times := 1\<rparr> else rule1)
      in f\<lparr>rules := rules f @ [rule2]\<rparr>)"

definition release_held_calls :: "injector \<Rightarrow> injector" where
  "release_held_calls f =
     (if release_open f then f\<lparr>release_open := False, releases := Suc (releases f)\<rparr> else f)"

definition clear_faults :: "injector \<Rightarrow> injector" where
  "clear_faults f = release_held_calls (f\<lparr>rules := []\<rparr>)"

definition rule_matches :: "string \<Rightarrow> fault_rule \<Rightarrow> bool" where
  "rule_matches meth r \<longleftrightarrow> r_method r = ''*'' \<or> r_method r = meth"

text \<open>The loop of \<open>take\<close>: the rule taken, as it was, and the rules left.\<close>

fun take_rule :: "string \<Rightarrow> fault_rule list \<Rightarrow> fault_rule option \<times> fault_rule list" where
  "take_rule meth [] = (None, [])"
| "take_rule meth (r # rs) =
     (if \<not> rule_matches meth r then (case take_rule meth rs of (t, rs') \<Rightarrow> (t, r # rs'))
      else (Some r,
            if 0 < times r
            then (if times r - 1 = 0 then rs else r\<lparr>times := times r - 1\<rparr> # rs)
            else r # rs))"

definition take_fault :: "string \<Rightarrow> injector \<Rightarrow> fault_rule option \<times> injector" where
  "take_fault meth f =
     (case take_rule meth (rules f) of
        (None, rs) \<Rightarrow> (None, f)
      | (Some r, rs) \<Rightarrow> (Some r, f\<lparr>rules := rs, release_open := True\<rparr>))"

section \<open>Interception\<close>

datatype wake = Timer | ClientGone | Released
datatype intercepted = DropConnection | AnswerFault fault

text \<open>
  What happens to the call: \<open>None\<close> lets it be dispatched. \<open>w\<close> is the event that ends the delay;
  a hanging call ends with a closed connection whichever event ends it.
\<close>

definition rule_outcome :: "fault_rule \<Rightarrow> wake \<Rightarrow> intercepted option" where
  "rule_outcome r w =
     (if 0 < delay r \<and> w \<noteq> Timer then Some DropConnection
      else if hang r then Some DropConnection
      else if close_connection r then Some DropConnection
      else map_option AnswerFault (r_fault r))"

definition intercept :: "string \<Rightarrow> wake \<Rightarrow> injector \<Rightarrow> intercepted option \<times> injector" where
  "intercept meth w f =
     (case take_fault meth f of
        (None, f') \<Rightarrow> (None, f')
      | (Some r, f') \<Rightarrow> (rule_outcome r w, f'))"

section \<open>A series of calls\<close>

fun calls_run :: "(string \<times> wake) list \<Rightarrow> injector \<Rightarrow> intercepted option list \<times> injector" where
  "calls_run [] f = ([], f)"
| "calls_run ((meth, w) # cs) f =
     (case intercept meth w f of (out, f1) \<Rightarrow> (case calls_run cs f1 of (outs, f2) \<Rightarrow> (out # outs, f2)))"

text \<open>
  The specification serves one rule after the other instead of one call after the other: the first
  rule takes the first calls that match it, as many as it may (all of them for a negative number),
  the next rule takes what is left, and so on.
\<close>

type_synonym labelled = "(string \<times> wake) \<times> fault_rule option"

fun serve_rule :: "fault_rule \<Rightarrow> labelled list \<Rightarrow> labelled list" where
  "serve_rule r [] = []"
| "serve_rule r ((c, l) # cs) =
     (if l = None \<and> times r \<noteq> 0 \<and> rule_matches (fst c) r
      then (c, Some r) # serve_rule (r\<lparr>times := (if 0 < times r then times r - 1 else times r)\<rparr>) cs
      else (c, l) # serve_rule r cs)"

fun label_outcome :: "labelled \<Rightarrow> intercepted option" where
  "label_outcome (c, None) = None"
| "label_outcome (c, Some r) = rule_outcome r (snd c)"

definition served :: "fault_rule list \<Rightarrow> (string \<times> wake) list \<Rightarrow> labelled list" where
  "served rs cs = fold serve_rule rs (map (\<lambda>c. (c, None)) cs)"

definition rules_ok :: "injector \<Rightarrow> bool" where
  "rules_ok f \<longleftrightarrow> (\<forall>r \<in> set (rules f). times r \<noteq> 0 \<and> r_method r \<noteq> [])"

lemma serve_spent [simp]: "times r = 0 \<Longrightarrow> serve_rule r cs = cs"
  by (induction cs) auto

lemma fold_serve_labelled:
  "fold serve_rule rs ((c, Some r) # cs) = (c, Some r) # fold serve_rule rs cs"
  by (induction rs arbitrary: cs) auto

lemma served_Nil [simp]: "served rs [] = []"
  unfolding served_def by (induction rs) auto

lemma fold_serve_Cons:
  "\<forall>r \<in> set rs. times r \<noteq> 0 \<Longrightarrow> fold serve_rule rs ((c, None) # cs) =
     (case take_rule (fst c) rs of
        (t, rs') \<Rightarrow> (c, t) # fold serve_rule rs' cs)"
proof (induction rs arbitrary: cs)
  case Nil
  then show ?case by simp
next
  case (Cons r rs)
  show ?case
  proof (cases "rule_matches (fst c) r")
    case False
    with Cons show ?thesis by (auto split: prod.splits)
  next
    case True
    with Cons.prems show ?thesis
      by (auto simp: fold_serve_labelled)
  qed
qed

lemma take_rule_times: "\<forall>r \<in> set rs. times r \<noteq> 0 \<Longrightarrow> take_rule m rs = (t, rs') \<Longrightarrow> \<forall>r \<in> set rs'. times r \<noteq> 0"
  by (induction rs arbitrary: rs') (auto split: if_splits prod.splits)

lemma take_rule_none: "take_rule m rs = (None, rs') \<Longrightarrow> rs' = rs"
  by (induction rs arbitrary: rs') (auto split: if_splits prod.splits)

lemma calls_run_served:
  "\<forall>r \<in> set (rules f). times r \<noteq> 0 \<Longrightarrow> fst (calls_run cs f) = map label_outcome (served (rules f) cs)"
proof (induction cs arbitrary: f)
  case Nil
  then show ?case by simp
next
  case (Cons c cs)
  obtain m w where c: "c = (m, w)" by (cases c)
  obtain t rs' where t: "take_rule m (rules f) = (t, rs')" by (cases "take_rule m (rules f)")
  let ?f = "case t of None \<Rightarrow> f | Some r \<Rightarrow> f\<lparr>rules := rs', release_open := True\<rparr>"
  have rs': "rules ?f = rs'" using take_rule_none [of m "rules f" rs'] t by (cases t) auto
  have "fst (calls_run cs ?f) = map label_outcome (served rs' cs)"
    using Cons.IH [of ?f] take_rule_times [OF Cons.prems t] rs' by simp
  moreover have "served (rules f) (c # cs) = (c, t) # served rs' cs"
    using fold_serve_Cons [OF Cons.prems, of c "map (\<lambda>c. (c, None)) cs"] t by (simp add: served_def c)
  ultimately show ?case
    using t by (cases t) (auto simp: c intercept_def take_fault_def split: prod.splits)
qed

section \<open>Reachable injectors\<close>

inductive injector_reachable :: "injector \<Rightarrow> bool" where
  start: "injector_reachable new_injector"
| inject: "injector_reachable f \<Longrightarrow> injector_reachable (inject_fault r f)"
| clear: "injector_reachable f \<Longrightarrow> injector_reachable (clear_faults f)"
| release: "injector_reachable f \<Longrightarrow> injector_reachable (release_held_calls f)"
| call: "injector_reachable f \<Longrightarrow> injector_reachable (snd (intercept m w f))"

lemma take_rule_method: "\<forall>r \<in> set rs. r_method r \<noteq> [] \<Longrightarrow> take_rule m rs = (t, rs') \<Longrightarrow> \<forall>r \<in> set rs'. r_method r \<noteq> []"
  by (induction rs arbitrary: rs') (auto split: if_splits prod.splits)

lemma rules_ok_intercept: "rules_ok f \<Longrightarrow> rules_ok (snd (intercept m w f))"
  using take_rule_times [of "rules f" m] take_rule_method [of "rules f" m]
  by (auto simp: intercept_def take_fault_def rules_ok_def split: prod.splits option.splits)

lemma rules_ok_reachable: "injector_reachable f \<Longrightarrow> rules_ok f"
proof (induction rule: injector_reachable.induct)
  case (call f m w)
  then show ?case by (simp add: rules_ok_intercept)
qed (auto simp: rules_ok_def new_injector_def inject_fault_def clear_faults_def release_held_calls_def Let_def)

section \<open>Properties\<close>

text \<open>C10. Rules are served in the order they were added: over any series of calls, each rule affects
  exactly the first \<open>Times\<close> calls that match it among those no earlier rule took (every such call
  when \<open>Times\<close> is negative), and every other call is dispatched untouched.\<close>

theorem faults_served_in_order:
  "injector_reachable f \<Longrightarrow> fst (calls_run cs f) = map label_outcome (served (rules f) cs)"
  using calls_run_served rules_ok_reachable by (auto simp: rules_ok_def)

definition demo_faults :: injector where
  "demo_faults = inject_fault \<lparr>r_method = [], times = 0, r_fault = None, delay = 0, hang = False, close_connection = True\<rparr>
     (inject_fault \<lparr>r_method = ''ping'', times = 2, r_fault = Some (Fault (- 1) ''x''), delay = 5, hang = False,
        close_connection = False\<rparr> new_injector)"

theorem faults_served_in_order_witness:
  "fst (calls_run [(''ping'', Timer), (''init'', Timer), (''ping'', ClientGone), (''ping'', Timer)] demo_faults) =
     [Some (AnswerFault (Fault (- 1) ''x'')), Some DropConnection, Some DropConnection, None]"
proof -
  have "injector_reachable demo_faults"
    unfolding demo_faults_def by (intro injector_reachable.intros)
  show ?thesis
    unfolding faults_served_in_order [OF \<open>injector_reachable demo_faults\<close>]
    by (simp add: demo_faults_def served_def inject_fault_def new_injector_def rule_matches_def rule_outcome_def Let_def)
qed

end
