(* ===== verification/State_Manager.thy ===== *)
theory State_Manager
  imports Prelude
begin

text \<open>
  \<^verbatim>\<open>internal/state\<close>: the manager of everything a CCU keeps beside the interface processes: programs,
  system variables, rooms and functions, service messages, the inbox, the backup, the firmware
  update, the value and name caches and the ReGa object ids (\<^verbatim>\<open>manager.go\<close>, \<^verbatim>\<open>models.go\<close>,
  \<^verbatim>\<open>regaids.go\<close>, \<^verbatim>\<open>backup.go\<close>, \<^verbatim>\<open>defaults.go\<close>).

  A value of Go's \<open>any\<close> is a type parameter: the manager only stores it. A \<open>float64\<close> is its 64-bit
  pattern: the manager does no arithmetic on it. Readings of the clock are arguments, and so is the
  clock rendered in local time, which goes into the name of a backup. A system variable is a cell
  that two maps point to, by id and by name; all other entries are held by one container only, so
  they are values. An observer is a number, and what the manager calls observers with is returned.
\<close>

section \<open>The records\<close>

type_synonym float64 = "64 word"

record backend_info =
  bi_version :: string
  bi_product :: string
  bi_hostname :: string
  bi_ha_addon :: bool

record program =
  prog_id :: int
  prog_name :: string
  prog_description :: string
  prog_active :: bool
  prog_last :: float64
  prog_internal :: bool

record 'v system_variable =
  sv_id :: int
  sv_name :: string
  sv_type :: string
  sv_value :: 'v
  sv_description :: string
  sv_unit :: string
  sv_value_list :: string
  sv_min :: float64
  sv_max :: float64
  sv_timestamp :: float64
  sv_channel :: string
  sv_internal :: bool
  sv_visible :: bool
  sv_logged :: bool
  sv_value_name0 :: string
  sv_value_name1 :: string

text \<open>\<open>Room\<close> and \<open>Function\<close> have the same fields.\<close>

record room =
  room_id :: int
  room_name :: string
  room_description :: string
  room_channels :: "string list"

record service_message =
  sm_id :: int
  sm_name :: string
  sm_timestamp :: float64
  sm_type :: string
  sm_address :: string
  sm_device :: string

record inbox_device =
  ib_id :: string
  ib_address :: string
  ib_name :: string
  ib_type :: string
  ib_interface :: string

datatype backup_phase = Idle | Running | Completed | Failed

record backup_status =
  bs_status :: backup_phase
  bs_pid :: string
  bs_filename :: string
  bs_filepath :: string
  bs_size :: int

record update_info =
  ui_current :: string
  ui_available :: string
  ui_pending :: bool

datatype backend_mode = Homegear | CCU | OpenCCU

definition ccu_firmware_version :: string where
  "ccu_firmware_version = ''3.87.1.20250130''"

definition new_backend_info :: "backend_mode \<Rightarrow> backend_info" where
  "new_backend_info mode =
     \<lparr>bi_version = ccu_firmware_version, bi_product = (if mode = OpenCCU then ''OpenCCU'' else ''CCU''),
      bi_hostname = ''godevccu'', bi_ha_addon = False\<rparr>"

definition new_update_info :: update_info where
  "new_update_info = \<lparr>ui_current = ccu_firmware_version, ui_available = ccu_firmware_version, ui_pending = False\<rparr>"

definition phase_status :: "backup_phase \<Rightarrow> backup_status" where
  "phase_status ph = \<lparr>bs_status = ph, bs_pid = [], bs_filename = [], bs_filepath = [], bs_size = 0\<rparr>"

record 'v manager =
  mg_mode :: backend_mode
  mg_serial :: string
  info :: backend_info
  programs :: "(int, program) gomap"
  next_program :: int
  sv_cells :: "nat \<Rightarrow> 'v system_variable option"
  sv_alloc :: nat
  sysvars :: "(int, nat) gomap"
  sysvar_by_name :: "(string, nat) gomap"
  next_sysvar :: int
  rooms :: "(int, room) gomap"
  next_room :: int
  gewerke :: "(int, room) gomap"
  next_function :: int
  service_messages :: "service_message list"
  next_service :: int
  inbox :: "inbox_device list"
  backup :: backup_status
  backup_data :: "8 word list"
  backup_delay :: int
  backup_started :: int
  update :: update_info
  device_values :: "(string, 'v) gomap"
  device_names :: "(string, string) gomap"
  rega_id_by_address :: "(string, int) gomap"
  rega_address_by_id :: "(int, string) gomap"
  next_rega :: int
  sysvar_callbacks :: "nat list"
  program_callbacks :: "nat list"

definition rega_device_id_base :: int where
  "rega_device_id_base = 6000"

definition new_state :: "backend_mode \<Rightarrow> string \<Rightarrow> 'v manager" where
  "new_state mode serial =
     \<lparr>mg_mode = mode, mg_serial = serial, info = new_backend_info mode,
      programs = [], next_program = 1000,
      sv_cells = (\<lambda>_. None), sv_alloc = 0, sysvars = [], sysvar_by_name = [], next_sysvar = 2000,
      rooms = [], next_room = 3000, gewerke = [], next_function = 4000,
      service_messages = [], next_service = 5000, inbox = [],
      backup = phase_status Idle, backup_data = [], backup_delay = 0, backup_started = 0,
      update = new_update_info, device_values = [], device_names = [],
      rega_id_by_address = [], rega_address_by_id = [], next_rega = rega_device_id_base,
      sysvar_callbacks = [], program_callbacks = []\<rparr>"

definition set_backend_info :: "backend_info \<Rightarrow> 'v manager \<Rightarrow> 'v manager" where
  "set_backend_info i m = m\<lparr>info := i\<rparr>"

definition serial_tail :: "'v manager \<Rightarrow> string" where
  "serial_tail m =
     (if length (mg_serial m) \<le> 10 then mg_serial m else drop (length (mg_serial m) - 10) (mg_serial m))"


section \<open>Programs\<close>

definition add_program :: "string \<Rightarrow> string \<Rightarrow> bool \<Rightarrow> int \<Rightarrow> 'v manager \<Rightarrow> program \<times> 'v manager" where
  "add_program name desc active i m =
     (let i' = (if i = 0 then next_program m else i);
          m1 = (if i = 0 then m\<lparr>next_program := next_program m + 1\<rparr> else m);
          p = \<lparr>prog_id = i', prog_name = name, prog_description = desc, prog_active = active,
               prog_last = 0, prog_internal = False\<rparr>
      in (p, m1\<lparr>programs := AList.update i' p (programs m1)\<rparr>))"

definition all_programs :: "'v manager \<Rightarrow> program list" where
  "all_programs m = map snd (programs m)"

definition program_by_id :: "int \<Rightarrow> 'v manager \<Rightarrow> program option" where
  "program_by_id i m = map_of (programs m) i"

definition program_by_name :: "string \<Rightarrow> 'v manager \<Rightarrow> program option" where
  "program_by_name name m = List.find (\<lambda>p. prog_name p = name) (map snd (programs m))"

text \<open>The second component lists the observers called, each with the id and \<open>true\<close>.\<close>

definition execute_program ::
  "int \<Rightarrow> float64 \<Rightarrow> 'v manager \<Rightarrow> bool \<times> (nat \<times> int \<times> bool) list \<times> 'v manager" where
  "execute_program i now m =
     (case map_of (programs m) i of
        None \<Rightarrow> (False, [], m)
      | Some p \<Rightarrow>
          if \<not> prog_active p then (False, [], m)
          else (True, map (\<lambda>cb. (cb, i, True)) (program_callbacks m),
                m\<lparr>programs := AList.update i (p\<lparr>prog_last := now\<rparr>) (programs m)\<rparr>))"

definition set_program_active :: "int \<Rightarrow> bool \<Rightarrow> 'v manager \<Rightarrow> bool \<times> 'v manager" where
  "set_program_active i active m =
     (case map_of (programs m) i of
        None \<Rightarrow> (False, m)
      | Some p \<Rightarrow> (True, m\<lparr>programs := AList.update i (p\<lparr>prog_active := active\<rparr>) (programs m)\<rparr>))"

definition delete_program :: "int \<Rightarrow> 'v manager \<Rightarrow> bool \<times> 'v manager" where
  "delete_program i m =
     (if map_of (programs m) i = None then (False, m)
      else (True, m\<lparr>programs := AList.delete i (programs m)\<rparr>))"

section \<open>System variables\<close>

record sysvar_opts =
  o_description :: string
  o_unit :: string
  o_value_list :: string
  o_min :: float64
  o_max :: float64
  o_id :: int
  o_internal :: bool
  o_logged :: bool
  o_hidden :: bool
  o_value_name0 :: string
  o_value_name1 :: string
  o_channel :: string

definition no_opts :: sysvar_opts where
  "no_opts = \<lparr>o_description = [], o_unit = [], o_value_list = [], o_min = 0, o_max = 0, o_id = 0,
     o_internal = False, o_logged = False, o_hidden = False, o_value_name0 = [], o_value_name1 = [],
     o_channel = []\<rparr>"

definition new_sysvar :: "int \<Rightarrow> string \<Rightarrow> string \<Rightarrow> 'v \<Rightarrow> sysvar_opts \<Rightarrow> float64 \<Rightarrow> 'v system_variable" where
  "new_sysvar i name ty v opts now =
     \<lparr>sv_id = i, sv_name = name, sv_type = ty, sv_value = v, sv_description = o_description opts,
      sv_unit = o_unit opts, sv_value_list = o_value_list opts, sv_min = o_min opts,
      sv_max = o_max opts, sv_timestamp = now, sv_channel = o_channel opts,
      sv_internal = o_internal opts, sv_visible = (\<not> o_hidden opts), sv_logged = o_logged opts,
      sv_value_name0 = o_value_name0 opts, sv_value_name1 = o_value_name1 opts\<rparr>"

definition add_system_variable ::
  "string \<Rightarrow> string \<Rightarrow> 'v \<Rightarrow> sysvar_opts \<Rightarrow> float64 \<Rightarrow> 'v manager \<Rightarrow> 'v system_variable \<times> 'v manager" where
  "add_system_variable name ty v opts now m =
     (let i = (if o_id opts = 0 then next_sysvar m else o_id opts);
          m1 = (if o_id opts = 0 then m\<lparr>next_sysvar := next_sysvar m + 1\<rparr> else m);
          sv = new_sysvar i name ty v opts now;
          a = sv_alloc m1
      in (sv, m1\<lparr>sv_cells := (sv_cells m1)(a \<mapsto> sv), sv_alloc := Suc a,
                 sysvars := AList.update i a (sysvars m1),
                 sysvar_by_name := AList.update name a (sysvar_by_name m1)\<rparr>))"

definition deref :: "'v manager \<Rightarrow> nat option \<Rightarrow> 'v system_variable option" where
  "deref m p = (case p of None \<Rightarrow> None | Some a \<Rightarrow> sv_cells m a)"

definition system_variables :: "'v manager \<Rightarrow> 'v system_variable list" where
  "system_variables m = List.map_filter (\<lambda>(i, a). sv_cells m a) (sysvars m)"

definition system_variable_by_name :: "string \<Rightarrow> 'v manager \<Rightarrow> 'v system_variable option" where
  "system_variable_by_name name m = deref m (map_of (sysvar_by_name m) name)"

definition system_variable_by_id :: "int \<Rightarrow> 'v manager \<Rightarrow> 'v system_variable option" where
  "system_variable_by_id i m = deref m (map_of (sysvars m) i)"

text \<open>A variable is updated through its name; the observers are called with name and value.\<close>

definition set_system_variable ::
  "string \<Rightarrow> 'v \<Rightarrow> float64 \<Rightarrow> 'v manager \<Rightarrow> bool \<times> (nat \<times> string \<times> 'v) list \<times> 'v manager" where
  "set_system_variable name v now m =
     (case map_of (sysvar_by_name m) name of
        None \<Rightarrow> (False, [], m)
      | Some a \<Rightarrow>
          (True, map (\<lambda>cb. (cb, name, v)) (sysvar_callbacks m),
           m\<lparr>sv_cells := (sv_cells m)(a := map_option (\<lambda>sv. sv\<lparr>sv_value := v, sv_timestamp := now\<rparr>) (sv_cells m a))\<rparr>))"

definition delete_system_variable :: "string \<Rightarrow> 'v manager \<Rightarrow> bool \<times> 'v manager" where
  "delete_system_variable name m =
     (case map_of (sysvar_by_name m) name of
        None \<Rightarrow> (False, m)
      | Some a \<Rightarrow>
          (True, m\<lparr>sysvars := (case sv_cells m a of Some sv \<Rightarrow> AList.delete (sv_id sv) (sysvars m) | None \<Rightarrow> sysvars m),
                   sysvar_by_name := AList.delete name (sysvar_by_name m)\<rparr>))"


section \<open>Rooms and functions\<close>

definition add_room :: "string \<Rightarrow> string \<Rightarrow> string list \<Rightarrow> int \<Rightarrow> 'v manager \<Rightarrow> room \<times> 'v manager" where
  "add_room name desc channels i m =
     (let i' = (if i = 0 then next_room m else i);
          m1 = (if i = 0 then m\<lparr>next_room := next_room m + 1\<rparr> else m);
          r = \<lparr>room_id = i', room_name = name, room_description = desc, room_channels = channels\<rparr>
      in (r, m1\<lparr>rooms := AList.update i' r (rooms m1)\<rparr>))"

definition all_rooms :: "'v manager \<Rightarrow> room list" where
  "all_rooms m = map snd (rooms m)"

definition room_by_id :: "int \<Rightarrow> 'v manager \<Rightarrow> room option" where
  "room_by_id i m = map_of (rooms m) i"

definition assign_channel :: "string \<Rightarrow> room \<Rightarrow> room" where
  "assign_channel ch r =
     (if ch \<in> set (room_channels r) then r else r\<lparr>room_channels := room_channels r @ [ch]\<rparr>)"

definition add_channel_to_room :: "int \<Rightarrow> string \<Rightarrow> 'v manager \<Rightarrow> bool \<times> 'v manager" where
  "add_channel_to_room i ch m =
     (case map_of (rooms m) i of
        None \<Rightarrow> (False, m)
      | Some r \<Rightarrow> (True, m\<lparr>rooms := AList.update i (assign_channel ch r) (rooms m)\<rparr>))"

text \<open>Only the first occurrence is removed.\<close>

definition remove_channel_from_room :: "int \<Rightarrow> string \<Rightarrow> 'v manager \<Rightarrow> bool \<times> 'v manager" where
  "remove_channel_from_room i ch m =
     (case map_of (rooms m) i of
        None \<Rightarrow> (False, m)
      | Some r \<Rightarrow> (True, m\<lparr>rooms := AList.update i (r\<lparr>room_channels := remove1 ch (room_channels r)\<rparr>) (rooms m)\<rparr>))"

definition add_function :: "string \<Rightarrow> string \<Rightarrow> string list \<Rightarrow> int \<Rightarrow> 'v manager \<Rightarrow> room \<times> 'v manager" where
  "add_function name desc channels i m =
     (let i' = (if i = 0 then next_function m else i);
          m1 = (if i = 0 then m\<lparr>next_function := next_function m + 1\<rparr> else m);
          r = \<lparr>room_id = i', room_name = name, room_description = desc, room_channels = channels\<rparr>
      in (r, m1\<lparr>gewerke := AList.update i' r (gewerke m1)\<rparr>))"

definition all_functions :: "'v manager \<Rightarrow> room list" where
  "all_functions m = map snd (gewerke m)"

definition function_by_id :: "int \<Rightarrow> 'v manager \<Rightarrow> room option" where
  "function_by_id i m = map_of (gewerke m) i"

definition add_channel_to_function :: "int \<Rightarrow> string \<Rightarrow> 'v manager \<Rightarrow> bool \<times> 'v manager" where
  "add_channel_to_function i ch m =
     (case map_of (gewerke m) i of
        None \<Rightarrow> (False, m)
      | Some r \<Rightarrow> (True, m\<lparr>gewerke := AList.update i (assign_channel ch r) (gewerke m)\<rparr>))"

section \<open>Service messages and inbox\<close>

definition add_service_message ::
  "string \<Rightarrow> string \<Rightarrow> string \<Rightarrow> string \<Rightarrow> float64 \<Rightarrow> 'v manager \<Rightarrow> service_message \<times> 'v manager" where
  "add_service_message name ty address device now m =
     (let msg = \<lparr>sm_id = next_service m, sm_name = name, sm_timestamp = now, sm_type = ty,
                 sm_address = address, sm_device = device\<rparr>
      in (msg, m\<lparr>next_service := next_service m + 1, service_messages := service_messages m @ [msg]\<rparr>))"

text \<open>The first element with the property, removed.\<close>

fun remove_first :: "('a \<Rightarrow> bool) \<Rightarrow> 'a list \<Rightarrow> bool \<times> 'a list" where
  "remove_first P [] = (False, [])"
| "remove_first P (x # xs) =
     (if P x then (True, xs) else (case remove_first P xs of (b, ys) \<Rightarrow> (b, x # ys)))"

definition clear_service_message :: "int \<Rightarrow> 'v manager \<Rightarrow> bool \<times> 'v manager" where
  "clear_service_message i m =
     (case remove_first (\<lambda>msg. sm_id msg = i) (service_messages m) of
        (b, msgs) \<Rightarrow> (b, m\<lparr>service_messages := msgs\<rparr>))"

definition clear_all_service_messages :: "'v manager \<Rightarrow> nat \<times> 'v manager" where
  "clear_all_service_messages m = (length (service_messages m), m\<lparr>service_messages := []\<rparr>)"

definition random_id :: "nat \<Rightarrow> 8 word list option \<Rightarrow> string" where
  "random_id n rnd = (case rnd of None \<Rightarrow> replicate (n * 2) (CHR ''0'') | Some b \<Rightarrow> hex_encode b)"

definition add_inbox_device ::
  "string \<Rightarrow> string \<Rightarrow> string \<Rightarrow> string \<Rightarrow> 8 word list option \<Rightarrow> 'v manager \<Rightarrow> inbox_device \<times> 'v manager" where
  "add_inbox_device address name ty iface rnd m =
     (let d = \<lparr>ib_id = random_id 8 rnd, ib_address = address, ib_name = name, ib_type = ty, ib_interface = iface\<rparr>
      in (d, m\<lparr>inbox := inbox m @ [d]\<rparr>))"

definition accept_inbox_device :: "string \<Rightarrow> 'v manager \<Rightarrow> bool \<times> 'v manager" where
  "accept_inbox_device address m =
     (case remove_first (\<lambda>d. ib_address d = address) (inbox m) of (b, ds) \<Rightarrow> (b, m\<lparr>inbox := ds\<rparr>))"

definition reject_inbox_device :: "string \<Rightarrow> 'v manager \<Rightarrow> bool \<times> 'v manager" where
  "reject_inbox_device address m = accept_inbox_device address m"

section \<open>Backup and firmware update\<close>

definition set_backup_completion_delay :: "int \<Rightarrow> 'v manager \<Rightarrow> 'v manager" where
  "set_backup_completion_delay d m = m\<lparr>backup_delay := d\<rparr>"

definition start_backup :: "8 word list option \<Rightarrow> int \<Rightarrow> 'v manager \<Rightarrow> string \<times> 'v manager" where
  "start_backup rnd now m =
     (let pid = random_id 4 rnd
      in (pid, m\<lparr>backup := (phase_status Running)\<lparr>bs_pid := pid\<rparr>, backup_started := now\<rparr>))"

definition complete_backup :: "8 word list \<Rightarrow> string \<Rightarrow> 'v manager \<Rightarrow> 'v manager" where
  "complete_backup bytes filename m =
     m\<lparr>backup_data := bytes,
       backup := \<lparr>bs_status = Completed, bs_pid = [], bs_filename = filename,
                  bs_filepath = ''/tmp/'' @ filename, bs_size = int (length bytes)\<rparr>\<rparr>"

definition fail_backup :: "'v manager \<Rightarrow> 'v manager" where
  "fail_backup m = m\<lparr>backup := phase_status Failed\<rparr>"

definition backup_filename :: "string \<Rightarrow> 'v manager \<Rightarrow> string" where
  "backup_filename stamp m =
     bi_hostname (info m) @ ''-'' @ bi_version (info m) @ ''-'' @ stamp @ ''.sbk''"

definition backup_placeholder :: "8 word list" where
  "backup_placeholder = map (\<lambda>c. of_char c) (''godevccu backup placeholder'' @ [CHR 0x0A])"

definition promote_backup :: "int \<Rightarrow> string \<Rightarrow> 'v manager \<Rightarrow> 'v manager" where
  "promote_backup now stamp m =
     (if backup_delay m \<le> 0 \<or> bs_status (backup m) \<noteq> Running then m
      else if now - backup_started m < backup_delay m then m
      else m\<lparr>backup_data := backup_placeholder,
             backup := \<lparr>bs_status = Completed, bs_pid = bs_pid (backup m),
                        bs_filename = backup_filename stamp m,
                        bs_filepath = ''/usr/local/tmp/last_backup.sbk'',
                        bs_size = int (length backup_placeholder)\<rparr>\<rparr>)"

definition poll_backup :: "int \<Rightarrow> string \<Rightarrow> 'v manager \<Rightarrow> backup_status \<times> 'v manager" where
  "poll_backup now stamp m = (let m1 = promote_backup now stamp m in (backup m1, m1))"

definition read_backup_data :: "int \<Rightarrow> string \<Rightarrow> 'v manager \<Rightarrow> 8 word list \<times> 'v manager" where
  "read_backup_data now stamp m = (let m1 = promote_backup now stamp m in (backup_data m1, m1))"

definition reset_backup :: "'v manager \<Rightarrow> 'v manager" where
  "reset_backup m = m\<lparr>backup := phase_status Idle, backup_data := []\<rparr>"

definition set_update_info :: "string \<Rightarrow> string \<Rightarrow> 'v manager \<Rightarrow> 'v manager" where
  "set_update_info current available m =
     m\<lparr>update := \<lparr>ui_current = current, ui_available = available, ui_pending = (current \<noteq> available)\<rparr>\<rparr>"

definition trigger_update :: "'v manager \<Rightarrow> bool \<times> 'v manager" where
  "trigger_update m =
     (if \<not> ui_pending (update m) then (False, m)
      else (True, m\<lparr>update := (update m)\<lparr>ui_current := ui_available (update m), ui_pending := False\<rparr>\<rparr>))"

section \<open>Value cache, names and ReGa ids\<close>

definition value_cache_key :: "string \<Rightarrow> string \<Rightarrow> string" where
  "value_cache_key address k = address @ '':'' @ k"

definition set_device_value :: "string \<Rightarrow> string \<Rightarrow> 'v \<Rightarrow> 'v manager \<Rightarrow> 'v manager" where
  "set_device_value address k v m =
     m\<lparr>device_values := AList.update (value_cache_key address k) v (device_values m)\<rparr>"

definition device_value :: "string \<Rightarrow> string \<Rightarrow> 'v manager \<Rightarrow> 'v option" where
  "device_value address k m = map_of (device_values m) (value_cache_key address k)"

definition clear_device_values :: "'v manager \<Rightarrow> 'v manager" where
  "clear_device_values m = m\<lparr>device_values := []\<rparr>"

definition set_device_name :: "string \<Rightarrow> string \<Rightarrow> 'v manager \<Rightarrow> 'v manager" where
  "set_device_name address name m =
     m\<lparr>device_names := AList.update (to_upper address) name (device_names m)\<rparr>"

definition device_name :: "string \<Rightarrow> 'v manager \<Rightarrow> string option" where
  "device_name address m = map_of (device_names m) (to_upper address)"

definition register_address :: "string \<Rightarrow> 'v manager \<Rightarrow> int \<times> 'v manager" where
  "register_address address m =
     (if address = [] then (0, m)
      else (let key = to_upper address in
            case map_of (rega_id_by_address m) key of
              Some i \<Rightarrow> (i, m)
            | None \<Rightarrow>
                (let i = next_rega m
                 in (i, m\<lparr>next_rega := i + 1,
                          rega_id_by_address := AList.update key i (rega_id_by_address m),
                          rega_address_by_id := AList.update i key (rega_address_by_id m)\<rparr>))))"

definition register_addresses :: "string list \<Rightarrow> 'v manager \<Rightarrow> 'v manager" where
  "register_addresses xs m = fold (\<lambda>a m. snd (register_address a m)) xs m"

text \<open>A Go map read yields the zero value for a missing key.\<close>

definition rega_id :: "string \<Rightarrow> 'v manager \<Rightarrow> int" where
  "rega_id address m =
     (case map_of (rega_id_by_address m) (to_upper address) of Some i \<Rightarrow> i | None \<Rightarrow> 0)"

definition rega_address :: "int \<Rightarrow> 'v manager \<Rightarrow> string" where
  "rega_address i m = (case map_of (rega_address_by_id m) i of Some a \<Rightarrow> a | None \<Rightarrow> [])"

definition channel_ids_for_addresses :: "string list \<Rightarrow> 'v manager \<Rightarrow> int list" where
  "channel_ids_for_addresses xs m =
     List.map_filter (\<lambda>a. map_of (rega_id_by_address m) (to_upper a)) xs"

section \<open>Observers and reset\<close>

definition register_sysvar_callback :: "nat \<Rightarrow> 'v manager \<Rightarrow> 'v manager" where
  "register_sysvar_callback cb m = m\<lparr>sysvar_callbacks := sysvar_callbacks m @ [cb]\<rparr>"

definition register_program_callback :: "nat \<Rightarrow> 'v manager \<Rightarrow> 'v manager" where
  "register_program_callback cb m = m\<lparr>program_callbacks := program_callbacks m @ [cb]\<rparr>"

text \<open>The counters, the ReGa ids, the delay of the backup and the observers are kept.\<close>

definition clear_all :: "'v manager \<Rightarrow> 'v manager" where
  "clear_all m =
     m\<lparr>programs := [], sysvars := [], sysvar_by_name := [], rooms := [], gewerke := [],
       service_messages := [], inbox := [], device_values := [], device_names := [],
       backup := phase_status Idle, backup_data := [], update := new_update_info\<rparr>"


section \<open>Histories\<close>

datatype 'v manager_op =
    AddProgram string string bool int
  | ExecuteProgram int float64
  | SetProgramActive int bool
  | DeleteProgram int
  | AddSysvar string string 'v sysvar_opts float64
  | SetSysvar string 'v float64
  | DeleteSysvar string
  | AddRoom string string "string list" int
  | AddChannelToRoom int string
  | RemoveChannelFromRoom int string
  | AddFunction string string "string list" int
  | AddChannelToFunction int string
  | AddServiceMessage string string string string float64
  | ClearServiceMessage int
  | ClearAllServiceMessages
  | AddInboxDevice string string string string "8 word list option"
  | AcceptInboxDevice string
  | SetBackupDelay int
  | StartBackup "8 word list option" int
  | CompleteBackup "8 word list" string
  | FailBackup
  | PollBackup int string
  | ResetBackup
  | SetUpdateInfo string string
  | TriggerUpdate
  | SetDeviceValue string string 'v
  | ClearDeviceValues
  | SetDeviceName string string
  | RegisterAddress string
  | RegisterSysvarCallback nat
  | RegisterProgramCallback nat
  | SetBackendInfo backend_info
  | ClearAll

fun manager_step :: "'v manager_op \<Rightarrow> 'v manager \<Rightarrow> 'v manager" where
  "manager_step (AddProgram n d a i) m = snd (add_program n d a i m)"
| "manager_step (ExecuteProgram i t) m = snd (snd (execute_program i t m))"
| "manager_step (SetProgramActive i a) m = snd (set_program_active i a m)"
| "manager_step (DeleteProgram i) m = snd (delete_program i m)"
| "manager_step (AddSysvar n ty v opts t) m = snd (add_system_variable n ty v opts t m)"
| "manager_step (SetSysvar n v t) m = snd (snd (set_system_variable n v t m))"
| "manager_step (DeleteSysvar n) m = snd (delete_system_variable n m)"
| "manager_step (AddRoom n d cs i) m = snd (add_room n d cs i m)"
| "manager_step (AddChannelToRoom i c) m = snd (add_channel_to_room i c m)"
| "manager_step (RemoveChannelFromRoom i c) m = snd (remove_channel_from_room i c m)"
| "manager_step (AddFunction n d cs i) m = snd (add_function n d cs i m)"
| "manager_step (AddChannelToFunction i c) m = snd (add_channel_to_function i c m)"
| "manager_step (AddServiceMessage n ty a d t) m = snd (add_service_message n ty a d t m)"
| "manager_step (ClearServiceMessage i) m = snd (clear_service_message i m)"
| "manager_step ClearAllServiceMessages m = snd (clear_all_service_messages m)"
| "manager_step (AddInboxDevice a n ty f r) m = snd (add_inbox_device a n ty f r m)"
| "manager_step (AcceptInboxDevice a) m = snd (accept_inbox_device a m)"
| "manager_step (SetBackupDelay d) m = set_backup_completion_delay d m"
| "manager_step (StartBackup r t) m = snd (start_backup r t m)"
| "manager_step (CompleteBackup b f) m = complete_backup b f m"
| "manager_step FailBackup m = fail_backup m"
| "manager_step (PollBackup t st) m = snd (poll_backup t st m)"
| "manager_step ResetBackup m = reset_backup m"
| "manager_step (SetUpdateInfo c a) m = set_update_info c a m"
| "manager_step TriggerUpdate m = snd (trigger_update m)"
| "manager_step (SetDeviceValue a k v) m = set_device_value a k v m"
| "manager_step ClearDeviceValues m = clear_device_values m"
| "manager_step (SetDeviceName a n) m = set_device_name a n m"
| "manager_step (RegisterAddress a) m = snd (register_address a m)"
| "manager_step (RegisterSysvarCallback cb) m = register_sysvar_callback cb m"
| "manager_step (RegisterProgramCallback cb) m = register_program_callback cb m"
| "manager_step (SetBackendInfo i) m = set_backend_info i m"
| "manager_step ClearAll m = clear_all m"

inductive manager_reachable :: "'v manager \<Rightarrow> bool" where
  start: "manager_reachable (new_state mode serial)"
| step: "manager_reachable m \<Longrightarrow> manager_reachable (manager_step x m)"

lemmas manager_defs =
  add_program_def execute_program_def set_program_active_def delete_program_def
  add_system_variable_def set_system_variable_def delete_system_variable_def
  add_room_def add_channel_to_room_def remove_channel_from_room_def
  add_function_def add_channel_to_function_def
  add_service_message_def clear_service_message_def clear_all_service_messages_def
  add_inbox_device_def accept_inbox_device_def
  set_backup_completion_delay_def start_backup_def complete_backup_def fail_backup_def
  poll_backup_def promote_backup_def reset_backup_def set_update_info_def trigger_update_def
  set_device_value_def clear_device_values_def set_device_name_def register_address_def
  register_sysvar_callback_def register_program_callback_def set_backend_info_def clear_all_def

section \<open>System variables: two indexes on one set of cells\<close>

definition sv_cells_ok :: "'v manager \<Rightarrow> bool" where
  "sv_cells_ok m \<longleftrightarrow>
     (\<forall>i a. map_of (sysvars m) i = Some a \<longrightarrow> (\<exists>sv. sv_cells m a = Some sv \<and> sv_id sv = i)) \<and>
     (\<forall>n a. map_of (sysvar_by_name m) n = Some a \<longrightarrow> (\<exists>sv. sv_cells m a = Some sv \<and> sv_name sv = n)) \<and>
     (\<forall>a. sv_cells m a \<noteq> None \<longrightarrow> a < sv_alloc m)"

definition sv_coherent :: "'v manager \<Rightarrow> bool" where
  "sv_coherent m \<longleftrightarrow> (\<forall>a sv. sv_cells m a = Some sv \<longrightarrow>
     (map_of (sysvars m) (sv_id sv) = Some a) = (map_of (sysvar_by_name m) (sv_name sv) = Some a))"

text \<open>A client that never adds a variable whose name or id is taken.\<close>

fun no_clash :: "'v manager_op \<Rightarrow> 'v manager \<Rightarrow> bool" where
  "no_clash (AddSysvar n ty v opts t) m \<longleftrightarrow>
     system_variable_by_name n m = None \<and>
     system_variable_by_id (if o_id opts = 0 then next_sysvar m else o_id opts) m = None"
| "no_clash x m = True"

inductive tidy_reachable :: "'v manager \<Rightarrow> bool" where
  start: "tidy_reachable (new_state mode serial)"
| step: "tidy_reachable m \<Longrightarrow> no_clash x m \<Longrightarrow> tidy_reachable (manager_step x m)"

definition same_sysvars :: "'v manager \<Rightarrow> 'v manager \<Rightarrow> bool" where
  "same_sysvars m m' \<longleftrightarrow> sv_cells m' = sv_cells m \<and> sv_alloc m' = sv_alloc m \<and>
     sysvars m' = sysvars m \<and> sysvar_by_name m' = sysvar_by_name m"

fun touches_sysvars :: "'v manager_op \<Rightarrow> bool" where
  "touches_sysvars (AddSysvar n ty v opts t) = True"
| "touches_sysvars (SetSysvar n v t) = True"
| "touches_sysvars (DeleteSysvar n) = True"
| "touches_sysvars ClearAll = True"
| "touches_sysvars x = False"

lemma other_ops_keep_sysvars: "\<not> touches_sysvars x \<Longrightarrow> same_sysvars m (manager_step x m)"
  by (cases x) (auto simp: same_sysvars_def manager_defs Let_def split: option.splits prod.splits)

lemma new_sysvar_fields [simp]:
  "sv_id (new_sysvar i n ty v opts t) = i" "sv_name (new_sysvar i n ty v opts t) = n"
  by (simp_all add: new_sysvar_def)

lemma sv_cells_ok_add: "sv_cells_ok m \<Longrightarrow> sv_cells_ok (snd (add_system_variable n ty v opts t m))"
  by (auto simp: sv_cells_ok_def add_system_variable_def Let_def) (metis less_irrefl option.distinct(1) less_SucI)+

lemma sv_cells_ok_set: "sv_cells_ok m \<Longrightarrow> sv_cells_ok (snd (snd (set_system_variable n v t m)))"
  by (fastforce simp: sv_cells_ok_def set_system_variable_def split: option.splits)

lemma sv_cells_ok_delete: "sv_cells_ok m \<Longrightarrow> sv_cells_ok (snd (delete_system_variable n m))"
  by (auto simp: sv_cells_ok_def delete_system_variable_def split: option.splits)

lemma sv_cell:
  assumes "sv_cells_ok m"
  shows "map_of (sysvars m) i = Some a \<Longrightarrow> \<exists>sv. sv_cells m a = Some sv \<and> sv_id sv = i"
    and "map_of (sysvar_by_name m) n = Some a \<Longrightarrow> \<exists>sv. sv_cells m a = Some sv \<and> sv_name sv = n"
    and "sv_cells m (sv_alloc m) = None"
  using assms by (auto simp: sv_cells_ok_def)

lemma lookup_None_iff:
  assumes "sv_cells_ok m"
  shows "system_variable_by_id i m = None \<longleftrightarrow> map_of (sysvars m) i = None"
    and "system_variable_by_name n m = None \<longleftrightarrow> map_of (sysvar_by_name m) n = None"
  using sv_cell [OF assms]
  by (force simp: system_variable_by_id_def system_variable_by_name_def deref_def split: option.splits)+

lemma touches_cases:
  assumes "touches_sysvars x"
  obtains n ty v opts t where "x = AddSysvar n ty v opts t" | n v t where "x = SetSysvar n v t"
    | n where "x = DeleteSysvar n" | "x = ClearAll"
  using assms by (cases x) auto

lemma sv_cells_ok_step: "sv_cells_ok m \<Longrightarrow> sv_cells_ok (manager_step x m)"
proof (cases "touches_sysvars x")
  case True
  assume "sv_cells_ok m"
  then have "sv_cells_ok (clear_all m)" by (simp add: sv_cells_ok_def clear_all_def)
  with True \<open>sv_cells_ok m\<close> show ?thesis
    by (elim touches_cases) (simp_all add: sv_cells_ok_add sv_cells_ok_set sv_cells_ok_delete)
next
  case False
  assume "sv_cells_ok m"
  with other_ops_keep_sysvars [OF False, of m] show ?thesis
    by (auto simp: sv_cells_ok_def same_sysvars_def)
qed

lemma sv_coherent_add:
  assumes "sv_cells_ok m" and "sv_coherent m" and "no_clash (AddSysvar n ty v opts t) m"
  shows "sv_coherent (snd (add_system_variable n ty v opts t m))"
proof -
  have "map_of (sysvar_by_name m) n = None"
    and "map_of (sysvars m) (if o_id opts = 0 then next_sysvar m else o_id opts) = None"
    using assms(3) by (simp_all add: lookup_None_iff [OF assms(1)])
  moreover have "map_of (sysvars m) i \<noteq> Some (sv_alloc m)" "map_of (sysvar_by_name m) n \<noteq> Some (sv_alloc m)" for i n
    using sv_cell [OF assms(1)] by force+
  ultimately show ?thesis
    using assms(2) by (auto simp: sv_coherent_def add_system_variable_def Let_def) force+
qed

lemma sv_coherent_set: "sv_coherent m \<Longrightarrow> sv_coherent (snd (snd (set_system_variable n v t m)))"
  by (auto simp: sv_coherent_def set_system_variable_def split: option.splits)

lemma sv_coherent_delete:
  assumes "sv_cells_ok m" and "sv_coherent m"
  shows "sv_coherent (snd (delete_system_variable n m))"
proof (cases "map_of (sysvar_by_name m) n")
  case None
  with assms(2) show ?thesis by (simp add: delete_system_variable_def)
next
  case (Some a)
  then obtain sv where sv: "sv_cells m a = Some sv" "sv_name sv = n"
    using sv_cell(2) [OF assms(1)] by blast
  then have "map_of (sysvars m) (sv_id sv) = Some a"
    using assms(2) Some by (auto simp: sv_coherent_def)
  then have uniq: "w = sv" if "sv_cells m b = Some w" "sv_id w = sv_id sv" "map_of (sysvar_by_name m) (sv_name w) = Some b" for b w
    using assms(2) that sv(1) unfolding sv_coherent_def by (metis option.inject)
  show ?thesis
    using Some sv assms(2) uniq unfolding sv_coherent_def delete_system_variable_def by auto
qed

lemma sv_coherent_clear: "sv_coherent (clear_all m)"
  by (simp add: sv_coherent_def clear_all_def)

lemma tidy_inv: "tidy_reachable m \<Longrightarrow> sv_cells_ok m \<and> sv_coherent m"
proof (induction rule: tidy_reachable.induct)
  case (start mode serial)
  then show ?case by (simp add: sv_cells_ok_def sv_coherent_def new_state_def)
next
  case (step m x)
  have "sv_coherent (manager_step x m)"
  proof (cases "touches_sysvars x")
    case True
    with step show ?thesis
      by (elim touches_cases)
        (simp_all add: sv_coherent_set sv_coherent_delete sv_coherent_clear sv_coherent_add del: no_clash.simps)
  next
    case False
    with other_ops_keep_sysvars [OF False, of m] step show ?thesis
      by (auto simp: sv_coherent_def same_sysvars_def)
  qed
  with step show ?case by (simp add: sv_cells_ok_step)
qed

lemma views_agree:
  assumes "sv_cells_ok m" and "sv_coherent m"
  shows "system_variable_by_name n m = Some v \<longleftrightarrow>
     system_variable_by_id (sv_id v) m = Some v \<and> sv_name v = n"
  using assms
  by (fastforce simp: sv_cells_ok_def sv_coherent_def system_variable_by_name_def system_variable_by_id_def
      deref_def split: option.splits)


lemma set_effect:
  assumes ok: "sv_cells_ok m" "sv_coherent m" and set: "set_system_variable name v now m = (True, calls, m')"
  obtains old where "system_variable_by_name name m = Some old"
    and "\<And>i. system_variable_by_id i m' =
           (if i = sv_id old then Some (old\<lparr>sv_value := v, sv_timestamp := now\<rparr>) else system_variable_by_id i m)"
    and "\<And>n. system_variable_by_name n m' =
           (if n = name then Some (old\<lparr>sv_value := v, sv_timestamp := now\<rparr>) else system_variable_by_name n m)"
proof -
  from set obtain a where a: "map_of (sysvar_by_name m) name = Some a"
    and m': "m' = m\<lparr>sv_cells := (sv_cells m)(a := map_option (\<lambda>sv. sv\<lparr>sv_value := v, sv_timestamp := now\<rparr>) (sv_cells m a))\<rparr>"
    by (auto simp: set_system_variable_def split: option.splits)
  from a obtain old where old: "sv_cells m a = Some old" "sv_name old = name"
    using sv_cell(2) [OF ok(1)] by blast
  with a ok(2) have ida: "map_of (sysvars m) (sv_id old) = Some a"
    by (auto simp: sv_coherent_def)
  have inj: "i = sv_id old" if "map_of (sysvars m) i = Some a" for i
    using sv_cell(1) [OF ok(1) that] old by auto
  have injn: "n = name" if "map_of (sysvar_by_name m) n = Some a" for n
    using sv_cell(2) [OF ok(1) that] old by auto
  have f: "sysvars m' = sysvars m" "sysvar_by_name m' = sysvar_by_name m"
    "sv_cells m' = (sv_cells m)(a \<mapsto> old\<lparr>sv_value := v, sv_timestamp := now\<rparr>)"
    by (simp_all add: m' old)
  show ?thesis
  proof (rule that [of old])
    show "system_variable_by_name name m = Some old"
      using a old by (simp add: system_variable_by_name_def deref_def)
    show "system_variable_by_id i m' =
        (if i = sv_id old then Some (old\<lparr>sv_value := v, sv_timestamp := now\<rparr>) else system_variable_by_id i m)" for i
      unfolding system_variable_by_id_def deref_def f using inj [of i] ida
      by (cases "map_of (sysvars m) i") auto
    show "system_variable_by_name n m' =
        (if n = name then Some (old\<lparr>sv_value := v, sv_timestamp := now\<rparr>) else system_variable_by_name n m)" for n
      unfolding system_variable_by_name_def deref_def f using injn [of n] a
      by (cases "map_of (sysvar_by_name m) n") auto
  qed
qed

section \<open>Counters and identifiers\<close>

text \<open>
  The counters start at 1000, 2000, 3000 and 4000; a client that chooses ids of its own below them
  never meets an automatic one.
\<close>

fun low_ids :: "'v manager_op \<Rightarrow> bool" where
  "low_ids (AddProgram n d a i) \<longleftrightarrow> i < 1000"
| "low_ids (AddSysvar n ty v opts t) \<longleftrightarrow> o_id opts < 2000"
| "low_ids (AddRoom n d cs i) \<longleftrightarrow> i < 3000"
| "low_ids (AddFunction n d cs i) \<longleftrightarrow> i < 4000"
| "low_ids x = True"

definition keys_below :: "(int, 'a) gomap \<Rightarrow> int \<Rightarrow> bool" where
  "keys_below t n \<longleftrightarrow> (\<forall>k \<in> fst ` set t. k < n)"

definition counters_ok :: "'v manager \<Rightarrow> bool" where
  "counters_ok m \<longleftrightarrow>
     1000 \<le> next_program m \<and> keys_below (programs m) (next_program m) \<and>
     2000 \<le> next_sysvar m \<and> keys_below (sysvars m) (next_sysvar m) \<and>
     3000 \<le> next_room m \<and> keys_below (rooms m) (next_room m) \<and>
     4000 \<le> next_function m \<and> keys_below (gewerke m) (next_function m)"

lemma keys_below_simps [simp]:
  "keys_below [] n" "keys_below (AList.update k v t) n \<longleftrightarrow> k < n \<and> keys_below t n"
  by (auto simp: keys_below_def dom_update)

lemma keys_below_delete [simp]: "keys_below t n \<Longrightarrow> keys_below (AList.delete k t) n"
  unfolding keys_below_def using dom_delete_subset [of k t] by blast

lemma keys_below_mono: "keys_below t n \<Longrightarrow> n \<le> n' \<Longrightarrow> keys_below t n'"
  by (auto simp: keys_below_def)

lemma keys_below_succ: "keys_below t n \<Longrightarrow> keys_below t (n + 1)"
  by (force simp: keys_below_def)

lemma keys_below_known: "keys_below t n \<Longrightarrow> map_of t k = Some v \<Longrightarrow> k < n"
  by (force simp: keys_below_def dest: map_of_SomeD)

lemma keys_below_fresh: "keys_below t n \<Longrightarrow> map_of t n = None"
  by (metis keys_below_known not_None_eq order_less_irrefl)

lemma counters_ok_step: "low_ids x \<Longrightarrow> counters_ok m \<Longrightarrow> counters_ok (manager_step x m)"
  by (cases x; simp add: counters_ok_def manager_defs Let_def keys_below_succ split: option.splits prod.splits)
    (auto dest: keys_below_known)

end
