(* ===== verification/State_Props.thy ===== *)
theory State_Props
  imports State_Manager
begin

text \<open>
  What the state manager guarantees over histories of operations: ReGa ids are assigned once and for
  ever, service messages are told apart by id, a backup completes by itself after its delay, the two
  indexes of the system variables agree, and automatic ids are fresh.
\<close>

section \<open>ReGa ids\<close>

definition rega_inv :: "'v manager \<Rightarrow> bool" where
  "rega_inv m \<longleftrightarrow> rega_device_id_base \<le> next_rega m \<and>
     (\<forall>k i. map_of (rega_id_by_address m) k = Some i \<longrightarrow> rega_device_id_base \<le> i \<and> i < next_rega m) \<and>
     (\<forall>k i. map_of (rega_id_by_address m) k = Some i \<longleftrightarrow> map_of (rega_address_by_id m) i = Some k)"

definition same_rega :: "'v manager \<Rightarrow> 'v manager \<Rightarrow> bool" where
  "same_rega m m' \<longleftrightarrow> rega_id_by_address m' = rega_id_by_address m \<and>
     rega_address_by_id m' = rega_address_by_id m \<and> next_rega m' = next_rega m"

lemma other_ops_keep_rega: "\<nexists>a. x = RegisterAddress a \<Longrightarrow> same_rega m (manager_step x m)"
  by (cases x; simp add: same_rega_def manager_defs Let_def split: option.splits prod.splits)

lemma rega_inv_register: "rega_inv m \<Longrightarrow> rega_inv (snd (register_address a m))"
proof -
  assume inv: "rega_inv m"
  show ?thesis
  proof (cases "a = [] \<or> map_of (rega_id_by_address m) (to_upper a) \<noteq> None")
    case True
    with inv show ?thesis by (auto simp: register_address_def Let_def)
  next
    case False
    then have r: "snd (register_address a m) = m\<lparr>next_rega := next_rega m + 1,
        rega_id_by_address := AList.update (to_upper a) (next_rega m) (rega_id_by_address m),
        rega_address_by_id := AList.update (next_rega m) (to_upper a) (rega_address_by_id m)\<rparr>"
      by (simp add: register_address_def Let_def)
    have fresh: "map_of (rega_id_by_address m) k \<noteq> Some (next_rega m)" for k
      using inv by (force simp: rega_inv_def)
    with inv False show ?thesis
      unfolding r rega_inv_def by (auto simp: less_imp_le)
  qed
qed

lemma rega_inv_step: "rega_inv m \<Longrightarrow> rega_inv (manager_step x m)"
proof (cases "\<exists>a. x = RegisterAddress a")
  case True
  assume "rega_inv m"
  with True show ?thesis by (auto simp: rega_inv_register)
next
  case False
  then have "same_rega m (manager_step x m)" by (rule other_ops_keep_rega)
  moreover assume "rega_inv m"
  ultimately show ?thesis by (simp add: rega_inv_def same_rega_def)
qed

lemma rega_inv_reachable: "manager_reachable m \<Longrightarrow> rega_inv m"
  by (induction rule: manager_reachable.induct)
    (simp_all add: rega_inv_step, simp add: rega_inv_def new_state_def)

lemma rega_id_kept_step:
  "map_of (rega_id_by_address m) k = Some i \<Longrightarrow> map_of (rega_id_by_address (manager_step x m)) k = Some i"
proof (cases "\<exists>a. x = RegisterAddress a")
  case True
  assume "map_of (rega_id_by_address m) k = Some i"
  with True show ?thesis
    by (auto simp: register_address_def Let_def split: option.splits)
next
  case False
  then have "same_rega m (manager_step x m)" by (rule other_ops_keep_rega)
  then show "map_of (rega_id_by_address m) k = Some i \<Longrightarrow> ?thesis" by (simp add: same_rega_def)
qed

lemma rega_id_kept:
  "map_of (rega_id_by_address m) k = Some i \<Longrightarrow> map_of (rega_id_by_address (fold manager_step xs m)) k = Some i"
  by (induction xs arbitrary: m) (auto intro: rega_id_kept_step)

lemma reachable_run: "manager_reachable m \<Longrightarrow> manager_reachable (fold manager_step xs m)"
  by (induction xs arbitrary: m) (auto intro: manager_reachable.step)

section \<open>Service messages\<close>

definition messages_ok :: "'v manager \<Rightarrow> bool" where
  "messages_ok m \<longleftrightarrow> distinct (map sm_id (service_messages m)) \<and>
     (\<forall>msg \<in> set (service_messages m). sm_id msg < next_service m)"

lemma remove_first_filter:
  "distinct (map f xs) \<Longrightarrow> remove_first (\<lambda>x. f x = k) xs = (k \<in> f ` set xs, filter (\<lambda>x. f x \<noteq> k) xs)"
proof (induction xs)
  case (Cons x xs)
  show ?case
  proof (cases "f x = k")
    case True
    with Cons.prems have "k \<notin> f ` set xs" by simp
    then have "filter (\<lambda>x. f x \<noteq> k) xs = xs"
      by (intro filter_True ballI notI) (metis imageI)
    with True show ?thesis by simp
  next
    case False
    with Cons show ?thesis by auto
  qed
qed simp

lemma clear_message_filter:
  "messages_ok m \<Longrightarrow> clear_service_message i m =
     (i \<in> sm_id ` set (service_messages m),
      m\<lparr>service_messages := filter (\<lambda>msg. sm_id msg \<noteq> i) (service_messages m)\<rparr>)"
  by (simp add: clear_service_message_def messages_ok_def remove_first_filter)

fun touches_messages :: "'v manager_op \<Rightarrow> bool" where
  "touches_messages (AddServiceMessage n ty a d t) = True"
| "touches_messages (ClearServiceMessage i) = True"
| "touches_messages ClearAllServiceMessages = True"
| "touches_messages ClearAll = True"
| "touches_messages x = False"

lemma other_ops_keep_messages:
  "\<not> touches_messages x \<Longrightarrow> service_messages (manager_step x m) = service_messages m \<and>
     next_service (manager_step x m) = next_service m"
  by (cases x; simp add: manager_defs Let_def split: option.splits prod.splits)

lemma touches_messages_cases:
  assumes "touches_messages x"
  obtains n ty a d t where "x = AddServiceMessage n ty a d t" | i where "x = ClearServiceMessage i"
    | "x = ClearAllServiceMessages" | "x = ClearAll"
  using assms by (cases x) auto

lemma messages_ok_step: "messages_ok m \<Longrightarrow> messages_ok (manager_step x m)"
proof (cases "touches_messages x")
  case True
  assume ok: "messages_ok m"
  have "distinct (map sm_id (filter P (service_messages m)))" for P
    using ok by (simp add: messages_ok_def distinct_map_filter)
  with True ok show ?thesis
    by (elim touches_messages_cases)
      (auto simp: clear_message_filter, auto simp: messages_ok_def add_service_message_def
        clear_all_service_messages_def clear_all_def Let_def)
next
  case False
  assume "messages_ok m"
  with other_ops_keep_messages [OF False, of m] show ?thesis by (simp add: messages_ok_def)
qed

lemma messages_ok_reachable: "manager_reachable m \<Longrightarrow> messages_ok m"
  by (induction rule: manager_reachable.induct)
    (simp_all add: messages_ok_step, simp add: messages_ok_def new_state_def)

section \<open>The backup\<close>

definition polls :: "(int \<times> string) list \<Rightarrow> 'v manager \<Rightarrow> 'v manager" where
  "polls ps m = fold (\<lambda>(t, st) m. snd (poll_backup t st m)) ps m"

lemma poll_done: "bs_status (backup m) \<noteq> Running \<Longrightarrow> snd (poll_backup t st m) = m"
  by (simp add: poll_backup_def promote_backup_def Let_def)

lemma polls_done: "bs_status (backup m) \<noteq> Running \<Longrightarrow> polls ps m = m"
  by (induction ps) (auto simp: polls_def poll_done)

lemma polls_running:
  assumes "bs_status (backup m) = Running" and "0 < backup_delay m"
  shows "polls ps m =
    (case List.find (\<lambda>(t, st). backup_delay m \<le> t - backup_started m) ps of
       None \<Rightarrow> m
     | Some (t, st) \<Rightarrow> promote_backup t st m)"
  using assms
proof (induction ps)
  case Nil
  then show ?case by (simp add: polls_def)
next
  case (Cons p ps)
  obtain t st where p: "p = (t, st)" by (cases p)
  show ?case
  proof (cases "backup_delay m \<le> t - backup_started m")
    case True
    then have "bs_status (backup (promote_backup t st m)) \<noteq> Running"
      using Cons.prems by (simp add: promote_backup_def)
    then have "polls ps (promote_backup t st m) = promote_backup t st m" by (rule polls_done)
    with True show ?thesis by (simp add: polls_def p poll_backup_def Let_def)
  next
    case False
    then have "promote_backup t st m = m" by (simp add: promote_backup_def)
    with False Cons show ?thesis by (simp add: polls_def p poll_backup_def Let_def)
  qed
qed


section \<open>Properties\<close>

text \<open>C11. A ReGa object id, once handed out for an address, stays that address's id, whatever
  clients, timers and devices do until the next reset (\<open>ClearAll\<close>): no other address gets it, spelling in
  upper or lower case does not matter, and it translates back.\<close>

theorem rega_ids_stable:
  assumes "manager_reachable m" and "a \<noteq> []" and "register_address a m = (i, m1)"
    and "ClearAll \<notin> set xs"
  shows "(rega_id b (fold manager_step xs m1) = i \<longleftrightarrow> to_upper b = to_upper a) \<and>
     rega_address i (fold manager_step xs m1) = to_upper a \<and> i \<noteq> 0"
proof -
  have m1: "m1 = manager_step (RegisterAddress a) m" using assms(3) by simp
  let ?m = "fold manager_step xs m1"
  have inv: "rega_inv ?m"
    unfolding m1 by (intro rega_inv_reachable reachable_run manager_reachable.step assms(1))
  have "map_of (rega_id_by_address m1) (to_upper a) = Some i"
    using assms(2,3) by (auto simp: register_address_def Let_def split: option.splits)
  then have a: "map_of (rega_id_by_address ?m) (to_upper a) = Some i"
    by (rule rega_id_kept)
  then have addr: "map_of (rega_address_by_id ?m) i = Some (to_upper a)" and pos: "i \<noteq> 0"
    using inv by (simp_all add: rega_inv_def rega_device_id_base_def) (metis not_numeral_le_zero)
  moreover have "rega_id b ?m = i \<longleftrightarrow> to_upper b = to_upper a"
  proof
    assume "rega_id b ?m = i"
    with pos have "map_of (rega_id_by_address ?m) (to_upper b) = Some i"
      by (auto simp: rega_id_def split: option.splits)
    with inv have "map_of (rega_address_by_id ?m) i = Some (to_upper b)"
      by (simp add: rega_inv_def)
    with addr show "to_upper b = to_upper a" by simp
  next
    assume "to_upper b = to_upper a"
    with a show "rega_id b ?m = i" by (simp add: rega_id_def)
  qed
  ultimately show ?thesis by (simp add: rega_address_def)
qed

text \<open>C12. The two indexes of the system variables are one table: as long as no client adds a variable
  whose name or id is taken, a lookup by name and a lookup by id see the same variables with the same
  values.\<close>

theorem sysvar_views_agree:
  "tidy_reachable m \<Longrightarrow>
   (system_variable_by_name n m = Some v) = (system_variable_by_id (sv_id v) m = Some v \<and> sv_name v = n)"
  using tidy_inv views_agree by blast

text \<open>Writing a system variable through its name changes exactly that variable, in both views,
  stamps it, and tells every observer once, with the name and the new value.\<close>

theorem sysvar_set_effect:
  assumes "tidy_reachable m" and "set_system_variable name v now m = (True, calls, m')"
  shows "\<exists>old. system_variable_by_name name m = Some old \<and>
     calls = map (\<lambda>cb. (cb, name, v)) (sysvar_callbacks m) \<and>
     system_variable_by_id (sv_id old) m' = Some (old\<lparr>sv_value := v, sv_timestamp := now\<rparr>) \<and>
     system_variable_by_name name m' = Some (old\<lparr>sv_value := v, sv_timestamp := now\<rparr>) \<and>
     (\<forall>i. i \<noteq> sv_id old \<longrightarrow> system_variable_by_id i m' = system_variable_by_id i m) \<and>
     (\<forall>n. n \<noteq> name \<longrightarrow> system_variable_by_name n m' = system_variable_by_name n m)"
proof -
  have ok: "sv_cells_ok m" "sv_coherent m" using tidy_inv [OF assms(1)] by auto
  have calls: "calls = map (\<lambda>cb. (cb, name, v)) (sysvar_callbacks m)"
    using assms(2) by (auto simp: set_system_variable_def split: option.splits)
  obtain old where "system_variable_by_name name m = Some old"
    and "\<And>i. system_variable_by_id i m' =
           (if i = sv_id old then Some (old\<lparr>sv_value := v, sv_timestamp := now\<rparr>) else system_variable_by_id i m)"
    and "\<And>n. system_variable_by_name n m' =
           (if n = name then Some (old\<lparr>sv_value := v, sv_timestamp := now\<rparr>) else system_variable_by_name n m)"
    using set_effect [OF ok assms(2)] by blast
  with calls show ?thesis by (intro exI [of _ old]) simp
qed

text \<open>An automatic id is fresh: as long as the ids clients choose themselves stay below where the
  counters start, adding a program, a variable, a room or a function without an id never replaces an
  existing one.\<close>

theorem auto_ids_fresh:
  assumes "\<forall>x \<in> set xs. low_ids x" and "m = fold manager_step xs (new_state mode serial)"
  shows "program_by_id (prog_id (fst (add_program n d act 0 m))) m = None \<and>
     map_of (sysvars m) (sv_id (fst (add_system_variable n ty v (opts\<lparr>o_id := 0\<rparr>) now m))) = None \<and>
     room_by_id (room_id (fst (add_room n d cs 0 m))) m = None \<and>
     function_by_id (room_id (fst (add_function n d cs 0 m))) m = None"
proof -
  have start: "counters_ok (new_state mode serial)"
    by (simp add: counters_ok_def new_state_def)
  have "counters_ok (fold manager_step xs s)" if "counters_ok s" "\<forall>x \<in> set xs. low_ids x" for s :: "'a manager"
    using that by (induction xs arbitrary: s) (auto intro: counters_ok_step)
  with start assms have "counters_ok m" by blast
  then show ?thesis
    by (simp add: counters_ok_def add_program_def add_system_variable_def add_room_def add_function_def
        Let_def program_by_id_def room_by_id_def function_by_id_def keys_below_fresh)
qed

text \<open>Clearing a service message by id removes that message and no other one, and says whether it
  was there.\<close>

theorem clear_message_exact:
  assumes "manager_reachable m" and "clear_service_message i m = (b, m')"
  shows "b = (\<exists>msg \<in> set (service_messages m). sm_id msg = i) \<and>
     service_messages m' = filter (\<lambda>msg. sm_id msg \<noteq> i) (service_messages m)"
  using assms clear_message_filter [OF messages_ok_reachable [OF assms(1)], of i] by auto

text \<open>C13. A backup started with a positive delay completes by itself: however often and at whatever
  times a client polls, every answer is ``running'' with the pid of the start until the first poll at
  least the delay after the start, and from then on the same completed backup, named after that
  poll, with its data.\<close>

theorem backup_completes:
  assumes "start_backup rnd t0 m = (pid, m1)" and "0 < backup_delay m"
  shows "(case List.find (\<lambda>(t, st). backup_delay m \<le> t - t0) ps of
     None \<Rightarrow> polls ps m1 = m1 \<and> bs_status (backup m1) = Running \<and> bs_pid (backup m1) = pid
   | Some (t, st) \<Rightarrow>
       bs_status (backup (polls ps m1)) = Completed \<and> bs_pid (backup (polls ps m1)) = pid \<and>
       bs_filename (backup (polls ps m1)) = backup_filename st m \<and>
       bs_size (backup (polls ps m1)) = int (length (backup_data (polls ps m1))) \<and>
       backup_data (polls ps m1) = backup_placeholder)"
proof -
  have m1: "m1 = m\<lparr>backup := (phase_status Running)\<lparr>bs_pid := pid\<rparr>, backup_started := t0\<rparr>"
    using assms(1) by (auto simp: start_backup_def Let_def)
  have "bs_status (backup m1) = Running" and "backup_delay m1 = backup_delay m" and "backup_started m1 = t0"
    and "bs_pid (backup m1) = pid"
    by (simp_all add: m1 phase_status_def)
  then have run: "polls ps m1 = (case List.find (\<lambda>(t, st). backup_delay m \<le> t - t0) ps of
      None \<Rightarrow> m1 | Some (t, st) \<Rightarrow> promote_backup t st m1)"
    using polls_running [of m1 ps] assms(2) by simp
  show ?thesis
  proof (cases "List.find (\<lambda>(t, st). backup_delay m \<le> t - t0) ps")
    case None
    then show ?thesis unfolding run by (simp add: m1 phase_status_def)
  next
    case (Some p)
    obtain t st where p: "p = (t, st)" by (cases p)
    from Some p have "backup_delay m \<le> t - t0" by (auto simp: find_Some_iff)
    with Some assms(2) show ?thesis
      unfolding run by (simp add: p promote_backup_def m1 phase_status_def backup_filename_def)
  qed
qed

text \<open>
  Three limits of the code, for the record: a variable added twice under one name leaves the first
  one reachable by id only, and deleting by name never removes it; an id a client chose may be
  handed out again by the counter; and the data of an earlier backup can be read while the next one
  is running.
\<close>

lemma readded_name_orphans:
  fixes v1 v2 :: bool
  defines "m \<equiv> snd (add_system_variable ''A'' ''BOOL'' v2 no_opts 2
      (snd (add_system_variable ''A'' ''BOOL'' v1 no_opts 1 (new_state CCU ''X''))))"
  shows "system_variable_by_name ''A'' (snd (delete_system_variable ''A'' m)) = None \<and>
     map_option sv_name (system_variable_by_id 2000 (snd (delete_system_variable ''A'' m))) = Some ''A''"
  by (simp add: m_def manager_defs new_state_def no_opts_def Let_def system_variable_by_name_def
      system_variable_by_id_def deref_def)

lemma explicit_id_replaced:
  "prog_name (fst (add_program ''B'' [] True 0 (snd (add_program ''A'' [] True 1000 (new_state CCU ''X''))))) = ''B'' \<and>
   all_programs (snd (add_program ''B'' [] True 0 (snd (add_program ''A'' [] True 1000 (new_state CCU ''X''))))) =
     [fst (add_program ''B'' [] True 0 (new_state CCU ''X''))]"
  by (simp add: add_program_def new_state_def all_programs_def Let_def)

lemma stale_backup_data:
  "backup_delay m = 0 \<Longrightarrow>
   fst (read_backup_data t st (snd (start_backup rnd t0 (complete_backup bytes f m)))) = bytes \<and>
   bs_status (fst (poll_backup t st (snd (start_backup rnd t0 (complete_backup bytes f m))))) = Running"
  by (simp add: read_backup_data_def poll_backup_def promote_backup_def start_backup_def
      complete_backup_def phase_status_def Let_def)

lemma clear_all_keeps_counters:
  "next_program (clear_all m) = next_program m \<and> next_sysvar (clear_all m) = next_sysvar m \<and>
   next_rega (clear_all m) = next_rega m \<and> rega_id a (clear_all m) = rega_id a m"
  by (simp add: clear_all_def rega_id_def)

section \<open>Witnesses\<close>

definition demo_state :: "bool manager" where
  "demo_state = new_state CCU ''OEQ0123456789''"

definition demo_vars :: "bool manager" where
  "demo_vars = manager_step (AddSysvar ''Presence'' ''BOOL'' True no_opts 1)
     (manager_step (RegisterSysvarCallback 7) demo_state)"

lemma demo_state_reachable: "manager_reachable demo_state"
  unfolding demo_state_def by (rule manager_reachable.start)

lemma demo_vars_tidy: "tidy_reachable demo_vars"
  unfolding demo_vars_def demo_state_def
  by (intro tidy_reachable.step tidy_reachable.start)
    (simp_all add: system_variable_by_name_def system_variable_by_id_def deref_def new_state_def
      register_sysvar_callback_def)

theorem rega_ids_stable_witness:
  "rega_id ''vcu1:1'' (fold manager_step [RegisterAddress ''VCU2'', RegisterAddress ''vcu1:1''] (snd (register_address ''VCU1:1'' demo_state))) = 6000"
proof -
  have r: "register_address ''VCU1:1'' demo_state = (6000, snd (register_address ''VCU1:1'' demo_state))"
    by (simp add: register_address_def demo_state_def new_state_def rega_device_id_base_def Let_def)
  have u: "to_upper ''vcu1:1'' = to_upper ''VCU1:1''" by (simp add: to_upper_def up_char_def char_of_eq_iff)
  show ?thesis
    using rega_ids_stable [OF demo_state_reachable _ r, of "[RegisterAddress ''VCU2'', RegisterAddress ''vcu1:1'']" "''vcu1:1''"] u
    by simp
qed

theorem sysvar_views_agree_witness:
  "map_option sv_name (system_variable_by_id 2000 demo_vars) = Some ''Presence''"
proof -
  have "system_variable_by_name ''Presence'' demo_vars = Some (new_sysvar 2000 ''Presence'' ''BOOL'' True no_opts 1)"
    by (simp add: demo_vars_def demo_state_def manager_defs new_state_def no_opts_def Let_def
        system_variable_by_name_def deref_def)
  then show ?thesis
    using sysvar_views_agree [OF demo_vars_tidy, of "''Presence''"] by auto
qed

theorem sysvar_set_effect_witness:
  "\<exists>old. system_variable_by_name ''Presence'' (snd (snd (set_system_variable ''Presence'' False 9 demo_vars))) =
     Some (old\<lparr>sv_value := False, sv_timestamp := 9\<rparr>)"
proof -
  let ?r = "set_system_variable ''Presence'' False 9 demo_vars"
  have "?r = (True, fst (snd ?r), snd (snd ?r))"
    by (simp add: demo_vars_def demo_state_def manager_defs new_state_def no_opts_def Let_def)
  from sysvar_set_effect [OF demo_vars_tidy this] show ?thesis by blast
qed

theorem auto_ids_fresh_witness:
  "program_by_id 1001 (fold manager_step [AddProgram ''A'' [] True 0, AddProgram ''B'' [] True 5] demo_state) = None"
proof -
  let ?xs = "[AddProgram ''A'' [] True 0, AddProgram ''B'' [] True 5] :: bool manager_op list"
  let ?m = "fold manager_step ?xs (new_state CCU ''OEQ0123456789'')"
  have "prog_id (fst (add_program ''C'' [] True 0 ?m)) = 1001"
    by (simp add: add_program_def new_state_def Let_def)
  then show ?thesis
    using auto_ids_fresh [of ?xs ?m CCU "''OEQ0123456789''" "''C''" "[]" True] by (simp add: demo_state_def)
qed

theorem clear_message_exact_witness:
  "fst (clear_service_message 5001 (manager_step (AddServiceMessage ''LOWBAT'' [] [] [] 1) demo_state)) = False"
proof -
  let ?m = "manager_step (AddServiceMessage ''LOWBAT'' [] [] [] 1) demo_state"
  have "manager_reachable ?m" by (intro manager_reachable.step demo_state_reachable)
  moreover have "service_messages ?m = [fst (add_service_message ''LOWBAT'' [] [] [] 1 demo_state)]"
    and "sm_id (fst (add_service_message ''LOWBAT'' [] [] [] 1 demo_state)) = 5000"
    by (simp_all add: add_service_message_def demo_state_def new_state_def Let_def)
  ultimately show ?thesis
    using clear_message_exact [of ?m 5001 "fst (clear_service_message 5001 ?m)" "snd (clear_service_message 5001 ?m)"]
    by simp
qed

theorem backup_completes_witness:
  "bs_status (backup (polls [(15, ''a''), (22, ''b''), (40, ''c'')]
     (snd (start_backup None 10 (demo_state\<lparr>backup_delay := 10\<rparr>))))) = Completed"
proof -
  let ?s = "start_backup None 10 (demo_state\<lparr>backup_delay := 10\<rparr>)"
  have "?s = (fst ?s, snd ?s)" by simp
  from backup_completes [OF this, of "[(15, ''a''), (22, ''b''), (40, ''c'')]"] show ?thesis by simp
qed

end
