(* ===== verification/Latin1.thy ===== *)
theory Latin1
  imports Prelude
begin

text \<open>
  \<^verbatim>\<open>internal/binrpc/latin1.go\<close>: Go strings (UTF-8 bytes) to and from ISO-8859-1. Iterating over a Go
  string yields runes as the language specifies it: an ill-formed byte yields U+FFFD and advances by
  one. Bytes of a string are numbers below 256 in the decoder of runes.
\<close>

section \<open>Runes of a string\<close>

definition cont_byte :: "nat \<Rightarrow> bool" where
  "cont_byte b \<longleftrightarrow> 0x80 \<le> b \<and> b \<le> 0xBF"

definition rune_error :: nat where
  "rune_error = 0xFFFD"

text \<open>The first rune of \<open>b # bs\<close> and how many of \<open>bs\<close> it takes.\<close>

fun decode_rune :: "nat \<Rightarrow> nat list \<Rightarrow> nat \<times> nat" where
  "decode_rune b bs =
     (if b < 0x80 then (b, 0)
      else if 0xC2 \<le> b \<and> b \<le> 0xDF then
        (case bs of
           c # _ \<Rightarrow> if cont_byte c then ((b - 0xC0) * 64 + (c - 0x80), 1) else (rune_error, 0)
         | [] \<Rightarrow> (rune_error, 0))
      else if 0xE0 \<le> b \<and> b \<le> 0xEF then
        (case bs of
           c # d # _ \<Rightarrow>
             if (if b = 0xE0 then 0xA0 else 0x80) \<le> c \<and> c \<le> (if b = 0xED then 0x9F else 0xBF) \<and> cont_byte d
             then (((b - 0xE0) * 64 + (c - 0x80)) * 64 + (d - 0x80), 2) else (rune_error, 0)
         | _ \<Rightarrow> (rune_error, 0))
      else if 0xF0 \<le> b \<and> b \<le> 0xF4 then
        (case bs of
           c # d # e # _ \<Rightarrow>
             if (if b = 0xF0 then 0x90 else 0x80) \<le> c \<and> c \<le> (if b = 0xF4 then 0x8F else 0xBF) \<and>
                cont_byte d \<and> cont_byte e
             then ((((b - 0xF0) * 64 + (c - 0x80)) * 64 + (d - 0x80)) * 64 + (e - 0x80), 3)
             else (rune_error, 0)
         | _ \<Rightarrow> (rune_error, 0))
      else (rune_error, 0))"

declare decode_rune.simps [simp del]

function runes :: "nat list \<Rightarrow> nat list" where
  "runes [] = []"
| "runes (b # bs) = (case decode_rune b bs of (r, n) \<Rightarrow> r # runes (drop n bs))"
  by pat_completeness auto
termination
  by (relation "measure length") auto

fun encode_rune :: "nat \<Rightarrow> nat list" where
  "encode_rune r =
     (if r < 0x80 then [r]
      else if r < 0x800 then [0xC0 + r div 64, 0x80 + r mod 64]
      else if r < 0x10000 then [0xE0 + r div 4096, 0x80 + r div 64 mod 64, 0x80 + r mod 64]
      else [0xF0 + r div 262144, 0x80 + r div 4096 mod 64, 0x80 + r div 64 mod 64, 0x80 + r mod 64])"

declare encode_rune.simps [simp del]

lemma decode_encode_rune:
  "r < 256 \<Longrightarrow> runes (encode_rune r @ bs) = r # runes bs"
proof -
  assume r: "r < 256"
  show ?thesis
  proof (cases "r < 128")
    case True
    then show ?thesis by (simp add: encode_rune.simps decode_rune.simps)
  next
    case False
    define q where "q = r div 64"
    define m where "m = r mod 64"
    have qm: "r = q * 64 + m" "m < 64" by (simp_all add: q_def m_def)
    then have q: "2 \<le> q" "q \<le> 3" using r False by simp_all
    have "encode_rune r = [0xC0 + q, 0x80 + m]"
      using r False by (simp add: encode_rune.simps q_def m_def)
    moreover have "decode_rune (0xC0 + q) ((0x80 + m) # bs) = (r, 1)"
      using q qm by (simp add: decode_rune.simps cont_byte_def)
    ultimately show ?thesis by simp
  qed
qed

text \<open>A rune below 256 was written in one or two bytes, and only in those.\<close>

lemma encode_decode_rune:
  assumes "decode_rune b bs = (r, n)" and "r < 256"
  shows "b # bs = encode_rune r @ drop n bs"
proof -
  have cases: "(b < 0x80 \<and> r = b \<and> n = 0) \<or>
      (\<exists>c cs. bs = c # cs \<and> 0xC2 \<le> b \<and> b \<le> 0xDF \<and> cont_byte c \<and> r = (b - 0xC0) * 64 + (c - 0x80) \<and> n = 1)"
    using assms by (auto simp: decode_rune.simps rune_error_def split: if_splits list.splits)
  then show ?thesis
  proof (elim disjE exE conjE)
    fix c cs
    assume c: "bs = c # cs" "0xC2 \<le> b" "b \<le> 0xDF" "cont_byte c" "r = (b - 0xC0) * 64 + (c - 0x80)" "n = 1"
    obtain x y where x: "b = 0xC0 + x" and y: "c = 0x80 + y" "y < 64"
      using c(2,4) by (auto simp: cont_byte_def nat_le_iff_add)
    with c(2,5) have r: "r = x * 64 + y" "2 \<le> x" by simp_all
    with y have "r div 64 = x" "r mod 64 = y" "0x80 \<le> r" by simp_all
    with assms(2) have "encode_rune r = [b, c]" by (simp add: encode_rune.simps x y)
    with c show ?thesis by simp
  qed (simp add: encode_rune.simps)
qed

lemma runes_unique: "\<forall>r \<in> set (runes bs). r < 256 \<Longrightarrow> concat (map encode_rune (runes bs)) = bs"
proof (induction bs rule: runes.induct)
  case (2 b bs)
  obtain r n where rn: "decode_rune b bs = (r, n)" by (cases "decode_rune b bs")
  with 2 have "r < 256" "concat (map encode_rune (runes (drop n bs))) = drop n bs" by auto
  moreover have "runes (b # bs) = r # runes (drop n bs)" by (simp add: rn)
  ultimately show ?case using encode_decode_rune [OF rn] by (simp del: runes.simps)
qed simp

lemma runes_concat: "\<forall>r \<in> set rs. r < 256 \<Longrightarrow> runes (concat (map encode_rune rs)) = rs"
  by (induction rs) (simp_all add: decode_encode_rune)

lemma encode_rune_byte: "r < 256 \<Longrightarrow> \<forall>b \<in> set (encode_rune r). b < 256"
  by (auto simp: encode_rune.simps)

section \<open>ISO-8859-1\<close>

definition string_bytes :: "string \<Rightarrow> nat list" where
  "string_bytes s = map of_char s"

definition bytes_string :: "nat list \<Rightarrow> string" where
  "bytes_string bs = map char_of bs"

lemma bytes_string_bytes [simp]: "bytes_string (string_bytes s) = s"
  by (simp add: bytes_string_def string_bytes_def comp_def)

lemma string_bytes_string: "\<forall>b \<in> set bs. b < 256 \<Longrightarrow> string_bytes (bytes_string bs) = bs"
  by (induction bs) (auto simp: bytes_string_def string_bytes_def take_bit_eq_mod)

definition latin1_decode :: "8 word list \<Rightarrow> string" where
  "latin1_decode raw = bytes_string (concat (map (\<lambda>b. encode_rune (unat b)) raw))"

text \<open>Strict encoding; \<open>None\<close> is the error for the first rune above U+00FF.\<close>

definition latin1_encode :: "string \<Rightarrow> 8 word list option" where
  "latin1_encode s =
     (if \<exists>r \<in> set (runes (string_bytes s)). 0xFF < r then None
      else Some (map word_of_nat (runes (string_bytes s))))"

definition encode_latin1_lossy :: "string \<Rightarrow> 8 word list" where
  "encode_latin1_lossy s = map (\<lambda>r. if 0xFF < r then of_char (CHR ''?'') else word_of_nat r) (runes (string_bytes s))"

lemma string_bytes_latin1_decode:
  "string_bytes (latin1_decode raw) = concat (map encode_rune (map unat raw))"
  unfolding latin1_decode_def
  by (subst string_bytes_string) (auto simp: comp_def dest!: encode_rune_byte [OF unat_lt_256, THEN bspec, rotated])

lemma runes_latin1_decode: "runes (string_bytes (latin1_decode raw)) = map unat raw"
  unfolding string_bytes_latin1_decode by (rule runes_concat) (auto simp: unat_lt_256)

lemma latin1_encode_decode: "latin1_encode (latin1_decode raw) = Some raw"
proof -
  have "\<not> 255 < unat b" for b :: "8 word" using unat_lt_256 [of b] by simp
  then show ?thesis by (simp add: latin1_encode_def runes_latin1_decode comp_def)
qed

lemma latin1_decode_encode: "latin1_encode s = Some raw \<Longrightarrow> latin1_decode raw = s"
proof -
  assume "latin1_encode s = Some raw"
  then have small: "\<forall>r \<in> set (runes (string_bytes s)). r < 256"
    and raw: "raw = map word_of_nat (runes (string_bytes s))"
    by (auto simp: latin1_encode_def split: if_splits)
  have "map unat raw = runes (string_bytes s)"
    unfolding raw using small by (auto simp: comp_def unat_of_nat take_bit_eq_mod intro!: map_idI)
  then have "latin1_decode raw = bytes_string (concat (map encode_rune (runes (string_bytes s))))"
    by (simp add: latin1_decode_def comp_def flip: \<open>map unat raw = runes (string_bytes s)\<close>)
  with runes_unique [OF small] show ?thesis by simp
qed

section \<open>Properties\<close>

text \<open>C14. ISO-8859-1 bytes survive the way through a Go string, and every string the strict encoder
  accepts survives the way through the wire; on those the lossy encoder of the ReGa endpoint
  agrees with it.\<close>

theorem latin1_roundtrip:
  "latin1_encode (latin1_decode raw) = Some raw \<and>
   (\<forall>b. latin1_encode s = Some b \<longrightarrow> latin1_decode b = s \<and> encode_latin1_lossy s = b)"
  using latin1_encode_decode latin1_decode_encode
  by (auto simp: latin1_encode_def encode_latin1_lossy_def split: if_splits)

theorem latin1_roundtrip_witness:
  "latin1_decode [0xB0, 0x43] = [CHR 0xC2, CHR 0xB0, CHR ''C''] \<and> encode_latin1_lossy [CHR 0xC2, CHR 0xB0, CHR ''C''] = [0xB0, 0x43]"
proof -
  have "latin1_encode [CHR 0xC2, CHR 0xB0, CHR ''C''] = Some [0xB0, 0x43]" by code_simp
  with latin1_roundtrip [of "[]" "[CHR 0xC2, CHR 0xB0, CHR ''C'']"] show ?thesis by blast
qed

end
