(* ===== verification/Float64.thy ===== *)
theory Float64
  imports Prelude "HOL-Library.Log_Nat"
begin

text \<open>
  Go's \<open>float64\<close>: a NaN, the infinities, negative zero, and the finite values as rationals (zero
  included). Arithmetic rounds to nearest, ties to even, with 53 bits of precision, the exponent
  range of binary64 and gradual underflow, so every operation computes.
\<close>

datatype f64 = NaN | Inf bool | NegZero | Fin rat

section \<open>Powers of two and binary logarithm\<close>

definition pow2 :: "int \<Rightarrow> rat" where
  "pow2 e = (if 0 \<le> e then 2 ^ nat e else 1 / 2 ^ nat (- e))"

lemma pow2_pos [simp]: "0 < pow2 e"
  by (simp add: pow2_def)

lemma pow2_nonzero [simp]: "pow2 e \<noteq> 0"
  using pow2_pos [of e] by linarith

lemma pow2_0 [simp]: "pow2 0 = 1"
  by (simp add: pow2_def)

lemma pow2_succ: "pow2 (e + 1) = 2 * pow2 e"
proof (cases "0 \<le> e")
  case True
  then have "nat (e + 1) = Suc (nat e)" by simp
  with True show ?thesis by (simp add: pow2_def)
next
  case False
  then have "nat (- e) = Suc (nat (- (e + 1)))" by simp
  with False show ?thesis by (auto simp: pow2_def)
qed

lemma pow2_add_nat: "pow2 (e + int n) = pow2 e * 2 ^ n"
proof (induction n)
  case (Suc n)
  have "pow2 (e + int (Suc n)) = pow2 (e + int n + 1)" by (simp add: algebra_simps)
  with Suc show ?case by (simp add: pow2_succ)
qed simp

lemma pow2_add: "pow2 (a + b) = pow2 a * pow2 b"
proof (cases "0 \<le> b")
  case True
  with pow2_add_nat [of a "nat b"] show ?thesis by (simp add: pow2_def)
next
  case False
  with pow2_add_nat [of "a + b" "nat (- b)"] have "pow2 a = pow2 (a + b) * 2 ^ nat (- b)" by simp
  with False show ?thesis by (simp add: pow2_def)
qed

lemma pow2_minus: "pow2 (- a) = 1 / pow2 a"
  using pow2_add [of a "- a"] by (simp add: field_simps)

lemma pow2_diff: "pow2 (a - b) = pow2 a / pow2 b"
  using pow2_add [of a "- b"] by (simp add: pow2_minus)

lemma pow2_mono: "a \<le> b \<Longrightarrow> pow2 a \<le> pow2 b"
proof -
  assume "a \<le> b"
  then have "pow2 b = pow2 a * 2 ^ nat (b - a)"
    using pow2_add_nat [of a "nat (b - a)"] by simp
  moreover have "(1::rat) \<le> 2 ^ nat (b - a)" by simp
  ultimately show ?thesis
    using mult_left_mono [of 1 "2 ^ nat (b - a)" "pow2 a"] less_imp_le [OF pow2_pos [of a]] by simp
qed

lemma pow2_less_iff: "pow2 a < pow2 b \<longleftrightarrow> a < b"
proof
  show "pow2 a < pow2 b \<Longrightarrow> a < b"
    using pow2_mono [of b a] by (force simp: not_less)
  assume "a < b"
  then have "pow2 (a + 1) \<le> pow2 b" by (intro pow2_mono) simp
  then show "pow2 a < pow2 b" using pow2_pos [of a] unfolding pow2_succ by linarith
qed

lemma pow2_int: "0 \<le> e \<Longrightarrow> pow2 e = of_int (2 ^ nat e)"
  by (simp add: pow2_def)

text \<open>The exponent of the highest bit of a positive rational.\<close>

definition ilog2 :: "rat \<Rightarrow> int" where
  "ilog2 q = (case quotient_of q of
     (n, d) \<Rightarrow> (let k = bitlen n - bitlen d in if pow2 k \<le> q then k else k - 1))"

lemma bitlen_pow2: "0 < n \<Longrightarrow> pow2 (bitlen n - 1) \<le> of_int n \<and> of_int n < pow2 (bitlen n)"
proof -
  assume n: "0 < n"
  have "0 < bitlen n" using n by (metis bitlen_eq_zero_iff bitlen_nonneg linorder_not_le order_le_less)
  then have "pow2 (bitlen n - 1) = of_int (2 ^ nat (bitlen n - 1))" and "pow2 (bitlen n) = of_int (2 ^ nat (bitlen n))"
    by (simp_all add: pow2_int)
  with bitlen_bounds [OF n] show ?thesis by (simp only: of_int_le_iff of_int_less_iff)
qed

lemma ilog2_bounds:
  assumes "0 < q"
  shows "pow2 (ilog2 q) \<le> q" and "q < pow2 (ilog2 q + 1)"
proof -
  obtain n d where nd: "quotient_of q = (n, d)" by (cases "quotient_of q")
  then have d: "0 < d" and q: "q = of_int n / of_int d"
    by (auto dest: quotient_of_denom_pos quotient_of_div)
  with assms have n: "0 < n" by (simp add: zero_less_divide_iff)
  let ?k = "bitlen n - bitlen d"
  note bn = bitlen_pow2 [OF n] and bd = bitlen_pow2 [OF d]
  have "q * of_int d = of_int n" using d q by simp
  have "q < pow2 (?k + 1)"
  proof -
    have "of_int n < pow2 (?k + 1) * pow2 (bitlen d - 1)"
      using bn by (simp add: pow2_add [symmetric])
    also have "\<dots> \<le> pow2 (?k + 1) * of_int d"
      using bd by (intro mult_left_mono) (simp_all add: less_imp_le)
    finally show ?thesis using d q by (simp add: pos_divide_less_eq)
  qed
  moreover have "pow2 (?k - 1) < q"
  proof -
    have "pow2 (?k - 1) * of_int d < pow2 (?k - 1) * pow2 (bitlen d)"
      using bd by (intro mult_strict_left_mono) simp_all
    also have "\<dots> = pow2 (bitlen n - 1)"
      by (simp add: pow2_add [symmetric])
    also have "\<dots> \<le> of_int n" using bn by simp
    finally show ?thesis using d q by (simp add: pos_less_divide_eq)
  qed
  ultimately show "pow2 (ilog2 q) \<le> q" and "q < pow2 (ilog2 q + 1)"
    by (auto simp: ilog2_def nd Let_def less_imp_le)
qed

lemma ilog2_unique: "pow2 k \<le> q \<Longrightarrow> q < pow2 (k + 1) \<Longrightarrow> ilog2 q = k"
proof -
  assume k: "pow2 k \<le> q" "q < pow2 (k + 1)"
  then have "0 < q" using pow2_pos [of k] by linarith
  from ilog2_bounds [OF this] k have "pow2 k < pow2 (ilog2 q + 1)" and "pow2 (ilog2 q) < pow2 (k + 1)"
    by linarith+
  then show ?thesis by (simp add: pow2_less_iff)
qed

section \<open>Rounding\<close>

definition round_even :: "rat \<Rightarrow> int" where
  "round_even x = (let f = \<lfloor>x\<rfloor>; r = x - of_int f
     in if r < 1 / 2 \<or> (r = 1 / 2 \<and> even f) then f else f + 1)"

lemma round_even_int [simp]: "round_even (of_int n) = n"
  by (simp add: round_even_def)

lemma round_even_error: "\<bar>of_int (round_even x) - x\<bar> \<le> 1 / 2"
proof -
  have "of_int \<lfloor>x\<rfloor> \<le> x" "x < of_int \<lfloor>x\<rfloor> + 1" by linarith+
  then show ?thesis unfolding round_even_def Let_def by (auto split: if_split)
qed

definition ulp_exp :: "rat \<Rightarrow> int" where
  "ulp_exp q = max (ilog2 q - 52) (- 1074)"

definition round_f64 :: "rat \<Rightarrow> f64" where
  "round_f64 q =
     (if q = 0 then Fin 0
      else (let e = ulp_exp \<bar>q\<bar>; v = of_int (round_even (\<bar>q\<bar> / pow2 e)) * pow2 e
            in if pow2 1024 \<le> v then Inf (q < 0)
               else if v = 0 then (if q < 0 then NegZero else Fin 0)
               else Fin (if q < 0 then - v else v)))"

text \<open>The rationals that are values of the type.\<close>

definition representable :: "rat \<Rightarrow> bool" where
  "representable q \<longleftrightarrow> \<bar>q\<bar> < pow2 1024 \<and>
     (\<exists>m e. q = of_int m * pow2 e \<and> \<bar>m\<bar> < 2 ^ 53 \<and> - 1074 \<le> e)"

lemma round_representable: "representable q \<Longrightarrow> round_f64 q = Fin q"
proof (cases "q = 0")
  case True
  then show ?thesis by (simp add: round_f64_def)
next
  case False
  assume "representable q"
  then obtain m e where q: "q = of_int m * pow2 e" and m: "\<bar>m\<bar> < 2 ^ 53" and e: "- 1074 \<le> e"
    and big: "\<bar>q\<bar> < pow2 1024"
    by (auto simp: representable_def)
  have aq: "\<bar>q\<bar> = of_int \<bar>m\<bar> * pow2 e"
    by (simp add: q abs_mult less_imp_le)
  have "\<bar>q\<bar> < of_int (2 ^ 53) * pow2 e"
    unfolding aq using m by (intro mult_strict_right_mono) (simp_all only: of_int_less_iff pow2_pos)
  also have "\<dots> = pow2 (e + 53)"
    using pow2_add_nat [of e 53] by simp
  finally have "pow2 (ilog2 \<bar>q\<bar>) < pow2 (e + 53)"
    using ilog2_bounds(1) [of "\<bar>q\<bar>"] False by simp
  then have "ilog2 \<bar>q\<bar> < e + 53" by (simp add: pow2_less_iff)
  then have le: "ulp_exp \<bar>q\<bar> \<le> e" using e by (simp add: ulp_exp_def)
  let ?u = "ulp_exp \<bar>q\<bar>"
  have "\<bar>q\<bar> / pow2 ?u = of_int \<bar>m\<bar> * pow2 (e - ?u)"
    by (simp add: aq pow2_diff)
  also have "\<dots> = of_int (\<bar>m\<bar> * 2 ^ nat (e - ?u))"
    using le by (simp add: pow2_int)
  finally have same: "of_int (round_even (\<bar>q\<bar> / pow2 ?u)) * pow2 ?u = \<bar>q\<bar>"
    by (metis round_even_int nonzero_divide_eq_eq pow2_nonzero)
  show ?thesis
    unfolding round_f64_def Let_def same using False big by auto
qed


section \<open>Operations\<close>

fun is_neg :: "f64 \<Rightarrow> bool" where
  "is_neg NaN = False"
| "is_neg (Inf s) = s"
| "is_neg NegZero = True"
| "is_neg (Fin q) = (q < 0)"

fun is_zero :: "f64 \<Rightarrow> bool" where
  "is_zero NegZero = True"
| "is_zero (Fin q) = (q = 0)"
| "is_zero x = False"

definition zero_of :: "bool \<Rightarrow> f64" where
  "zero_of s = (if s then NegZero else Fin 0)"

fun f64_mul :: "f64 \<Rightarrow> f64 \<Rightarrow> f64" where
  "f64_mul NaN y = NaN"
| "f64_mul x NaN = NaN"
| "f64_mul (Inf s) y = (if is_zero y then NaN else Inf (s \<noteq> is_neg y))"
| "f64_mul x (Inf s) = (if is_zero x then NaN else Inf (s \<noteq> is_neg x))"
| "f64_mul NegZero y = zero_of (\<not> is_neg y)"
| "f64_mul x NegZero = zero_of (\<not> is_neg x)"
| "f64_mul (Fin p) (Fin q) =
     (if p = 0 \<or> q = 0 then zero_of ((p < 0) \<noteq> (q < 0)) else round_f64 (p * q))"

fun f64_div :: "f64 \<Rightarrow> f64 \<Rightarrow> f64" where
  "f64_div NaN y = NaN"
| "f64_div x NaN = NaN"
| "f64_div (Inf s) (Inf t) = NaN"
| "f64_div (Inf s) y = Inf (s \<noteq> is_neg y)"
| "f64_div x (Inf s) = zero_of (is_neg x \<noteq> s)"
| "f64_div x y =
     (if is_zero y then (if is_zero x then NaN else Inf (is_neg x \<noteq> is_neg y))
      else (case (x, y) of
              (Fin p, Fin q) \<Rightarrow> if p = 0 then zero_of (q < 0) else round_f64 (p / q)
            | _ \<Rightarrow> zero_of (is_neg x \<noteq> is_neg y)))"

fun f64_neg :: "f64 \<Rightarrow> f64" where
  "f64_neg NaN = NaN"
| "f64_neg (Inf s) = Inf (\<not> s)"
| "f64_neg NegZero = Fin 0"
| "f64_neg (Fin q) = (if q = 0 then NegZero else Fin (- q))"

fun f64_add :: "f64 \<Rightarrow> f64 \<Rightarrow> f64" where
  "f64_add NaN y = NaN"
| "f64_add x NaN = NaN"
| "f64_add (Inf s) (Inf t) = (if s = t then Inf s else NaN)"
| "f64_add (Inf s) y = Inf s"
| "f64_add x (Inf s) = Inf s"
| "f64_add NegZero y = y"
| "f64_add x NegZero = x"
| "f64_add (Fin p) (Fin q) = round_f64 (p + q)"

definition f64_sub :: "f64 \<Rightarrow> f64 \<Rightarrow> f64" where
  "f64_sub x y = f64_add x (f64_neg y)"

text \<open>Comparisons with a NaN are false; the two zeros are equal.\<close>

fun f64_less :: "f64 \<Rightarrow> f64 \<Rightarrow> bool" where
  "f64_less NaN y = False"
| "f64_less x NaN = False"
| "f64_less (Inf s) (Inf t) = (s \<and> \<not> t)"
| "f64_less (Inf s) y = s"
| "f64_less x (Inf t) = (\<not> t)"
| "f64_less NegZero NegZero = False"
| "f64_less NegZero (Fin q) = (0 < q)"
| "f64_less (Fin p) NegZero = (p < 0)"
| "f64_less (Fin p) (Fin q) = (p < q)"

definition f64_eq :: "f64 \<Rightarrow> f64 \<Rightarrow> bool" where
  "f64_eq x y = (x \<noteq> NaN \<and> y \<noteq> NaN \<and> \<not> f64_less x y \<and> \<not> f64_less y x)"

definition f64_le :: "f64 \<Rightarrow> f64 \<Rightarrow> bool" where
  "f64_le x y = (f64_less x y \<or> f64_eq x y)"

text \<open>\<open>math.Floor\<close> and the conversion that truncates towards zero (in range).\<close>

fun f64_floor :: "f64 \<Rightarrow> f64" where
  "f64_floor (Fin q) = Fin (of_int \<lfloor>q\<rfloor>)"
| "f64_floor x = x"

definition trunc_rat :: "rat \<Rightarrow> int" where
  "trunc_rat q = (if 0 \<le> q then \<lfloor>q\<rfloor> else \<lceil>q\<rceil>)"

definition f64_of_int :: "int \<Rightarrow> f64" where
  "f64_of_int n = round_f64 (of_int n)"

text \<open>\<open>math.Pow(2, n)\<close> for an integer \<open>n\<close>: the power of two, rounded.\<close>

definition f64_pow2 :: "int \<Rightarrow> f64" where
  "f64_pow2 n = (if 1024 \<le> n then Inf False else if n < - 1074 then Fin 0 else Fin (pow2 n))"

lemma representable_intI:
  "q = of_int m * pow2 e \<Longrightarrow> \<bar>m\<bar> < 2 ^ 53 \<Longrightarrow> - 1074 \<le> e \<Longrightarrow> e \<le> 971 \<Longrightarrow> representable q"
proof -
  assume q: "q = of_int m * pow2 e" and m: "\<bar>m\<bar> < 2 ^ 53" and e: "- 1074 \<le> e" "e \<le> 971"
  have "\<bar>q\<bar> = of_int \<bar>m\<bar> * pow2 e" by (simp add: q abs_mult less_imp_le)
  also have "\<dots> < of_int (2 ^ 53) * pow2 e"
    using m by (intro mult_strict_right_mono) (simp_all only: of_int_less_iff pow2_pos)
  also have "\<dots> = pow2 (e + 53)" using pow2_add_nat [of e 53] by simp
  also have "\<dots> \<le> pow2 1024" using e by (intro pow2_mono) simp
  finally show ?thesis using q m e by (auto simp: representable_def)
qed

lemma f64_mul_exact:
  "p \<noteq> 0 \<Longrightarrow> q \<noteq> 0 \<Longrightarrow> representable (p * q) \<Longrightarrow> f64_mul (Fin p) (Fin q) = Fin (p * q)"
  by (simp add: round_representable)

lemma f64_div_exact:
  "p \<noteq> 0 \<Longrightarrow> q \<noteq> 0 \<Longrightarrow> representable (p / q) \<Longrightarrow> f64_div (Fin p) (Fin q) = Fin (p / q)"
  by (simp add: round_representable)

end
