(* ===== verification/Xml_Value.thy ===== *)
theory Xml_Value
  imports Float64 "HOL-Library.List_Lexorder"
begin

text \<open>
  The value tree of \<^verbatim>\<open>internal/xmlrpc/value.go\<close>, which every transport carries, and its conversion
  to and from loosely typed Go values (\<^verbatim>\<open>internal/xmlrpc/convert.go\<close>). A nil interface is a
  constructor of its own; a time is its number of seconds. Of the Go values \<open>FromAny\<close> accepts, the
  model has those the program passes: nil, booleans, the integer types (as their value), \<open>float64\<close>,
  strings, byte slices, times, slices and string-keyed maps.
\<close>

section \<open>Values\<close>

datatype xvalue =
    VNull
  | VNil
  | VInt "32 word"
  | VBool bool
  | VStr string
  | VDouble f64
  | VDateTime int
  | VBase64 "8 word list"
  | VStruct "(string \<times> xvalue) list"
  | VArray "xvalue list"

datatype kind = KindNil | KindInt | KindBool | KindString | KindDouble | KindDateTime | KindBase64 | KindStruct | KindArray

text \<open>Calling \<open>Kind\<close> on a nil interface panics: \<open>None\<close>.\<close>

fun kind_of :: "xvalue \<Rightarrow> kind option" where
  "kind_of VNull = None"
| "kind_of VNil = Some KindNil"
| "kind_of (VInt n) = Some KindInt"
| "kind_of (VBool b) = Some KindBool"
| "kind_of (VStr s) = Some KindString"
| "kind_of (VDouble d) = Some KindDouble"
| "kind_of (VDateTime t) = Some KindDateTime"
| "kind_of (VBase64 b) = Some KindBase64"
| "kind_of (VStruct ms) = Some KindStruct"
| "kind_of (VArray vs) = Some KindArray"

fun kind_string :: "kind \<Rightarrow> string" where
  "kind_string KindNil = ''nil''"
| "kind_string KindInt = ''int''"
| "kind_string KindBool = ''boolean''"
| "kind_string KindString = ''string''"
| "kind_string KindDouble = ''double''"
| "kind_string KindDateTime = ''dateTime.iso8601''"
| "kind_string KindBase64 = ''base64''"
| "kind_string KindStruct = ''struct''"
| "kind_string KindArray = ''array''"

text \<open>\<open>StructValue.Get\<close>: the first member of that name.\<close>

definition struct_get :: "string \<Rightarrow> (string \<times> xvalue) list \<Rightarrow> xvalue option" where
  "struct_get name ms = map_of ms name"

fun as_string :: "xvalue \<Rightarrow> string option" where
  "as_string (VStr s) = Some s"
| "as_string v = None"

fun as_int :: "xvalue \<Rightarrow> int option" where
  "as_int (VInt n) = Some (sint n)"
| "as_int v = None"

fun as_bool :: "xvalue \<Rightarrow> bool option" where
  "as_bool (VBool b) = Some b"
| "as_bool v = None"

fun as_array :: "xvalue \<Rightarrow> xvalue list option" where
  "as_array (VArray vs) = Some vs"
| "as_array v = None"

fun as_struct :: "xvalue \<Rightarrow> (string \<times> xvalue) list option" where
  "as_struct (VStruct ms) = Some ms"
| "as_struct v = None"

section \<open>Go values\<close>

datatype gov =
    GNil
  | GBool bool
  | GInt int
  | GFloat f64
  | GStr string
  | GBytes "8 word list"
  | GTime int
  | GList "gov list"
  | GMap "(string \<times> gov) list"

fun is_integral_float :: "f64 \<Rightarrow> bool" where
  "is_integral_float NaN = False"
| "is_integral_float (Inf s) = False"
| "is_integral_float NegZero = True"
| "is_integral_float (Fin q) = (q = of_int (trunc_rat q))"

definition in_int32 :: "int \<Rightarrow> bool" where
  "in_int32 n \<longleftrightarrow> - (2 ^ 31) \<le> n \<and> n < 2 ^ 31"

text \<open>The integral value of a float, for a float that passes the two range tests.\<close>

fun float_int32 :: "f64 \<Rightarrow> int option" where
  "float_int32 NegZero = Some 0"
| "float_int32 (Fin q) =
     (if q = of_int (trunc_rat q) \<and> of_int (- (2 ^ 31)) \<le> q \<and> q \<le> of_int (2 ^ 31 - 1) then Some (trunc_rat q) else None)"
| "float_int32 x = None"

fun from_any :: "gov \<Rightarrow> xvalue" where
  "from_any GNil = VNil"
| "from_any (GBool b) = VBool b"
| "from_any (GInt n) = VInt (word_of_int n)"
| "from_any (GFloat x) = (case float_int32 x of Some n \<Rightarrow> VInt (word_of_int n) | None \<Rightarrow> VDouble x)"
| "from_any (GStr s) = VStr s"
| "from_any (GBytes b) = VBase64 b"
| "from_any (GTime t) = VDateTime t"
| "from_any (GList xs) = VArray (map from_any xs)"
| "from_any (GMap m) = VStruct (sort_key fst (map (\<lambda>(k, v). (k, from_any v)) m))"

text \<open>A struct becomes a map; of members with one name the last wins.\<close>

definition members_map :: "(string \<times> 'a) list \<Rightarrow> (string \<times> 'a) list" where
  "members_map ms = fold (\<lambda>(k, v) m. AList.update k v m) ms []"

fun to_any :: "xvalue \<Rightarrow> gov" where
  "to_any VNull = GNil"
| "to_any VNil = GNil"
| "to_any (VInt n) = GInt (sint n)"
| "to_any (VBool b) = GBool b"
| "to_any (VStr s) = GStr s"
| "to_any (VDouble d) = GFloat d"
| "to_any (VDateTime t) = GTime t"
| "to_any (VBase64 b) = GBytes b"
| "to_any (VStruct ms) = GMap (members_map (map (\<lambda>(k, v). (k, to_any v)) ms))"
| "to_any (VArray vs) = GList (map to_any vs)"

section \<open>What survives the way through the wire types\<close>

fun wire_safe :: "gov \<Rightarrow> bool" where
  "wire_safe (GInt n) = in_int32 n"
| "wire_safe (GFloat x) = (float_int32 x = None)"
| "wire_safe (GList xs) = (\<forall>x \<in> set xs. wire_safe x)"
| "wire_safe (GMap m) = (distinct (map fst m) \<and> (\<forall>(k, v) \<in> set m. wire_safe v))"
| "wire_safe g = True"

text \<open>Go maps have no order; the model's lists are compared with their entries sorted.\<close>

fun sort_maps :: "gov \<Rightarrow> gov" where
  "sort_maps (GList xs) = GList (map sort_maps xs)"
| "sort_maps (GMap m) = GMap (sort_key fst (map (\<lambda>(k, v). (k, sort_maps v)) m))"
| "sort_maps g = g"

lemma members_map_distinct: "distinct (map fst ms) \<Longrightarrow> members_map ms = ms"
proof -
  have "fold (\<lambda>(k, v) m. AList.update k v m) ms acc = acc @ ms"
    if "distinct (map fst (acc @ ms))" for acc
    using that
  proof (induction ms arbitrary: acc)
    case (Cons x ms)
    obtain k v where x: "x = (k, v)" by (cases x)
    have "k \<notin> fst ` set acc" using Cons.prems by (auto simp: x)
    then have "AList.update k v acc = acc @ [(k, v)]"
      by (induction acc) auto
    with Cons show ?case by (simp add: x)
  qed simp
  from this [of "[]"] show "distinct (map fst ms) \<Longrightarrow> ?thesis" by (simp add: members_map_def)
qed

lemma map_snd_sort: "map (\<lambda>(k, v). (k, f v)) (sort_key fst xs) = sort_key fst (map (\<lambda>(k, v). (k, f v)) xs)"
proof (induction xs)
  case (Cons x xs)
  have "map (\<lambda>(k, v). (k, f v)) (insort_key fst x ys) =
      insort_key fst (case x of (k, v) \<Rightarrow> (k, f v)) (map (\<lambda>(k, v). (k, f v)) ys)" for ys
    by (induction ys) (auto split: prod.splits)
  with Cons show ?case by simp
qed simp

lemma map_fst_sort_set: "set (map fst (sort_key fst xs)) = set (map fst xs)"
  by simp

lemma distinct_fst_sort: "distinct (map fst xs) \<Longrightarrow> distinct (map fst (sort_key fst xs))"
proof -
  assume "distinct (map fst xs)"
  from distinct_card [OF this] show ?thesis by (intro card_distinct) simp
qed

lemma to_from_any: "wire_safe g \<Longrightarrow> to_any (from_any g) = sort_maps g"
proof (induction g)
  case (GInt n)
  then show ?case by (simp add: in_int32_def signed_take_bit_int_eq_self sint_sbintrunc')
next
  case (GFloat x)
  then show ?case by simp
next
  case (GMap m)
  have fsts: "map fst (map (\<lambda>(k, v). (k, f v)) m) = map fst m" for f :: "gov \<Rightarrow> 'c"
    by (simp add: comp_def case_prod_unfold)
  let ?s = "sort_key fst (map (\<lambda>(k, v). (k, from_any v)) m)"
  have "map (\<lambda>(k, v). (k, to_any v)) ?s = sort_key fst (map (\<lambda>(k, v). (k, to_any (from_any v))) m)"
    unfolding map_snd_sort by (simp add: comp_def case_prod_unfold)
  also have "map (\<lambda>(k, v). (k, to_any (from_any v))) m = map (\<lambda>(k, v). (k, sort_maps v)) m"
    using GMap by (auto simp: snds.simps)
  finally have eq: "map (\<lambda>(k, v). (k, to_any v)) ?s = sort_key fst (map (\<lambda>(k, v). (k, sort_maps v)) m)" .
  have "distinct (map fst (sort_key fst (map (\<lambda>(k, v). (k, sort_maps v)) m)))"
    using GMap.prems by (intro distinct_fst_sort) (simp only: fsts wire_safe.simps)
  then show ?case by (simp add: eq members_map_distinct)
qed auto

section \<open>Properties\<close>

text \<open>C15. A Go value with 32-bit integers and no integral float comes back from the wire types as it
  was: \<open>ToAny\<close> undoes \<open>FromAny\<close>, maps compared as maps.\<close>

theorem any_roundtrip: "wire_safe g \<Longrightarrow> to_any (from_any g) = sort_maps g"
  by (rule to_from_any)

theorem any_roundtrip_witness:
  "to_any (from_any (GMap [(''b'', GList [GInt (- 7), GFloat (Fin (1 / 2))]), (''a'', GStr ''x'')])) =
     GMap [(''a'', GStr ''x''), (''b'', GList [GInt (- 7), GFloat (Fin (1 / 2))])]"
proof -
  have "float_int32 (Fin (1 / 2)) = None" by code_simp
  then have safe: "wire_safe (GMap [(''b'', GList [GInt (- 7), GFloat (Fin (1 / 2))]), (''a'', GStr ''x'')])"
    by (simp add: in_int32_def)
  have ab: "[CHR ''a''] \<le> [CHR ''b'']" by code_simp
  from any_roundtrip [OF safe] show ?thesis by (simp add: ab)
qed

end
