(* ===== verification/Bin_Rpc.thy ===== *)
theory Bin_Rpc
  imports Latin1 Xml_Value
begin

text \<open>
  \<^verbatim>\<open>internal/binrpc\<close>: the BIN-RPC wire format (\<^verbatim>\<open>wire.go\<close>, \<^verbatim>\<open>encode.go\<close>, \<^verbatim>\<open>decode.go\<close>). A stream or
  buffer is the list of bytes still to be read; the decoder returns what is left. An error is a
  value. \<open>int\<close> has 64 bits here, so a 32-bit count is never negative as an \<open>int\<close>.

  The floor of the binary logarithm that \<open>encodeDouble\<close> takes from \<open>math.Log\<close> is an argument: its
  last digit depends on the platform. The facts on doubles only ask that it is off by at most one.
\<close>

section \<open>Bytes\<close>

datatype wire_error =
    EmptyMethod | NilInterface | UnsupportedKind kind | NotLatin1 | NotANumber | NotFinite
  | ExponentRange | MantissaRange | PayloadTooLarge nat | FaultCodeRange int | NilFault
  | Truncated | BadMarker | UnexpectedType "8 word" | DepthExceeded | UnknownTag "32 word"
  | CountExceeds "32 word" | TrailingBytes nat | FaultNotStruct

type_synonym bytes = "8 word list"

definition put_u32 :: "32 word \<Rightarrow> bytes" where
  "put_u32 w = [ucast (drop_bit 24 w), ucast (drop_bit 16 w), ucast (drop_bit 8 w), ucast w]"

fun get_u32 :: "bytes \<Rightarrow> wire_error + (32 word \<times> bytes)" where
  "get_u32 (a # b # c # d # bs) =
     Inr (or (ucast d) (or (push_bit 8 (ucast c)) (or (push_bit 16 (ucast b)) (push_bit 24 (ucast a)))), bs)"
| "get_u32 bs = Inl Truncated"

fun get_u8 :: "bytes \<Rightarrow> wire_error + (8 word \<times> bytes)" where
  "get_u8 (b # bs) = Inr (b, bs)"
| "get_u8 [] = Inl Truncated"

definition read_n :: "nat \<Rightarrow> bytes \<Rightarrow> wire_error + (bytes \<times> bytes)" where
  "read_n n bs = (if length bs < n then Inl Truncated else Inr (take n bs, drop n bs))"

definition type_int :: "32 word" where "type_int = 0x01"
definition type_bool :: "32 word" where "type_bool = 0x02"
definition type_string :: "32 word" where "type_string = 0x03"
definition type_double :: "32 word" where "type_double = 0x04"
definition type_array :: "32 word" where "type_array = 0x100"
definition type_struct :: "32 word" where "type_struct = 0x101"

definition msg_request :: "8 word" where "msg_request = 0x00"
definition msg_response :: "8 word" where "msg_response = 0x01"
definition msg_fault :: "8 word" where "msg_fault = 0xFF"

definition max_message_size :: nat where "max_message_size = 10 * 1024 * 1024"
definition max_decode_depth :: nat where "max_decode_depth = 64"
definition min_value_wire_bytes :: nat where "min_value_wire_bytes = 4"
definition min_member_wire_bytes :: nat where "min_member_wire_bytes = 8"

definition frame_marker :: bytes where
  "frame_marker = map of_char ''Bin''"

section \<open>Doubles\<close>

definition mantissa_scale :: f64 where
  "mantissa_scale = Fin (2 ^ 30)"

text \<open>\<open>int32(x)\<close> of a float that passed the range tests; a NaN (which they let pass) gives the
  least value, as the conversion does on amd64.\<close>

fun float_bits32 :: "f64 \<Rightarrow> 32 word" where
  "float_bits32 (Fin q) = word_of_int (trunc_rat q)"
| "float_bits32 NegZero = 0"
| "float_bits32 x = 0x80000000"

definition below_int32 :: "f64 \<Rightarrow> bool" where
  "below_int32 x = f64_less x (Fin (of_int (- (2 ^ 31))))"

definition above_int32 :: "f64 \<Rightarrow> bool" where
  "above_int32 x = f64_less (Fin (of_int (2 ^ 31 - 1))) x"

definition encode_double :: "(rat \<Rightarrow> int) \<Rightarrow> f64 \<Rightarrow> wire_error + (32 word \<times> 32 word)" where
  "encode_double flog v =
     (case v of
        NaN \<Rightarrow> Inl NotANumber
      | Inf s \<Rightarrow> Inl NotFinite
      | NegZero \<Rightarrow> Inr (0, 0)
      | Fin q \<Rightarrow>
          if q = 0 then Inr (0, 0)
          else (let ex = flog \<bar>q\<bar> + 1;
                    mant = f64_floor (f64_mul (f64_mul v (f64_pow2 (- ex))) mantissa_scale)
                in if ex < - (2 ^ 31) \<or> 2 ^ 31 - 1 < ex then Inl ExponentRange
                   else if below_int32 mant \<or> above_int32 mant then Inl MantissaRange
                   else Inr (float_bits32 mant, word_of_int ex)))"

definition decode_double :: "32 word \<Rightarrow> 32 word \<Rightarrow> f64" where
  "decode_double mant ex =
     f64_div (f64_mul (f64_pow2 (sint ex)) (Fin (of_int (sint mant)))) mantissa_scale"

section \<open>Encoding\<close>

definition write_raw_string :: "string \<Rightarrow> wire_error + bytes" where
  "write_raw_string s =
     (case latin1_encode s of
        None \<Rightarrow> Inl NotLatin1
      | Some raw \<Rightarrow> Inr (put_u32 (word_of_nat (length raw)) @ raw))"

definition prepend :: "bytes \<Rightarrow> wire_error + bytes \<Rightarrow> wire_error + bytes" where
  "prepend bs r = bind_r r (\<lambda>cs. Inr (bs @ cs))"

definition write_int :: "32 word \<Rightarrow> bytes" where
  "write_int n = put_u32 type_int @ put_u32 n"

definition write_bool :: "bool \<Rightarrow> bytes" where
  "write_bool b = put_u32 type_bool @ [if b then 1 else 0]"

definition write_string :: "string \<Rightarrow> wire_error + bytes" where
  "write_string s = prepend (put_u32 type_string) (write_raw_string s)"

definition write_double :: "(rat \<Rightarrow> int) \<Rightarrow> f64 \<Rightarrow> wire_error + bytes" where
  "write_double flog d =
     bind_r (encode_double flog d) (\<lambda>(mant, ex). Inr (put_u32 type_double @ put_u32 mant @ put_u32 ex))"

fun write_value :: "(rat \<Rightarrow> int) \<Rightarrow> xvalue \<Rightarrow> wire_error + bytes"
  and write_members :: "(rat \<Rightarrow> int) \<Rightarrow> (string \<times> xvalue) list \<Rightarrow> wire_error + bytes"
  and write_values :: "(rat \<Rightarrow> int) \<Rightarrow> xvalue list \<Rightarrow> wire_error + bytes" where
  "write_value flog VNull = Inl NilInterface"
| "write_value flog VNil = write_string []"
| "write_value flog (VInt n) = Inr (write_int n)"
| "write_value flog (VBool b) = Inr (write_bool b)"
| "write_value flog (VStr s) = write_string s"
| "write_value flog (VDouble d) = write_double flog d"
| "write_value flog (VStruct ms) =
     prepend (put_u32 type_struct @ put_u32 (word_of_nat (length ms))) (write_members flog ms)"
| "write_value flog (VArray vs) =
     prepend (put_u32 type_array @ put_u32 (word_of_nat (length vs))) (write_values flog vs)"
| "write_value flog (VDateTime t) = Inl (UnsupportedKind KindDateTime)"
| "write_value flog (VBase64 b) = Inl (UnsupportedKind KindBase64)"
| "write_members flog [] = Inr []"
| "write_members flog ((name, v) # ms) =
     bind_r (write_raw_string name) (\<lambda>n.
     bind_r (write_value flog v) (\<lambda>b. prepend (n @ b) (write_members flog ms)))"
| "write_values flog [] = Inr []"
| "write_values flog (v # vs) =
     bind_r (write_value flog v) (\<lambda>b. prepend b (write_values flog vs))"

definition write_frame :: "8 word \<Rightarrow> bytes \<Rightarrow> wire_error + bytes" where
  "write_frame ty payload =
     (if max_message_size < length payload then Inl (PayloadTooLarge (length payload))
      else Inr (frame_marker @ [ty] @ put_u32 (word_of_nat (length payload)) @ payload))"

definition write_param_array :: "(rat \<Rightarrow> int) \<Rightarrow> xvalue list \<Rightarrow> wire_error + bytes" where
  "write_param_array flog ps = prepend (put_u32 (word_of_nat (length ps))) (write_values flog ps)"

definition write_request :: "(rat \<Rightarrow> int) \<Rightarrow> string \<Rightarrow> xvalue list \<Rightarrow> wire_error + bytes" where
  "write_request flog meth ps =
     (if meth = [] then Inl EmptyMethod
      else bind_r (write_raw_string meth) (\<lambda>m.
           bind_r (write_param_array flog ps) (\<lambda>a. write_frame msg_request (m @ a))))"

definition write_response :: "(rat \<Rightarrow> int) \<Rightarrow> xvalue \<Rightarrow> wire_error + bytes" where
  "write_response flog v =
     bind_r (write_value flog (if v = VNull then VStr [] else v)) (write_frame msg_response)"

record rpc_fault =
  fault_code :: int
  fault_message :: string

definition write_fault :: "(rat \<Rightarrow> int) \<Rightarrow> rpc_fault option \<Rightarrow> wire_error + bytes" where
  "write_fault flog f =
     (case f of
        None \<Rightarrow> Inl NilFault
      | Some f \<Rightarrow>
          if fault_code f < - (2 ^ 31) \<or> 2 ^ 31 - 1 < fault_code f then Inl (FaultCodeRange (fault_code f))
          else bind_r (write_value flog (VStruct [(''faultCode'', VInt (word_of_int (fault_code f))),
                                                  (''faultString'', VStr (fault_message f))]))
                 (write_frame msg_fault))"

section \<open>Decoding\<close>

definition read_raw_string :: "bytes \<Rightarrow> wire_error + (string \<times> bytes)" where
  "read_raw_string bs =
     bind_r (get_u32 bs) (\<lambda>(n, bs1).
     bind_r (read_n (unat n) bs1) (\<lambda>(raw, bs2). Inr (latin1_decode raw, bs2)))"

text \<open>
  The first argument is the number of nesting levels left: at depth \<open>d\<close> of the source it is
  \<open>65 - d\<close>, and the test \<open>depth > maxDecodeDepth\<close> is the test for 0.
\<close>

function read_value :: "nat \<Rightarrow> bytes \<Rightarrow> wire_error + (xvalue \<times> bytes)"
  and read_values :: "nat \<Rightarrow> nat \<Rightarrow> bytes \<Rightarrow> wire_error + (xvalue list \<times> bytes)"
  and read_members :: "nat \<Rightarrow> nat \<Rightarrow> bytes \<Rightarrow> wire_error + ((string \<times> xvalue) list \<times> bytes)" where
  "read_value 0 bs = Inl DepthExceeded"
| "read_value (Suc k) bs =
     bind_r (get_u32 bs) (\<lambda>(tag, bs1).
       if tag = type_int then bind_r (get_u32 bs1) (\<lambda>(n, bs2). Inr (VInt n, bs2))
       else if tag = type_bool then bind_r (get_u8 bs1) (\<lambda>(b, bs2). Inr (VBool (b \<noteq> 0), bs2))
       else if tag = type_string then bind_r (read_raw_string bs1) (\<lambda>(s, bs2). Inr (VStr s, bs2))
       else if tag = type_double then
         bind_r (get_u32 bs1) (\<lambda>(mant, bs2).
         bind_r (get_u32 bs2) (\<lambda>(ex, bs3). Inr (VDouble (decode_double mant ex), bs3)))
       else if tag = type_array then
         bind_r (get_u32 bs1) (\<lambda>(count, bs2).
           if length bs2 div min_value_wire_bytes < unat count then Inl (CountExceeds count)
           else bind_r (read_values k (unat count) bs2) (\<lambda>(vs, bs3). Inr (VArray vs, bs3)))
       else if tag = type_struct then
         bind_r (get_u32 bs1) (\<lambda>(count, bs2).
           if length bs2 div min_member_wire_bytes < unat count then Inl (CountExceeds count)
           else bind_r (read_members k (unat count) bs2) (\<lambda>(ms, bs3). Inr (VStruct ms, bs3)))
       else Inl (UnknownTag tag))"
| "read_values k 0 bs = Inr ([], bs)"
| "read_values k (Suc n) bs =
     bind_r (read_value k bs) (\<lambda>(v, bs1).
     bind_r (read_values k n bs1) (\<lambda>(vs, bs2). Inr (v # vs, bs2)))"
| "read_members k 0 bs = Inr ([], bs)"
| "read_members k (Suc n) bs =
     bind_r (read_raw_string bs) (\<lambda>(name, bs1).
     bind_r (read_value k bs1) (\<lambda>(v, bs2).
     bind_r (read_members k n bs2) (\<lambda>(ms, bs3). Inr ((name, v) # ms, bs3))))"
  by pat_completeness auto
termination
  by (relation "measures [\<lambda>x. case x of Inl (k, bs) \<Rightarrow> k | Inr (Inl (k, n, bs)) \<Rightarrow> k | Inr (Inr (k, n, bs)) \<Rightarrow> k,
                          \<lambda>x. case x of Inl (k, bs) \<Rightarrow> 0 | Inr (Inl (k, n, bs)) \<Rightarrow> Suc n | Inr (Inr (k, n, bs)) \<Rightarrow> Suc n]")
    auto

definition read_n_values :: "nat \<Rightarrow> 32 word \<Rightarrow> bytes \<Rightarrow> wire_error + (xvalue list \<times> bytes)" where
  "read_n_values k count bs =
     (if length bs div min_value_wire_bytes < unat count then Inl (CountExceeds count)
      else read_values k (unat count) bs)"

definition read_frame :: "bytes \<Rightarrow> wire_error + (8 word \<times> bytes \<times> bytes)" where
  "read_frame bs =
     bind_r (read_n 8 bs) (\<lambda>(hdr, bs1).
       if take 3 hdr \<noteq> frame_marker then Inl BadMarker
       else bind_r (get_u32 (drop 4 hdr)) (\<lambda>(size, _).
         if max_message_size < unat size then Inl (PayloadTooLarge (unat size))
         else bind_r (read_n (unat size) bs1) (\<lambda>(payload, bs2). Inr (hdr ! 3, payload, bs2))))"

definition all_read :: "'a \<times> bytes \<Rightarrow> wire_error + 'a" where
  "all_read r = (case r of (v, rest) \<Rightarrow> if rest = [] then Inr v else Inl (TrailingBytes (length rest)))"

record request =
  rq_method :: string
  rq_params :: "xvalue list"

definition read_request :: "bytes \<Rightarrow> wire_error + (request \<times> bytes)" where
  "read_request bs =
     bind_r (read_frame bs) (\<lambda>(ty, payload, rest).
       if ty \<noteq> msg_request then Inl (UnexpectedType ty)
       else bind_r (read_raw_string payload) (\<lambda>(meth, p1).
            bind_r (get_u32 p1) (\<lambda>(count, p2).
            bind_r (read_n_values (Suc max_decode_depth) count p2) (\<lambda>r.
            bind_r (all_read r) (\<lambda>ps. Inr (\<lparr>rq_method = meth, rq_params = ps\<rparr>, rest))))))"

text \<open>The loop over the members of a fault: a later member overrides, one of another type is skipped.\<close>

definition fault_member :: "string \<times> xvalue \<Rightarrow> rpc_fault \<Rightarrow> rpc_fault" where
  "fault_member m f =
     (if fst m = ''faultCode'' then (case as_int (snd m) of Some n \<Rightarrow> f\<lparr>fault_code := n\<rparr> | None \<Rightarrow> f)
      else if fst m = ''faultString'' then (case as_string (snd m) of Some s \<Rightarrow> f\<lparr>fault_message := s\<rparr> | None \<Rightarrow> f)
      else f)"

definition fault_of_members :: "(string \<times> xvalue) list \<Rightarrow> rpc_fault" where
  "fault_of_members ms = fold fault_member ms \<lparr>fault_code = 0, fault_message = []\<rparr>"

datatype response = RValue xvalue | RFault rpc_fault

definition read_response :: "bytes \<Rightarrow> wire_error + (response \<times> bytes)" where
  "read_response bs =
     bind_r (read_frame bs) (\<lambda>(ty, payload, rest).
       if ty = msg_response then
         bind_r (read_value (Suc max_decode_depth) payload) (\<lambda>r.
         bind_r (all_read r) (\<lambda>v. Inr (RValue v, rest)))
       else if ty = msg_fault then
         bind_r (read_value (Suc max_decode_depth) payload) (\<lambda>(v, _).
           case as_struct v of
             None \<Rightarrow> Inl FaultNotStruct
           | Some ms \<Rightarrow> Inr (RFault (fault_of_members ms), rest))
       else Inl (UnexpectedType ty))"

end
