(* ===== verification/Bin_Rpc_Props.thy ===== *)
theory Bin_Rpc_Props
  imports Bin_Rpc
begin

text \<open>
  The BIN-RPC codec: what is written is read back, whatever follows it on the stream; what is read
  is bounded by the bytes it came from; and the representation of doubles loses at most the bits
  below the thirtieth.
\<close>

section \<open>Codecs on a stream\<close>

fun seq_enc :: "('a \<Rightarrow> 'e + 'b list) \<Rightarrow> 'a list \<Rightarrow> 'e + 'b list" where
  "seq_enc enc [] = Inr []"
| "seq_enc enc (x # xs) = bind_r (enc x) (\<lambda>b. bind_r (seq_enc enc xs) (\<lambda>bs. Inr (b @ bs)))"

fun seq_dec :: "('b list \<Rightarrow> 'e + ('c \<times> 'b list)) \<Rightarrow> nat \<Rightarrow> 'b list \<Rightarrow> 'e + ('c list \<times> 'b list)" where
  "seq_dec dec 0 bs = Inr ([], bs)"
| "seq_dec dec (Suc n) bs =
     bind_r (dec bs) (\<lambda>(v, bs1). bind_r (seq_dec dec n bs1) (\<lambda>(vs, bs2). Inr (v # vs, bs2)))"

text \<open>A codec reads back what it wrote and leaves alone what follows.\<close>

locale prefix_codec =
  fixes enc :: "'a \<Rightarrow> 'e + 'b list"
    and dec :: "'b list \<Rightarrow> 'e + ('c \<times> 'b list)"
    and canon :: "'a \<Rightarrow> 'c"
    and ok :: "'a \<Rightarrow> bool"
  assumes dec_enc: "ok x \<Longrightarrow> enc x = Inr bs \<Longrightarrow> dec (bs @ rest) = Inr (canon x, rest)"
begin

lemma seq_roundtrip:
  "\<forall>x \<in> set xs. ok x \<Longrightarrow> seq_enc enc xs = Inr bs \<Longrightarrow>
   seq_dec dec (length xs) (bs @ rest) = Inr (map canon xs, rest)"
proof (induction xs arbitrary: bs)
  case (Cons x xs)
  then obtain b bs' where "enc x = Inr b" "seq_enc enc xs = Inr bs'" "bs = b @ bs'" by auto
  with Cons dec_enc [of x b "bs' @ rest"] show ?case by simp
qed simp

lemma prefix_free:
  "ok x \<Longrightarrow> ok y \<Longrightarrow> enc x = Inr bs \<Longrightarrow> enc y = Inr (bs @ cs) \<Longrightarrow> canon y = canon x \<and> cs = []"
  using dec_enc [of x bs cs] dec_enc [of y "bs @ cs" "[]"] by simp

lemma injective: "ok x \<Longrightarrow> ok y \<Longrightarrow> enc x = Inr bs \<Longrightarrow> enc y = Inr bs \<Longrightarrow> canon x = canon y"
  using prefix_free [of x y bs "[]"] by simp

end

section \<open>Integers and strings\<close>

lemma get_put_u32 [simp]: "get_u32 (put_u32 w @ bs) = Inr (w, bs)"
proof -
  have "or (ucast (ucast w :: 8 word)) (or (push_bit 8 (ucast (ucast (drop_bit 8 w) :: 8 word)))
     (or (push_bit 16 (ucast (ucast (drop_bit 16 w) :: 8 word))) (push_bit 24 (ucast (ucast (drop_bit 24 w) :: 8 word))))) = w"
    (is "?l = w")
  proof (rule bit_word_eqI)
    fix n
    assume "n < LENGTH(32)"
    then show "bit ?l n = bit w n"
      by (cases "n < 8"; cases "n < 16"; cases "n < 24") (auto simp: bit_simps)
  qed
  then show ?thesis by (simp add: put_u32_def)
qed

lemma length_put_u32 [simp]: "length (put_u32 w) = 4"
  by (simp add: put_u32_def)

lemma read_n_append [simp]: "n = length bs \<Longrightarrow> read_n n (bs @ cs) = Inr (bs, cs)"
  by (simp add: read_n_def)

lemma unat_word_of_nat32: "n < 2 ^ 32 \<Longrightarrow> unat (word_of_nat n :: 32 word) = n"
  by (simp add: unat_of_nat take_bit_eq_mod)

lemma raw_string_roundtrip:
  assumes "write_raw_string s = Inr bs" and "length bs < 2 ^ 32"
  shows "read_raw_string (bs @ rest) = Inr (s, rest)"
proof -
  obtain raw where raw: "latin1_encode s = Some raw" and bs: "bs = put_u32 (word_of_nat (length raw)) @ raw"
    using assms(1) by (auto simp: write_raw_string_def split: option.splits)
  with assms(2) have "unat (word_of_nat (length raw) :: 32 word) = length raw"
    by (intro unat_word_of_nat32) simp
  then show ?thesis
    by (simp add: read_raw_string_def bs latin1_decode_encode [OF raw])
qed

lemma length_write_raw_string: "write_raw_string s = Inr bs \<Longrightarrow> 4 \<le> length bs"
  by (auto simp: write_raw_string_def split: option.splits)

definition fits :: "('a \<Rightarrow> 'e + bytes) \<Rightarrow> 'a \<Rightarrow> bool" where
  "fits enc x \<longleftrightarrow> (case enc x of Inr bs \<Rightarrow> length bs < 2 ^ 32 | Inl e \<Rightarrow> False)"

interpretation raw_string_codec: prefix_codec write_raw_string read_raw_string "\<lambda>s. s" "fits write_raw_string"
  by unfold_locales (simp add: fits_def raw_string_roundtrip)

interpretation u32_codec: prefix_codec "\<lambda>w. Inr (put_u32 w)" get_u32 "\<lambda>w. w" "\<lambda>w. True"
  by unfold_locales auto

section \<open>Values\<close>

text \<open>What a value looks like after one trip: a nil is an empty string, a double is rounded.\<close>

fun wire_value :: "(rat \<Rightarrow> int) \<Rightarrow> xvalue \<Rightarrow> xvalue" where
  "wire_value flog VNil = VStr []"
| "wire_value flog (VDouble d) =
     VDouble (case encode_double flog d of Inr (mant, ex) \<Rightarrow> decode_double mant ex | Inl e \<Rightarrow> d)"
| "wire_value flog (VStruct ms) = VStruct (map (\<lambda>(n, v). (n, wire_value flog v)) ms)"
| "wire_value flog (VArray vs) = VArray (map (wire_value flog) vs)"
| "wire_value flog v = v"

fun vdepth :: "xvalue \<Rightarrow> nat" where
  "vdepth (VStruct ms) = fold max (map (\<lambda>(n, v). Suc (vdepth v)) ms) 0"
| "vdepth (VArray vs) = fold max (map (\<lambda>v. Suc (vdepth v)) vs) 0"
| "vdepth v = 0"

lemma fold_max_less: "fold max xs (a::nat) < k \<longleftrightarrow> a < k \<and> (\<forall>x \<in> set xs. x < k)"
  by (induction xs arbitrary: a) auto

lemma vdepth_array: "vdepth (VArray vs) < Suc k \<longleftrightarrow> (\<forall>v \<in> set vs. vdepth v < k)"
  by (simp add: fold_max_less)

lemma vdepth_struct: "vdepth (VStruct ms) < Suc k \<longleftrightarrow> (\<forall>v \<in> snd ` set ms. vdepth v < k)"
  by (auto simp: fold_max_less)

lemma prepend_Inr [simp]: "prepend bs r = Inr cs \<longleftrightarrow> (\<exists>ds. r = Inr ds \<and> cs = bs @ ds)"
  by (auto simp: prepend_def)

lemma length_write_value: "write_value flog v = Inr bs \<Longrightarrow> 4 \<le> length bs"
  by (cases v) (auto simp: write_int_def write_bool_def write_string_def write_double_def)

lemma length_write_members: "write_members flog ms = Inr bs \<Longrightarrow> 8 * length ms \<le> length bs"
proof (induction ms arbitrary: bs)
  case (Cons m ms)
  obtain name v where m: "m = (name, v)" by (cases m)
  with Cons.prems obtain n b bs' where "write_raw_string name = Inr n" "write_value flog v = Inr b"
    "write_members flog ms = Inr bs'" "bs = n @ b @ bs'" by auto
  with Cons.IH [of bs'] length_write_raw_string [of name n] length_write_value [of flog v b]
  show ?case by simp
qed simp

lemma length_write_values: "write_values flog vs = Inr bs \<Longrightarrow> 4 * length vs \<le> length bs"
proof (induction vs arbitrary: bs)
  case (Cons v vs)
  then obtain b bs' where "write_value flog v = Inr b" "write_values flog vs = Inr bs'" "bs = b @ bs'" by auto
  with Cons.IH [of bs'] length_write_value [of flog v b] show ?case by simp
qed simp

lemma type_tags [simp]:
  "type_bool \<noteq> type_int" "type_string \<noteq> type_int" "type_string \<noteq> type_bool"
  "type_double \<noteq> type_int" "type_double \<noteq> type_bool" "type_double \<noteq> type_string"
  "type_array \<noteq> type_int" "type_array \<noteq> type_bool" "type_array \<noteq> type_string" "type_array \<noteq> type_double"
  "type_struct \<noteq> type_int" "type_struct \<noteq> type_bool" "type_struct \<noteq> type_string" "type_struct \<noteq> type_double"
  "type_struct \<noteq> type_array"
  by (simp_all add: type_int_def type_bool_def type_string_def type_double_def type_array_def type_struct_def)

lemma value_roundtrips:
  "vdepth v < k \<Longrightarrow> write_value flog v = Inr b1 \<Longrightarrow> length b1 < 2 ^ 32 \<Longrightarrow>
     read_value k (b1 @ rest) = Inr (wire_value flog v, rest)"
  "\<forall>w \<in> snd ` set ms. vdepth w < k \<Longrightarrow> write_members flog ms = Inr b2 \<Longrightarrow> length b2 < 2 ^ 32 \<Longrightarrow>
     read_members k (length ms) (b2 @ rest) = Inr (map (\<lambda>(n, w). (n, wire_value flog w)) ms, rest)"
  "\<forall>w \<in> set vs. vdepth w < k \<Longrightarrow> write_values flog vs = Inr b3 \<Longrightarrow> length b3 < 2 ^ 32 \<Longrightarrow>
     read_values k (length vs) (b3 @ rest) = Inr (map (wire_value flog) vs, rest)"
proof (induction flog v and flog ms and flog vs arbitrary: k b1 rest and k b2 rest and k b3 rest
      rule: write_value_write_members_write_values.induct)
  case (2 flog)
  then obtain j bs where "k = Suc j" "write_raw_string [] = Inr bs" "b1 = put_u32 type_string @ bs"
    by (cases k) (auto simp: write_string_def)
  with 2 raw_string_roundtrip [of "[]" bs rest] show ?case by simp
next
  case (3 flog n)
  then obtain j where "k = Suc j" "b1 = write_int n" by (cases k) auto
  then show ?case by (simp add: write_int_def)
next
  case (4 flog b)
  then obtain j where "k = Suc j" "b1 = write_bool b" by (cases k) auto
  then show ?case by (simp add: write_bool_def)
next
  case (5 flog s)
  then obtain j bs where "k = Suc j" "write_raw_string s = Inr bs" "b1 = put_u32 type_string @ bs"
    by (cases k) (auto simp: write_string_def)
  with 5 raw_string_roundtrip [of s bs rest] show ?case by simp
next
  case (6 flog d)
  then obtain j mant ex where "k = Suc j" "encode_double flog d = Inr (mant, ex)"
    "b1 = put_u32 type_double @ put_u32 mant @ put_u32 ex"
    by (cases k) (auto simp: write_double_def)
  then show ?case by simp
next
  case (7 flog ms)
  then obtain j where k: "k = Suc j" by (cases k) auto
  with 7 obtain bs where bs: "write_members flog ms = Inr bs"
    and b1: "b1 = put_u32 type_struct @ put_u32 (word_of_nat (length ms)) @ bs" by auto
  with length_write_members [OF bs] 7 have len: "8 * length ms \<le> length bs" "length bs < 2 ^ 32"
    and n: "unat (word_of_nat (length ms) :: 32 word) = length ms"
    by (auto intro: unat_word_of_nat32)
  have "read_members j (length ms) (bs @ rest) = Inr (map (\<lambda>(n, w). (n, wire_value flog w)) ms, rest)"
    using 7 bs len k by (intro "7.IH") (simp_all add: vdepth_struct del: vdepth.simps)
  then show ?case using len n by (simp add: k b1 min_member_wire_bytes_def)
next
  case (8 flog vs)
  then obtain j where k: "k = Suc j" by (cases k) auto
  with 8 obtain bs where bs: "write_values flog vs = Inr bs"
    and b1: "b1 = put_u32 type_array @ put_u32 (word_of_nat (length vs)) @ bs" by auto
  with length_write_values [OF bs] 8 have len: "4 * length vs \<le> length bs" "length bs < 2 ^ 32"
    and n: "unat (word_of_nat (length vs) :: 32 word) = length vs"
    by (auto intro: unat_word_of_nat32)
  have "read_values j (length vs) (bs @ rest) = Inr (map (wire_value flog) vs, rest)"
    using 8 bs len k by (intro "8.IH") (simp_all add: vdepth_array del: vdepth.simps)
  then show ?case using len n by (simp add: k b1 min_value_wire_bytes_def)
next
  case (12 flog name v ms)
  then obtain n b bs where n: "write_raw_string name = Inr n" and b: "write_value flog v = Inr b"
    and bs: "write_members flog ms = Inr bs" and b2: "b2 = n @ b @ bs" by auto
  with 12 show ?case
    using raw_string_roundtrip [OF n, of "b @ bs @ rest"] by simp
next
  case (14 flog v vs)
  then obtain b bs where "write_value flog v = Inr b" "write_values flog vs = Inr bs" "b3 = b @ bs" by auto
  with 14 show ?case by simp
qed auto


lemma value_codec_ok: "vdepth v < k \<and> fits (write_value flog) v \<Longrightarrow> write_value flog v = Inr bs \<Longrightarrow>
    read_value k (bs @ rest) = Inr (wire_value flog v, rest)"
  by (simp add: fits_def value_roundtrips(1))

interpretation value_codec: prefix_codec "write_value flog" "read_value k" "wire_value flog"
    "\<lambda>v. vdepth v < k \<and> fits (write_value flog) v" for flog k
  by unfold_locales (rule value_codec_ok)

section \<open>Frames and messages\<close>

lemma frame_roundtrip:
  assumes "write_frame ty payload = Inr bs"
  shows "read_frame (bs @ rest) = Inr (ty, payload, rest)" and "length payload \<le> max_message_size"
proof -
  from assms have len: "length payload \<le> max_message_size"
    and bs: "bs = frame_marker @ [ty] @ put_u32 (word_of_nat (length payload)) @ payload"
    by (auto simp: write_frame_def split: if_splits)
  have hdr: "read_n 8 (bs @ rest) =
      Inr (frame_marker @ [ty] @ put_u32 (word_of_nat (length payload)), payload @ rest)"
    by (simp add: bs read_n_def frame_marker_def)
  have "get_u32 (put_u32 (word_of_nat (length payload))) = Inr (word_of_nat (length payload), [])"
    using get_put_u32 [of "word_of_nat (length payload)" "[]"] by simp
  moreover have "unat (word_of_nat (length payload) :: 32 word) = length payload"
    using len by (intro unat_word_of_nat32) (simp add: max_message_size_def)
  ultimately show "read_frame (bs @ rest) = Inr (ty, payload, rest)"
    using len unfolding read_frame_def hdr by (simp add: frame_marker_def)
  show "length payload \<le> max_message_size" by (rule len)
qed

lemma request_roundtrip:
  assumes ps: "\<forall>p \<in> set ps. vdepth p \<le> max_decode_depth" and w: "write_request flog meth ps = Inr bs"
  shows "read_request (bs @ rest) = Inr (\<lparr>rq_method = meth, rq_params = map (wire_value flog) ps\<rparr>, rest)"
proof -
  obtain m vs where m: "write_raw_string meth = Inr m" and vs: "write_values flog ps = Inr vs"
    and f: "write_frame msg_request (m @ put_u32 (word_of_nat (length ps)) @ vs) = Inr bs"
    using w by (auto simp: write_request_def write_param_array_def split: if_splits)
  have len: "length m + 4 + length vs \<le> max_message_size"
    using frame_roundtrip(2) [OF f] by simp
  have n: "unat (word_of_nat (length ps) :: 32 word) = length ps" "4 * length ps \<le> length vs"
    using len length_write_values [OF vs] by (auto intro: unat_word_of_nat32 simp: max_message_size_def)
  have "read_values (Suc max_decode_depth) (length ps) (vs @ []) = Inr (map (wire_value flog) ps, [])"
    using ps len by (intro value_roundtrips(3) [OF _ vs]) (auto simp: max_message_size_def less_Suc_eq_le)
  moreover have "read_raw_string (m @ put_u32 (word_of_nat (length ps)) @ vs) =
      Inr (meth, put_u32 (word_of_nat (length ps)) @ vs)"
    using len by (intro raw_string_roundtrip [OF m]) (simp add: max_message_size_def)
  ultimately show ?thesis
    using n by (simp add: read_request_def frame_roundtrip(1) [OF f] read_n_values_def all_read_def
        min_value_wire_bytes_def)
qed

interpretation request_codec: prefix_codec "\<lambda>(meth, ps). write_request flog meth ps" read_request
    "\<lambda>(meth, ps). \<lparr>rq_method = meth, rq_params = map (wire_value flog) ps\<rparr>"
    "\<lambda>(meth, ps). \<forall>p \<in> set ps. vdepth p \<le> max_decode_depth" for flog
  by unfold_locales (auto simp: request_roundtrip)

lemma fits_small: "write_value flog v = Inr bs \<Longrightarrow> length bs \<le> max_message_size \<Longrightarrow> length bs < 2 ^ 32"
  by (simp add: max_message_size_def)

lemma response_roundtrip:
  assumes "vdepth v \<le> max_decode_depth" and "write_response flog v = Inr bs"
  shows "read_response (bs @ rest) = Inr (RValue (if v = VNull then VStr [] else wire_value flog v), rest)"
proof -
  let ?v = "if v = VNull then VStr [] else v"
  obtain b where b: "write_value flog ?v = Inr b" and f: "write_frame msg_response b = Inr bs"
    using assms(2) by (auto simp: write_response_def split: if_splits)
  have "read_value (Suc max_decode_depth) (b @ []) = Inr (wire_value flog ?v, [])"
    using assms(1) fits_small [OF b frame_roundtrip(2) [OF f]] by (intro value_roundtrips(1) [OF _ b]) auto
  then show ?thesis
    by (simp add: read_response_def frame_roundtrip(1) [OF f] all_read_def del: read_value.simps)
qed

lemma fault_roundtrip:
  assumes "write_fault flog (Some f) = Inr bs"
  shows "read_response (bs @ rest) = Inr (RFault f, rest)"
proof -
  let ?v = "VStruct [(''faultCode'', VInt (word_of_int (fault_code f))), (''faultString'', VStr (fault_message f))]"
  obtain b where code: "- (2 ^ 31) \<le> fault_code f" "fault_code f \<le> 2 ^ 31 - 1"
    and b: "write_value flog ?v = Inr b" and fr: "write_frame msg_fault b = Inr bs"
    using assms by (auto simp: write_fault_def split: if_splits simp del: write_value.simps)
  have "read_value (Suc max_decode_depth) (b @ []) = Inr (wire_value flog ?v, [])"
    using fits_small [OF b frame_roundtrip(2) [OF fr]]
    by (intro value_roundtrips(1) [OF _ b]) (auto simp: max_decode_depth_def)
  moreover have "sint (word_of_int (fault_code f) :: 32 word) = fault_code f"
    using code by (simp add: sint_sbintrunc' signed_take_bit_int_eq_self)
  moreover have "msg_fault \<noteq> msg_response" by (simp add: msg_fault_def msg_response_def)
  ultimately show ?thesis
    by (simp add: read_response_def frame_roundtrip(1) [OF fr] fault_of_members_def fault_member_def
        del: read_value.simps)
qed

section \<open>What is read is bounded by what was received\<close>

fun vnodes :: "xvalue \<Rightarrow> nat" where
  "vnodes (VStruct ms) = Suc (sum_list (map (\<lambda>(n, v). Suc (vnodes v)) ms))"
| "vnodes (VArray vs) = Suc (sum_list (map vnodes vs))"
| "vnodes v = 1"

lemma get_u32_consumes: "get_u32 bs = Inr (w, rest) \<Longrightarrow> \<exists>used. bs = used @ rest \<and> length used = 4"
proof -
  assume "get_u32 bs = Inr (w, rest)"
  then obtain a b c d where "bs = [a, b, c, d] @ rest"
    by (cases bs rule: get_u32.cases) auto
  then show ?thesis by (intro exI [of _ "[a, b, c, d]"]) simp
qed

lemma get_u8_consumes: "get_u8 bs = Inr (b, rest) \<Longrightarrow> \<exists>used. bs = used @ rest"
  by (cases bs) auto

lemma read_raw_string_consumes: "read_raw_string bs = Inr (s, rest) \<Longrightarrow> \<exists>used. bs = used @ rest \<and> 4 \<le> length used"
proof -
  assume "read_raw_string bs = Inr (s, rest)"
  then obtain n bs1 raw where n: "get_u32 bs = Inr (n, bs1)" and raw: "read_n (unat n) bs1 = Inr (raw, rest)"
    by (auto simp: read_raw_string_def)
  obtain u where u: "bs = u @ bs1" "length u = 4" using get_u32_consumes [OF n] by blast
  have "bs1 = raw @ rest" using raw by (auto simp: read_n_def split: if_splits)
  with u show ?thesis by (intro exI [of _ "u @ raw"]) simp
qed

definition bounded_read :: "nat \<Rightarrow> nat \<Rightarrow> bytes \<Rightarrow> bytes \<Rightarrow> bool" where
  "bounded_read nodes least bs rest \<longleftrightarrow> (\<exists>used. bs = used @ rest \<and> 4 * nodes + least \<le> length used)"

lemma bounded_read_trans:
  "bounded_read a x bs cs \<Longrightarrow> bounded_read b y cs ds \<Longrightarrow> bounded_read (a + b) (x + y) bs ds"
  unfolding bounded_read_def by (elim exE conjE, rule_tac x = "used @ useda" in exI) simp

lemma bounded_u32: "get_u32 bs = Inr (w, rest) \<Longrightarrow> bounded_read 1 0 bs rest"
  using get_u32_consumes by (fastforce simp: bounded_read_def)

lemma bounded_u8: "get_u8 bs = Inr (w, rest) \<Longrightarrow> bounded_read 0 0 bs rest"
  using get_u8_consumes by (fastforce simp: bounded_read_def)

lemma bounded_string: "read_raw_string bs = Inr (s, rest) \<Longrightarrow> bounded_read 1 0 bs rest"
  using read_raw_string_consumes by (fastforce simp: bounded_read_def)

lemma bounded_weaken: "bounded_read a x bs cs \<Longrightarrow> b \<le> a \<Longrightarrow> bounded_read b 0 bs cs"
  by (auto simp: bounded_read_def)


lemma read_value_scalar_or_container:
  assumes "read_value (Suc k) bs = Inr (v, rest)"
  obtains (scalar) w bs1 where "get_u32 bs = Inr (w, bs1)" "vdepth v = 0" "vnodes v = 1" "bounded_read 0 0 bs1 rest"
    | (array) t c n bs1 bs2 vs where "get_u32 bs = Inr (t, bs1)" "get_u32 bs1 = Inr (c, bs2)"
        "read_values k n bs2 = Inr (vs, rest)" "v = VArray vs" "t = type_array" "n = unat c" "n \<le> length bs2 div 4"
    | (struct) t c n bs1 bs2 ms where "get_u32 bs = Inr (t, bs1)" "get_u32 bs1 = Inr (c, bs2)"
        "read_members k n bs2 = Inr (ms, rest)" "v = VStruct ms" "t = type_struct" "n = unat c" "n \<le> length bs2 div 8"
proof -
  from assms obtain t bs1 where t: "get_u32 bs = Inr (t, bs1)" by auto
  have two: "bounded_read 0 0 bs1 rest" if "get_u32 bs1 = Inr (a, bs2)" "get_u32 bs2 = Inr (b, rest)" for a b bs2
    using bounded_weaken [OF bounded_read_trans [OF bounded_u32 [OF that(1)] bounded_u32 [OF that(2)]], of 0] by simp
  have one: "bounded_read 0 0 bs1 rest" if "get_u32 bs1 = Inr (a, rest)" for a
    using bounded_weaken [OF bounded_u32 [OF that], of 0] by simp
  have str: "bounded_read 0 0 bs1 rest" if "read_raw_string bs1 = Inr (a, rest)" for a
    using bounded_weaken [OF bounded_string [OF that], of 0] by simp
  show thesis
    using assms t scalar [OF t] array [OF t] struct [OF t]
    by (auto simp: min_value_wire_bytes_def min_member_wire_bytes_def not_less bounded_u8 one two str split: if_splits)
qed

lemma read_bounds:
  "read_value k bs = Inr (v, rest) \<Longrightarrow> vdepth v < k \<and> bounded_read (vnodes v) 0 bs rest"
  "read_values k n bs = Inr (vs, rest) \<Longrightarrow>
     (\<forall>v \<in> set vs. vdepth v < k) \<and> bounded_read (sum_list (map vnodes vs)) 0 bs rest"
  "read_members k n bs = Inr (ms, rest) \<Longrightarrow>
     (\<forall>v \<in> snd ` set ms. vdepth v < k) \<and> bounded_read (sum_list (map (\<lambda>(n, v). Suc (vnodes v)) ms)) 0 bs rest"
proof (induction k bs and k n bs and k n bs arbitrary: v rest and vs rest and ms rest
    rule: read_value_read_values_read_members.induct)
  case (2 k bs)
  from "2.prems" show ?case
  proof (cases rule: read_value_scalar_or_container)
    case (scalar w bs1)
    with bounded_read_trans [OF bounded_u32 [of bs w bs1]] show ?thesis by force
  next
    case (array t c n bs1 bs2 vs)
    have "(\<forall>v \<in> set vs. vdepth v < k) \<and> bounded_read (sum_list (map vnodes vs)) 0 bs2 rest"
      using "2.IH"(1) [of t bs2 c vs rest] array
      by (simp add: min_value_wire_bytes_def)
    with array bounded_weaken [OF bounded_read_trans [OF bounded_u32 bounded_read_trans [OF bounded_u32]], of bs t bs1 c bs2]
    show ?thesis by (fastforce simp: vdepth_array simp del: vdepth.simps)
  next
    case (struct t c n bs1 bs2 ms)
    have "(\<forall>v \<in> snd ` set ms. vdepth v < k) \<and> bounded_read (sum_list (map (\<lambda>(n, v). Suc (vnodes v)) ms)) 0 bs2 rest"
      using "2.IH"(2) [of t bs2 c ms rest] struct
      by (simp add: min_member_wire_bytes_def)
    with struct bounded_weaken [OF bounded_read_trans [OF bounded_u32 bounded_read_trans [OF bounded_u32]], of bs t bs1 c bs2]
    show ?thesis by (fastforce simp: vdepth_struct simp del: vdepth.simps)
  qed
next
  case (4 k n bs)
  then obtain v bs1 vs' where "read_value k bs = Inr (v, bs1)" "read_values k n bs1 = Inr (vs', rest)" "vs = v # vs'"
    by auto
  with 4 show ?case using bounded_read_trans [of "vnodes v" 0 bs bs1] by fastforce
next
  case (6 k n bs)
  then obtain name bs1 v bs2 ms' where "read_raw_string bs = Inr (name, bs1)" "read_value k bs1 = Inr (v, bs2)"
    "read_members k n bs2 = Inr (ms', rest)" "ms = (name, v) # ms'"
    by auto
  with 6 show ?case
    using bounded_read_trans [OF bounded_string [of bs name bs1] bounded_read_trans [of "vnodes v" 0 bs1 bs2]] by fastforce
qed (auto simp: bounded_read_def)


section \<open>Doubles\<close>

lemma pow2_exponent_le: "q = of_int m * pow2 k \<Longrightarrow> m \<noteq> 0 \<Longrightarrow> k \<le> ilog2 \<bar>q\<bar>"
proof -
  assume q: "q = of_int m * pow2 k" and m: "m \<noteq> 0"
  then have pos: "0 < \<bar>q\<bar>" by simp
  have "(1::rat) \<le> of_int \<bar>m\<bar>" using m by (simp add: int_one_le_iff_zero_less)
  then have "pow2 k \<le> of_int \<bar>m\<bar> * pow2 k"
    using mult_right_mono [of 1 "of_int \<bar>m\<bar>" "pow2 k"] less_imp_le [OF pow2_pos [of k]] by simp
  also have "\<dots> = \<bar>q\<bar>" by (simp add: q abs_mult less_imp_le)
  also have "\<dots> < pow2 (ilog2 \<bar>q\<bar> + 1)" using ilog2_bounds(2) [OF pos] .
  finally show ?thesis by (simp add: pow2_less_iff)
qed

lemma pow2_exponent_ge: "q = of_int m * pow2 k \<Longrightarrow> q \<noteq> 0 \<Longrightarrow> \<bar>m\<bar> < 2 ^ 53 \<Longrightarrow> ilog2 \<bar>q\<bar> - 52 \<le> k"
proof -
  assume q: "q = of_int m * pow2 k" and q0: "q \<noteq> 0" and m: "\<bar>m\<bar> < 2 ^ 53"
  have "pow2 (ilog2 \<bar>q\<bar>) \<le> \<bar>q\<bar>" using ilog2_bounds(1) [of "\<bar>q\<bar>"] q0 by simp
  also have "\<bar>q\<bar> = of_int \<bar>m\<bar> * pow2 k" by (simp add: q abs_mult less_imp_le)
  also have "\<dots> < of_int (2 ^ 53) * pow2 k"
    using m by (intro mult_strict_right_mono) (simp_all only: of_int_less_iff pow2_pos)
  also have "\<dots> = pow2 (k + 53)" using pow2_add_nat [of k 53] by simp
  finally show ?thesis by (simp add: pow2_less_iff)
qed

text \<open>The scaled value is exact, so the mantissa is the floor of \<open>q * 2 ^ (30 - ex)\<close>.\<close>

lemma scaled_exact:
  assumes rep: "representable q" and q0: "q \<noteq> 0"
    and ex: "ilog2 \<bar>q\<bar> \<le> ex" "ex \<le> ilog2 \<bar>q\<bar> + 2" "- 1022 \<le> ex" "ex \<le> 992"
  shows "f64_floor (f64_mul (f64_mul (Fin q) (f64_pow2 (- ex))) mantissa_scale) = Fin (of_int \<lfloor>q * pow2 (30 - ex)\<rfloor>)"
proof -
  obtain m k where q: "q = of_int m * pow2 k" and m: "\<bar>m\<bar> < 2 ^ 53"
    using rep by (auto simp: representable_def)
  have "m \<noteq> 0" using q q0 by auto
  then have k: "k \<le> ex" "ex \<le> k + 54"
    using pow2_exponent_le [OF q] pow2_exponent_ge [OF q q0 m] ex by linarith+
  have pw: "f64_pow2 (- ex) = Fin (pow2 (- ex))" using ex by (simp add: f64_pow2_def)
  have s1: "q * pow2 (- ex) = of_int m * pow2 (k - ex)" by (simp add: q pow2_diff pow2_minus)
  have m1: "f64_mul (Fin q) (Fin (pow2 (- ex))) = Fin (q * pow2 (- ex))"
    using q0 k by (intro f64_mul_exact representable_intI [OF s1 m]) simp_all
  have s2: "q * pow2 (- ex) * 2 ^ 30 = of_int m * pow2 (k - ex + 30)"
    using pow2_add_nat [of "k - ex" 30] by (simp add: s1)
  have m2: "f64_mul (Fin (q * pow2 (- ex))) (Fin (2 ^ 30)) = Fin (q * pow2 (- ex) * 2 ^ 30)"
    using q0 k by (intro f64_mul_exact representable_intI [OF s2 m]) simp_all
  have "pow2 (30 - ex) = pow2 (- ex) * 2 ^ 30"
    using pow2_add_nat [of "- ex" 30] by simp
  then have "q * pow2 (- ex) * 2 ^ 30 = q * pow2 (30 - ex)"
    by (simp only: mult.assoc)
  then show ?thesis
    unfolding pw m1 mantissa_scale_def m2 f64_floor.simps by (simp only:)
qed

lemma scaled_bound:
  assumes "0 < \<bar>q\<bar>" and "ilog2 \<bar>q\<bar> \<le> ex" "ex \<le> ilog2 \<bar>q\<bar> + 2"
  shows "\<bar>q * pow2 (30 - ex)\<bar> < 2 ^ 31" and "2 ^ 28 \<le> \<bar>q * pow2 (30 - ex)\<bar>"
proof -
  have a: "\<bar>q * pow2 (30 - ex)\<bar> = \<bar>q\<bar> * pow2 (30 - ex)" by (simp add: abs_mult less_imp_le)
  have "\<bar>q\<bar> * pow2 (30 - ex) < pow2 (ilog2 \<bar>q\<bar> + 1) * pow2 (30 - ex)"
    using ilog2_bounds(2) [OF assms(1)] by (intro mult_strict_right_mono) simp_all
  also have "\<dots> = pow2 (ilog2 \<bar>q\<bar> + 1 + (30 - ex))" by (simp only: pow2_add)
  also have "\<dots> \<le> pow2 31" using assms by (intro pow2_mono) simp
  also have "\<dots> = 2 ^ 31" by (simp add: pow2_def)
  finally show "\<bar>q * pow2 (30 - ex)\<bar> < 2 ^ 31" by (simp only: a)
  have "2 ^ 28 = pow2 28" by (simp add: pow2_def)
  also have "\<dots> \<le> pow2 (ilog2 \<bar>q\<bar> + (30 - ex))" using assms by (intro pow2_mono) simp
  also have "\<dots> = pow2 (ilog2 \<bar>q\<bar>) * pow2 (30 - ex)" by (simp only: pow2_add)
  also have "\<dots> \<le> \<bar>q\<bar> * pow2 (30 - ex)"
    using ilog2_bounds(1) [OF assms(1)] by (intro mult_right_mono) (simp_all add: less_imp_le)
  finally show "2 ^ 28 \<le> \<bar>q * pow2 (30 - ex)\<bar>" by (simp only: a)
qed

lemma decode_exact:
  assumes n: "n \<noteq> 0" "- (2 ^ 31) \<le> n" "n < 2 ^ 31" and ex: "- 1022 \<le> ex" "ex \<le> 992"
  shows "decode_double (word_of_int n) (word_of_int ex) = Fin (of_int n * pow2 (ex - 30))"
proof -
  have sn: "sint (word_of_int n :: 32 word) = n" and sx: "sint (word_of_int ex :: 32 word) = ex"
    using n ex by (simp_all add: sint_sbintrunc' signed_take_bit_int_eq_self)
  have nb: "\<bar>n\<bar> < 2 ^ 53" using n by simp
  have "representable (pow2 ex * of_int n)"
  proof -
    have "\<bar>pow2 ex * of_int n\<bar> = pow2 ex * of_int \<bar>n\<bar>" by (simp add: abs_mult less_imp_le)
    also have "\<dots> \<le> pow2 ex * of_int (2 ^ 31)"
    proof (rule mult_left_mono)
      have "\<bar>n\<bar> \<le> 2 ^ 31" using n by simp
      then show "rat_of_int \<bar>n\<bar> \<le> of_int (2 ^ 31)" by (simp only: of_int_le_iff)
    qed (simp add: less_imp_le)
    also have "\<dots> = pow2 (ex + 31)" using pow2_add_nat [of ex 31] by simp
    also have "\<dots> < pow2 1024" using ex by (simp add: pow2_less_iff)
    finally show ?thesis
      using nb ex unfolding representable_def by (intro conjI exI [of _ n] exI [of _ ex]) simp_all
  qed
  then have m: "f64_mul (Fin (pow2 ex)) (Fin (of_int n)) = Fin (pow2 ex * of_int n)"
    using n by (intro f64_mul_exact) simp_all
  have d: "pow2 ex * of_int n / 2 ^ 30 = of_int n * pow2 (ex - 30)"
    by (simp add: pow2_diff pow2_def [of 30])
  have "representable (pow2 ex * of_int n / 2 ^ 30)"
    using ex by (intro representable_intI [OF d nb]) simp_all
  then have "f64_div (Fin (pow2 ex * of_int n)) (Fin (2 ^ 30)) = Fin (pow2 ex * of_int n / 2 ^ 30)"
    using n by (intro f64_div_exact) simp_all
  moreover have "f64_pow2 ex = Fin (pow2 ex)" using ex by (simp add: f64_pow2_def)
  ultimately show ?thesis
    by (simp only: decode_double_def sn sx m mantissa_scale_def d)
qed

lemma double_codec:
  assumes rep: "representable q" and q0: "q \<noteq> 0"
    and range: "- 1022 \<le> ilog2 \<bar>q\<bar>" "ilog2 \<bar>q\<bar> \<le> 990" and log: "\<bar>flog \<bar>q\<bar> - ilog2 \<bar>q\<bar>\<bar> \<le> 1"
  shows "\<exists>ex. ex \<le> ilog2 \<bar>q\<bar> + 2 \<and>
    encode_double flog (Fin q) = Inr (word_of_int \<lfloor>q * pow2 (30 - ex)\<rfloor>, word_of_int ex) \<and>
    decode_double (word_of_int \<lfloor>q * pow2 (30 - ex)\<rfloor>) (word_of_int ex) =
      Fin (of_int \<lfloor>q * pow2 (30 - ex)\<rfloor> * pow2 (ex - 30))"
proof -
  define ex where "ex = flog \<bar>q\<bar> + 1"
  have ex: "ilog2 \<bar>q\<bar> \<le> ex" "ex \<le> ilog2 \<bar>q\<bar> + 2" "- 1022 \<le> ex" "ex \<le> 992"
    using log range by (auto simp: ex_def)
  let ?n = "\<lfloor>q * pow2 (30 - ex)\<rfloor>"
  have sb: "\<bar>q * pow2 (30 - ex)\<bar> < 2 ^ 31" "2 ^ 28 \<le> \<bar>q * pow2 (30 - ex)\<bar>"
    using scaled_bound [of q ex] q0 ex by simp_all
  then have n: "- (2 ^ 31) \<le> ?n" "?n < 2 ^ 31" "?n \<noteq> 0"
    by (auto simp: le_floor_iff floor_less_iff abs_if floor_eq_iff split: if_splits)
  have mant: "f64_floor (f64_mul (f64_mul (Fin q) (f64_pow2 (- ex))) mantissa_scale) = Fin (of_int ?n)"
    by (rule scaled_exact [OF rep q0 ex])
  have "\<not> below_int32 (Fin (of_int ?n))" "\<not> above_int32 (Fin (of_int ?n))"
    using n unfolding below_int32_def above_int32_def f64_less.simps of_int_less_iff by simp_all
  moreover have "trunc_rat (of_int ?n) = ?n" by (simp add: trunc_rat_def)
  moreover have "\<not> (ex < - (2 ^ 31) \<or> 2 ^ 31 - 1 < ex)" using ex by simp
  ultimately have "encode_double flog (Fin q) = Inr (word_of_int ?n, word_of_int ex)"
    unfolding encode_double_def f64.case Let_def ex_def [symmetric] mant using q0 by simp
  with ex(2) decode_exact [OF n(3,1,2) ex(3,4)] show ?thesis by blast
qed

section \<open>Properties\<close>

text \<open>C16. A stream of BIN-RPC requests is read back request by request: whatever sequence of requests
  the encoder wrote one after the other, the decoder returns the same methods and parameters and
  leaves exactly what follows; nil becomes the empty string and doubles are rounded as stated below.\<close>

theorem request_stream_roundtrip:
  assumes "\<forall>(meth, ps) \<in> set rqs. \<forall>p \<in> set ps. vdepth p \<le> max_decode_depth"
    and "seq_enc (\<lambda>(meth, ps). write_request flog meth ps) rqs = Inr bs"
  shows "seq_dec read_request (length rqs) (bs @ rest) =
    Inr (map (\<lambda>(meth, ps). \<lparr>rq_method = meth, rq_params = map (wire_value flog) ps\<rparr>) rqs, rest)"
  using request_codec.seq_roundtrip [OF assms] by simp

text \<open>A client reads the answer that was sent: the value of a response, or code and text of a
  fault.\<close>

theorem answer_roundtrip:
  "(vdepth v \<le> max_decode_depth \<longrightarrow> write_response flog v = Inr bs \<longrightarrow>
      read_response (bs @ rest) = Inr (RValue (if v = VNull then VStr [] else wire_value flog v), rest)) \<and>
   (write_fault flog (Some f) = Inr bs \<longrightarrow> read_response (bs @ rest) = Inr (RFault f, rest))"
  using response_roundtrip [of v flog bs rest] fault_roundtrip [of flog f bs rest] by blast

text \<open>C17. Hostile input is bounded: whatever bytes arrive, a value that is decoded nests at most 64
  levels deep and has at most one node per four bytes consumed, so neither the recursion nor the
  memory exceeds what the sender paid for.\<close>

theorem decoded_value_bounded:
  assumes "read_value (Suc max_decode_depth) bs = Inr (v, rest)"
  shows "vdepth v \<le> 64 \<and> (\<exists>used. bs = used @ rest \<and> 4 * vnodes v \<le> length used)"
  using read_bounds(1) [OF assms] by (auto simp: max_decode_depth_def bounded_read_def)

text \<open>C18. A double of normal size survives BIN-RPC with a relative error below \<open>2 ^ -28\<close>, rounded towards
  minus infinity, and without any error when 29 bits hold its significand; for this the logarithm
  may be wrong by one in either direction.\<close>

theorem double_roundtrip_error:
  assumes "representable q" and "q \<noteq> 0" and "- 1022 \<le> ilog2 \<bar>q\<bar>" and "ilog2 \<bar>q\<bar> \<le> 990"
    and "\<bar>flog \<bar>q\<bar> - ilog2 \<bar>q\<bar>\<bar> \<le> 1"
  shows "\<exists>q'. wire_value flog (VDouble (Fin q)) = VDouble (Fin q') \<and> q' \<le> q \<and> q - q' \<le> \<bar>q\<bar> * pow2 (- 28) \<and>
     (\<forall>n. q = of_int n * pow2 (ilog2 \<bar>q\<bar> - 28) \<longrightarrow> q' = q)"
proof -
  obtain ex where ex: "ex \<le> ilog2 \<bar>q\<bar> + 2"
    and enc: "encode_double flog (Fin q) = Inr (word_of_int \<lfloor>q * pow2 (30 - ex)\<rfloor>, word_of_int ex)"
    and dec: "decode_double (word_of_int \<lfloor>q * pow2 (30 - ex)\<rfloor>) (word_of_int ex) =
           Fin (of_int \<lfloor>q * pow2 (30 - ex)\<rfloor> * pow2 (ex - 30))"
    using double_codec [of q flog] assms by blast
  let ?x = "q * pow2 (30 - ex)"
  have undo: "?x * pow2 (ex - 30) = q" by (simp add: pow2_diff)
  have lo: "of_int \<lfloor>?x\<rfloor> * pow2 (ex - 30) \<le> q"
    using mult_right_mono [of "of_int \<lfloor>?x\<rfloor>" ?x "pow2 (ex - 30)"] by (simp add: undo less_imp_le)
  have "q - of_int \<lfloor>?x\<rfloor> * pow2 (ex - 30) = (?x - of_int \<lfloor>?x\<rfloor>) * pow2 (ex - 30)"
    by (simp only: left_diff_distrib undo)
  also have "\<dots> \<le> 1 * pow2 (ex - 30)"
    by (intro mult_right_mono) (linarith, simp add: less_imp_le)
  also have "\<dots> \<le> pow2 (ilog2 \<bar>q\<bar> + (- 28))" using ex by (simp add: pow2_mono)
  also have "\<dots> = pow2 (ilog2 \<bar>q\<bar>) * pow2 (- 28)" by (simp only: pow2_add)
  also have "\<dots> \<le> \<bar>q\<bar> * pow2 (- 28)"
    using ilog2_bounds(1) [of "\<bar>q\<bar>"] assms(2) by (intro mult_right_mono) (simp_all add: less_imp_le)
  finally have hi: "q - of_int \<lfloor>?x\<rfloor> * pow2 (ex - 30) \<le> \<bar>q\<bar> * pow2 (- 28)" .
  have exact: "of_int \<lfloor>?x\<rfloor> * pow2 (ex - 30) = q" if "q = of_int n * pow2 (ilog2 \<bar>q\<bar> - 28)" for n
  proof -
    have "?x = of_int n * pow2 (ilog2 \<bar>q\<bar> - 28 + (30 - ex))"
      unfolding pow2_add using that by (metis mult.assoc)
    also have "ilog2 \<bar>q\<bar> - 28 + (30 - ex) = ilog2 \<bar>q\<bar> + 2 - ex" by simp
    also have "of_int n * pow2 (ilog2 \<bar>q\<bar> + 2 - ex) = of_int (n * 2 ^ nat (ilog2 \<bar>q\<bar> + 2 - ex))"
      using ex by (simp add: pow2_int)
    finally show ?thesis using undo by (metis floor_of_int)
  qed
  show ?thesis
    using lo hi exact by (intro exI [of _ "of_int \<lfloor>?x\<rfloor> * pow2 (ex - 30)"]) (simp add: enc dec)
qed

text \<open>
  Beyond that range the decoder loses values the encoder accepts: its product with the power of two
  overflows before it is scaled down.
\<close>

lemma round_pow2_large: "1024 \<le> k \<Longrightarrow> round_f64 (pow2 k) = Inf False"
proof -
  assume k: "1024 \<le> k"
  have "pow2 k < pow2 (k + 1)" by (simp add: pow2_less_iff)
  then have "ilog2 (pow2 k) = k" by (intro ilog2_unique) simp_all
  then have u: "ulp_exp (pow2 k) = k - 52" using k by (simp add: ulp_exp_def)
  have ab: "\<bar>pow2 k\<bar> = pow2 k" by (simp add: less_imp_le)
  have "pow2 k / pow2 (k - 52) = of_int (2 ^ 52)"
    by (simp add: pow2_diff pow2_def [of 52])
  then have "round_even (pow2 k / pow2 (k - 52)) = 2 ^ 52" by (simp only: round_even_int)
  then have "of_int (round_even (pow2 k / pow2 (k - 52))) * pow2 (k - 52) = pow2 k"
    by (simp add: pow2_diff pow2_def [of 52])
  then show ?thesis
    unfolding round_f64_def Let_def ab u using pow2_mono [OF k] less_imp_le [OF pow2_pos [of k]]
    by (simp add: not_less)
qed

lemma large_double_lost:
  "wire_value (\<lambda>q. 1000) (VDouble (Fin (pow2 1000))) = VDouble (Inf False)"
proof -
  have p: "pow2 1000 * pow2 (- 1001) = 1 / 2"
    using pow2_add [of 1000 "- 1001"] by (simp add: pow2_def [of "- 1"])
  have half: "round_f64 (1 / 2) = Fin (1 / 2)"
    by (intro round_representable representable_intI [where m = 1 and e = "- 1"]) (simp_all add: pow2_def)
  have big: "round_f64 (2 ^ 29) = Fin (2 ^ 29)"
    by (intro round_representable representable_intI [where m = 1 and e = 29]) (simp_all add: pow2_def)
  have "f64_mul (Fin (pow2 1000)) (f64_pow2 (- 1001)) = Fin (1 / 2)"
    by (simp add: f64_pow2_def p half)
  then have enc: "encode_double (\<lambda>q. 1000) (Fin (pow2 1000)) = Inr (word_of_int (2 ^ 29), word_of_int 1001)"
    using big by (simp add: encode_double_def Let_def mantissa_scale_def below_int32_def above_int32_def trunc_rat_def)
  have "pow2 1001 * 2 ^ 29 = pow2 1030"
    using pow2_add_nat [of 1001 29] by simp
  then have "f64_mul (f64_pow2 1001) (Fin (2 ^ 29)) = Inf False"
    using round_pow2_large [of 1030] by (simp add: f64_pow2_def)
  then have "decode_double (word_of_int (2 ^ 29)) (word_of_int 1001) = Inf False"
    by (simp add: decode_double_def mantissa_scale_def sint_sbintrunc' signed_take_bit_int_eq_self)
  with enc show ?thesis by simp
qed

lemma decoder_makes_nan: "decode_double 0 2000 = NaN"
proof -
  have "sint (2000 :: 32 word) = 2000" by simp
  then show ?thesis by (simp add: decode_double_def f64_pow2_def)
qed

text \<open>A fault message may carry bytes after its struct; a response may not.\<close>

lemma fault_trailing_bytes:
  assumes "write_frame msg_fault (put_u32 type_struct @ put_u32 0 @ junk) = Inr bs"
  shows "read_response bs = Inr (RFault \<lparr>fault_code = 0, fault_message = []\<rparr>, [])"
proof -
  have "read_value (Suc max_decode_depth) (put_u32 type_struct @ put_u32 0 @ junk) = Inr (VStruct [], junk)"
    by simp
  moreover have "msg_fault \<noteq> msg_response" by (simp add: msg_fault_def msg_response_def)
  ultimately show ?thesis
    using frame_roundtrip(1) [OF assms, of "[]"]
    by (simp add: read_response_def fault_of_members_def del: read_value.simps)
qed

section \<open>Witnesses\<close>

definition demo_log :: "rat \<Rightarrow> int" where
  "demo_log q = ilog2 q"

lemma demo_names:
  "latin1_encode ''ping'' = Some (map of_char ''ping'')" "latin1_encode ''init'' = Some (map of_char ''init'')"
  "latin1_encode [] = Some []" "latin1_encode ''oops'' = Some (map of_char ''oops'')"
  "latin1_encode ''faultCode'' = Some (map of_char ''faultCode'')"
  "latin1_encode ''faultString'' = Some (map of_char ''faultString'')"
  by code_simp+

theorem request_stream_roundtrip_witness:
  "\<exists>bs. seq_dec read_request 2 (bs @ [7]) =
     Inr ([\<lparr>rq_method = ''ping'', rq_params = [VStr []]\<rparr>, \<lparr>rq_method = ''init'', rq_params = [VArray [VInt 5, VBool True]]\<rparr>], [7])"
proof -
  let ?rqs = "[(''ping'', [VNil]), (''init'', [VArray [VInt 5, VBool True]])]"
  obtain bs where e: "seq_enc (\<lambda>(meth, ps). write_request demo_log meth ps) ?rqs = Inr bs"
    by (simp add: write_request_def write_param_array_def write_raw_string_def write_string_def prepend_def
        demo_names write_frame_def max_message_size_def write_int_def write_bool_def frame_marker_def)
  have d: "\<forall>(meth, ps) \<in> set ?rqs. \<forall>p \<in> set ps. vdepth p \<le> max_decode_depth"
    by (simp add: max_decode_depth_def)
  show ?thesis
    using request_stream_roundtrip [OF d e, of "[7]"] by (intro exI) (simp add: numeral_2_eq_2 del: seq_dec.simps)
qed

theorem answer_roundtrip_witness:
  "\<exists>bs. read_response (bs @ []) = Inr (RFault \<lparr>fault_code = - 2, fault_message = ''oops''\<rparr>, [])"
proof -
  let ?f = "\<lparr>fault_code = - 2, fault_message = ''oops''\<rparr>"
  obtain bs where "write_fault demo_log (Some ?f) = Inr bs"
    by (simp add: write_fault_def write_raw_string_def write_string_def prepend_def
        demo_names write_frame_def max_message_size_def write_int_def frame_marker_def)
  with answer_roundtrip [of VNil demo_log bs "[]" ?f] show ?thesis by blast
qed

theorem decoded_value_bounded_witness:
  "vdepth (VArray [VBool True]) \<le> 64 \<and> (\<exists>used. put_u32 type_array @ put_u32 1 @ write_bool True = used @ [] \<and> 4 * vnodes (VArray [VBool True]) \<le> length used)"
proof -
  have "read_value (Suc max_decode_depth) (put_u32 type_array @ put_u32 1 @ write_bool True) = Inr (VArray [VBool True], [])"
    using value_roundtrips(1) [of "VArray [VBool True]" "Suc max_decode_depth" demo_log _ "[]"]
    by (simp add: prepend_def max_decode_depth_def write_bool_def del: read_value.simps)
  from decoded_value_bounded [OF this] show ?thesis .
qed

theorem double_roundtrip_error_witness:
  "wire_value demo_log (VDouble (Fin (43 / 2))) = VDouble (Fin (43 / 2))"
proof -
  have rep: "representable (43 / 2)"
    by (rule representable_intI [where m = 43 and e = "- 1"]) (simp_all add: pow2_def)
  have l: "ilog2 (43 / 2) = 4" by code_simp
  have "43 / 2 = of_int (43 * 2 ^ 23) * pow2 (ilog2 \<bar>43 / 2\<bar> - 28)"
    by (simp add: l pow2_def)
  then obtain n where n: "43 / 2 = of_int n * pow2 (ilog2 \<bar>43 / 2\<bar> - 28)" by blast
  from double_roundtrip_error [OF rep, of demo_log] obtain q' where
    "wire_value demo_log (VDouble (Fin (43 / 2))) = VDouble (Fin q')"
    "\<forall>n. 43 / 2 = of_int n * pow2 (ilog2 \<bar>43 / 2\<bar> - 28) \<longrightarrow> q' = 43 / 2"
    by (auto simp: l demo_log_def simp del: wire_value.simps)
  with n show ?thesis by blast
qed

end
