(* ===== verification/Rega_Lexer.thy ===== *)
theory Rega_Lexer
  imports Prelude
begin

text \<open>
  \<^verbatim>\<open>internal/regavm/lexer.go\<close>: the tokens of a HomeMatic script. The loop of the source walks an
  index; here it carries what lies before the index (reversed, for \<open>startsLine\<close>) and what lies
  after it. A byte of the script is classified as the rune of the same number, so letters and
  digits are those of ISO-8859-1.
\<close>

datatype token_kind = TokEOF | TokIdent | TokNumber | TokString | TokOperator | TokPunct

record token =
  tok_kind :: token_kind
  tok_text :: string
  tok_line :: nat

definition mk_token :: "token_kind \<Rightarrow> string \<Rightarrow> nat \<Rightarrow> token" where
  "mk_token k s n = \<lparr>tok_kind = k, tok_text = s, tok_line = n\<rparr>"

lemma mk_token_fields [simp]:
  "tok_kind (mk_token k s n) = k" "tok_text (mk_token k s n) = s" "tok_line (mk_token k s n) = n"
  by (simp_all add: mk_token_def)

definition operators :: "string list" where
  "operators = [''=='', ''!='', ''<='', ''>='', ''&&'', ''||'', ''<'', ''>'', ''='', ''+'', ''-'', ''*'', ''/'',
     ''%'', ''#'', ''!'', ''&'']"

datatype lex_error = UnexpectedChar char nat | UnterminatedEscape nat | UnterminatedString nat

section \<open>Character classes\<close>

definition lf :: char where "lf = CHR 0x0A"
definition backslash :: char where "backslash = CHR 0x5C"

definition is_blank :: "char \<Rightarrow> bool" where
  "is_blank c \<longleftrightarrow> c = CHR '' '' \<or> c = CHR 0x09 \<or> c = CHR 0x0D"

definition is_digit :: "char \<Rightarrow> bool" where
  "is_digit c \<longleftrightarrow> CHR ''0'' \<le> c \<and> c \<le> CHR ''9''"

text \<open>\<open>unicode.IsLetter\<close> below U+0100.\<close>

definition is_letter :: "char \<Rightarrow> bool" where
  "is_letter c \<longleftrightarrow> (CHR ''A'' \<le> c \<and> c \<le> CHR ''Z'') \<or> (CHR ''a'' \<le> c \<and> c \<le> CHR ''z'') \<or>
     c = CHR 0xAA \<or> c = CHR 0xB5 \<or> c = CHR 0xBA \<or>
     (CHR 0xC0 \<le> c \<and> c \<le> CHR 0xD6) \<or> (CHR 0xD8 \<le> c \<and> c \<le> CHR 0xF6) \<or> CHR 0xF8 \<le> c"

definition is_ident_start :: "char \<Rightarrow> bool" where
  "is_ident_start c \<longleftrightarrow> c = CHR ''_'' \<or> c = CHR ''$'' \<or> is_letter c"

definition is_ident_part :: "char \<Rightarrow> bool" where
  "is_ident_part c \<longleftrightarrow> is_ident_start c \<or> is_digit c"

definition is_number_part :: "char \<Rightarrow> bool" where
  "is_number_part c \<longleftrightarrow> is_digit c \<or> c = CHR ''.''"

definition unescape :: "char \<Rightarrow> char" where
  "unescape c =
     (if c = CHR ''n'' then CHR 0x0A else if c = CHR ''t'' then CHR 0x09
      else if c = CHR ''r'' then CHR 0x0D else c)"

text \<open>\<open>startsLine\<close>, on the reversed text before the position.\<close>

definition starts_line :: "string \<Rightarrow> bool" where
  "starts_line before = (case dropWhile is_blank before of [] \<Rightarrow> True | c # cs \<Rightarrow> c = lf)"

section \<open>The scanner\<close>

text \<open>The body of a string literal after its quote: the text and the number of bytes taken.\<close>

fun lex_string :: "char \<Rightarrow> nat \<Rightarrow> string \<Rightarrow> lex_error + (string \<times> nat)" where
  "lex_string q line [] = Inl (UnterminatedString line)"
| "lex_string q line [c] =
     (if c = backslash then Inl (UnterminatedEscape line)
      else if c = q then Inr ([], 1) else Inl (UnterminatedString line))"
| "lex_string q line (c # d # cs) =
     (if c = backslash then bind_r (lex_string q line cs) (\<lambda>(s, n). Inr (unescape d # s, n + 2))
      else if c = q then Inr ([], 1)
      else bind_r (lex_string q line (d # cs)) (\<lambda>(s, n). Inr (c # s, n + 1)))"

definition comment_length :: "string \<Rightarrow> nat" where
  "comment_length s = length (takeWhile (\<lambda>c. c \<noteq> lf) s)"

text \<open>One turn of the loop at a non-empty rest: what it adds, how far it goes, and the new line.\<close>

definition is_punct :: "char \<Rightarrow> bool" where
  "is_punct c \<longleftrightarrow> c \<in> set ''(){};,.''"

definition lex_step :: "string \<Rightarrow> char \<Rightarrow> string \<Rightarrow> nat \<Rightarrow> lex_error + (token list \<times> nat \<times> nat)" where
  "lex_step before c cs line =
     (if c = lf then Inr ([], 1, line + 1)
      else if is_blank c then Inr ([], 1, line)
      else if c = CHR ''!'' then
        (if prefix ''='' cs then Inr ([mk_token TokOperator ''!='' line], 2, line)
         else if prefix ''#'' cs \<or> starts_line before then Inr ([], comment_length (c # cs), line)
         else Inr ([mk_token TokOperator ''!'' line], 1, line))
      else if c = CHR 0x22 \<or> c = CHR 0x27 then
        bind_r (lex_string c line cs) (\<lambda>(s, n). Inr ([mk_token TokString s line], n + 1, line))
      else if is_digit c then
        (let s = takeWhile is_number_part (c # cs) in Inr ([mk_token TokNumber s line], length s, line))
      else if is_ident_start c then
        (let s = takeWhile is_ident_part (c # cs) in Inr ([mk_token TokIdent s line], length s, line))
      else if is_punct c then Inr ([mk_token TokPunct [c] line], 1, line)
      else (case List.find (\<lambda>p. prefix p (c # cs)) operators of
              None \<Rightarrow> Inl (UnexpectedChar c line)
            | Some p \<Rightarrow> Inr ([mk_token TokOperator p line], length p, line)))"

lemma find_operator_length: "List.find (\<lambda>p. prefix p s) operators = Some p \<Longrightarrow> p \<in> set operators \<and> 0 < length p"
proof -
  assume "List.find (\<lambda>p. prefix p s) operators = Some p"
  then have "p \<in> set operators" by (auto simp: find_Some_iff)
  moreover have "\<forall>p \<in> set operators. 0 < length p" by (simp add: operators_def)
  ultimately show ?thesis by blast
qed

lemma bang_operators: "''!='' \<in> set operators" "''!'' \<in> set operators"
  by (simp_all add: operators_def)

lemma lex_step_progress: "lex_step before c cs line = Inr (ts, n, line') \<Longrightarrow> 0 < n"
  by (auto simp: lex_step_def Let_def comment_length_def is_number_part_def is_ident_part_def lf_def
      split: if_splits option.splits dest!: find_operator_length)

function lex_loop :: "string \<Rightarrow> string \<Rightarrow> nat \<Rightarrow> lex_error + token list" where
  "lex_loop before [] line = Inr [mk_token TokEOF [] line]"
| "lex_loop before (c # cs) line =
     (case lex_step before c cs line of
        Inl e \<Rightarrow> Inl e
      | Inr (ts, n, line') \<Rightarrow>
          bind_r (lex_loop (rev (take n (c # cs)) @ before) (drop n (c # cs)) line') (\<lambda>us. Inr (ts @ us)))"
  by pat_completeness auto
termination
  by (relation "measure (\<lambda>(before, rest, line). length rest)") (auto dest!: lex_step_progress)

definition lex :: "string \<Rightarrow> lex_error + token list" where
  "lex src = lex_loop [] src 1"

section \<open>What the scanner guarantees\<close>

definition token_ok :: "token \<Rightarrow> bool" where
  "token_ok t = (case tok_kind t of
     TokEOF \<Rightarrow> tok_text t = []
   | TokIdent \<Rightarrow> (\<exists>c cs. tok_text t = c # cs \<and> is_ident_start c \<and> list_all is_ident_part cs)
   | TokNumber \<Rightarrow> (\<exists>c cs. tok_text t = c # cs \<and> is_digit c \<and> list_all is_number_part cs)
   | TokString \<Rightarrow> True
   | TokOperator \<Rightarrow> tok_text t \<in> set operators
   | TokPunct \<Rightarrow> (\<exists>c. tok_text t = [c] \<and> is_punct c))"

text \<open>A stream is closed when its last token, and only that, is the end of input, which has no text.\<close>

definition closed_stream :: "token list \<Rightarrow> bool" where
  "closed_stream ts \<longleftrightarrow> ts \<noteq> [] \<and> tok_kind (last ts) = TokEOF \<and> tok_text (last ts) = [] \<and>
     (\<forall>t \<in> set (butlast ts). tok_kind t \<noteq> TokEOF)"

lemma closed_Cons: "closed_stream (t # ts) \<longleftrightarrow> (if tok_kind t = TokEOF then ts = [] \<and> tok_text t = [] else closed_stream ts)"
  by (auto simp: closed_stream_def)

lemma closed_append: "\<forall>t \<in> set ts. tok_kind t \<noteq> TokEOF \<Longrightarrow> closed_stream us \<Longrightarrow> closed_stream (ts @ us)"
  by (induction ts) (auto simp: closed_Cons)

lemma takeWhile_list_all: "list_all P (takeWhile P xs)"
  by (auto simp: list_all_iff dest: set_takeWhileD)

lemma lex_step_tokens:
  "lex_step before c cs line = Inr (ts, n, line') \<Longrightarrow>
   \<forall>t \<in> set ts. tok_kind t \<noteq> TokEOF \<and> token_ok t \<and> tok_line t = line \<and> line' = line"
  by (auto simp: lex_step_def Let_def token_ok_def bang_operators takeWhile_list_all
      is_number_part_def is_ident_part_def split: if_splits option.splits dest!: find_operator_length)

lemma lex_step_line: "lex_step before c cs line = Inr (ts, n, line') \<Longrightarrow> line \<le> line'"
  by (auto simp: lex_step_def Let_def split: if_splits option.splits)

lemma lex_loop_tokens:
  "lex_loop before rest line = Inr ts \<Longrightarrow>
   closed_stream ts \<and> (\<forall>t \<in> set ts. token_ok t \<and> line \<le> tok_line t) \<and> sorted (map tok_line ts)"
proof (induction before rest line arbitrary: ts rule: lex_loop.induct)
  case (1 before line)
  then show ?case by (auto simp: closed_stream_def token_ok_def)
next
  case (2 before c cs line)
  then obtain us n line' vs where st: "lex_step before c cs line = Inr (us, n, line')"
    and lo: "lex_loop (rev (take n (c # cs)) @ before) (drop n (c # cs)) line' = Inr vs" and ts: "ts = us @ vs"
    by (auto split: sum.splits prod.splits)
  from "2.IH" [OF st refl refl lo]
  have ih: "closed_stream vs" "\<forall>t \<in> set vs. token_ok t \<and> line' \<le> tok_line t" "sorted (map tok_line vs)" by auto
  have "line \<le> line'" by (rule lex_step_line [OF st])
  with ih lex_step_tokens [OF st] have "\<forall>t \<in> set ts. token_ok t \<and> line \<le> tok_line t" "closed_stream ts"
    by (auto simp: ts intro!: closed_append)
  moreover have "sorted (map tok_line us)"
    using lex_step_tokens [OF st] by (auto simp: sorted_iff_nth_mono)
  then have "sorted (map tok_line ts)"
    using ih lex_step_tokens [OF st] by (fastforce simp: ts sorted_append)
  ultimately show ?case by simp
qed

lemma lex_closed: "lex src = Inr ts \<Longrightarrow> closed_stream ts"
  by (simp add: lex_def lex_loop_tokens)

section \<open>Properties\<close>

text \<open>C19. A scanned script is a well-formed token stream: exactly one end of input, at the end; names,
  numbers, operators and punctuation spelt as the language has them; line numbers never go back.\<close>

theorem lex_well_formed:
  assumes "lex src = Inr ts"
  shows "closed_stream ts \<and> list_all token_ok ts \<and> sorted (map tok_line ts)"
  using lex_loop_tokens [OF assms [unfolded lex_def]] by (auto simp: list_all_iff)

theorem lex_well_formed_witness:
  "closed_stream [mk_token TokIdent ''x'' 1, mk_token TokOperator ''='' 1, mk_token TokNumber ''4.5'' 1, mk_token TokPunct '';'' 1, mk_token TokEOF [] 2]"
proof -
  have "lex (''x=4.5; !# note'' @ [lf]) = Inr [mk_token TokIdent ''x'' 1, mk_token TokOperator ''='' 1,
      mk_token TokNumber ''4.5'' 1, mk_token TokPunct '';'' 1, mk_token TokEOF [] 2]"
    by code_simp
  from lex_well_formed [OF this] show ?thesis by simp
qed

end
