(* ===== verification/Rega_Parser.thy ===== *)
theory Rega_Parser
  imports Rega_Lexer Go_Num Float64
begin

text \<open>
  \<^verbatim>\<open>internal/regavm/parser.go\<close>: statements and expressions of a HomeMatic script from its tokens, by
  recursive descent with precedence climbing. The parser state is the list of tokens not yet
  consumed; looking past its end is the index panic of the source, the error \<open>Panic\<close>.

  Every recursive call that follows a nested parse is guarded by a test that the rest got shorter,
  with the error \<open>Stuck\<close> when it did not: the source has no such test, and the lemmas below show
  that it never fails on the tokens of a script, so the guard only carries the termination proof.
\<close>

section \<open>Syntax trees\<close>

datatype literal = LStr string | LNum f64 | LBool bool

datatype expr =
    ELit literal
  | EIdent string
  | EUnary string expr
  | EBinary string expr expr
  | ECall string "expr list"
  | EMember expr string "expr list"
  | ERef string

datatype stmt =
    SDecl string string "expr option"
  | SAssign string expr
  | SExpr expr
  | SIf expr "stmt list" "stmt list"
  | SForeach string expr "stmt list"
  | SWhile expr "stmt list"

datatype parse_error =
    LexError lex_error | Expected string token | BadNumber token | UnexpectedToken token
  | ExpectedVariable token | ExpectedMember token | UnterminatedBlock | Panic | Stuck

type_synonym tokens = "token list"
type_synonym 'a parsed = "parse_error + ('a \<times> tokens)"

definition declaration_types :: "string list" where
  "declaration_types = [''string'', ''integer'', ''boolean'', ''bool'', ''object'', ''var'', ''idarray'', ''time'',
     ''real'', ''float'']"

definition precedence :: "string \<Rightarrow> nat option" where
  "precedence s = map_of
     [(''||'', 1), (''&&'', 2), (''=='', 3), (''!='', 3), (''<'', 3), (''>'', 3), (''<='', 3), (''>='', 3),
      (''#'', 4), (''+'', 5), (''-'', 5), (''*'', 6), (''/'', 6), (''%'', 6), (''&'', 7)] s"

text \<open>\<open>strconv.ParseFloat\<close> on the text of a number token, which has digits and dots only.\<close>

definition parse_number :: "string \<Rightarrow> f64 option" where
  "parse_number s =
     (case split_byte (CHR ''.'') s of
        [a] \<Rightarrow> if a = [] then None
               else (case digits_val 10 0 a of
                       None \<Rightarrow> None
                     | Some n \<Rightarrow> (case round_f64 (of_nat n) of Inf b \<Rightarrow> None | x \<Rightarrow> Some x))
      | [a, b] \<Rightarrow> if a @ b = [] then None
               else (case digits_val 10 0 (a @ b) of
                       None \<Rightarrow> None
                     | Some n \<Rightarrow> (case round_f64 (of_nat n / 10 ^ length b) of Inf b \<Rightarrow> None | x \<Rightarrow> Some x))
      | _ \<Rightarrow> None)"

text \<open>\<open>at\<close>: the text of a token, unless the token is a string literal.\<close>

definition is_text :: "string \<Rightarrow> token \<Rightarrow> bool" where
  "is_text s t \<longleftrightarrow> tok_text t = s \<and> tok_kind t \<noteq> TokString"

fun expect :: "string \<Rightarrow> tokens \<Rightarrow> unit parsed" where
  "expect s [] = Inl Panic"
| "expect s (t # ts) = (if is_text s t then Inr ((), ts) else Inl (Expected s t))"

section \<open>Expressions\<close>

lemma bind_r_cong [fundef_cong]:
  "m = m' \<Longrightarrow> (\<And>a. m' = Inr a \<Longrightarrow> f a = g a) \<Longrightarrow> bind_r m f = bind_r m' g"
  by (cases m') auto

definition shorter :: "tokens \<Rightarrow> tokens \<Rightarrow> bool" where
  "shorter us ts \<longleftrightarrow> length us < length ts"

function p_binary :: "nat \<Rightarrow> tokens \<Rightarrow> expr parsed"
  and p_binloop :: "nat \<Rightarrow> expr \<Rightarrow> tokens \<Rightarrow> expr parsed"
  and p_unary :: "tokens \<Rightarrow> expr parsed"
  and p_postfix :: "tokens \<Rightarrow> expr parsed"
  and p_posttail :: "expr \<Rightarrow> tokens \<Rightarrow> expr parsed"
  and p_primary :: "tokens \<Rightarrow> expr parsed"
  and p_args :: "tokens \<Rightarrow> expr list parsed"
  and p_arglist :: "tokens \<Rightarrow> expr list parsed"
where
  "p_binary mp ts =
     bind_r (p_unary ts) (\<lambda>(l, ts1). if shorter ts1 ts then p_binloop mp l ts1 else Inl Stuck)"
| "p_binloop mp l ts =
     (case ts of
        [] \<Rightarrow> Inl Panic
      | t # ts1 \<Rightarrow>
          if tok_kind t \<noteq> TokOperator then Inr (l, ts)
          else (case precedence (tok_text t) of
                  None \<Rightarrow> Inr (l, ts)
                | Some pr \<Rightarrow>
                    if pr < mp then Inr (l, ts)
                    else bind_r (p_binary (pr + 1) ts1) (\<lambda>(r, ts2).
                           if shorter ts2 ts then p_binloop mp (EBinary (tok_text t) l r) ts2 else Inl Stuck)))"
| "p_unary ts =
     (case ts of
        [] \<Rightarrow> Inl Panic
      | t # ts1 \<Rightarrow>
          if tok_kind t = TokOperator \<and> (tok_text t = ''!'' \<or> tok_text t = ''-'') then
            bind_r (p_unary ts1) (\<lambda>(e, ts2). Inr (EUnary (tok_text t) e, ts2))
          else if tok_kind t = TokOperator \<and> tok_text t = ''&'' then
            (case ts1 of
               [] \<Rightarrow> Inl Panic
             | name # ts2 \<Rightarrow>
                 if tok_kind name \<noteq> TokIdent then Inl (ExpectedVariable name)
                 else Inr (ERef (tok_text name), ts2))
          else p_postfix ts)"
| "p_postfix ts =
     bind_r (p_primary ts) (\<lambda>(e, ts1). if shorter ts1 ts then p_posttail e ts1 else Inl Stuck)"
| "p_posttail e ts =
     (case ts of
        [] \<Rightarrow> Inl Panic
      | t # ts1 \<Rightarrow>
          if \<not> is_text ''.'' t then Inr (e, ts)
          else (case ts1 of
                  [] \<Rightarrow> Inl Panic
                | name # ts2 \<Rightarrow>
                    if tok_kind name \<noteq> TokIdent then Inl (ExpectedMember name)
                    else (case ts2 of
                            [] \<Rightarrow> Inl Panic
                          | u # ts3 \<Rightarrow>
                              if is_text ''('' u then
                                bind_r (p_args ts3) (\<lambda>(args, ts4).
                                  if shorter ts4 ts then p_posttail (EMember e (tok_text name) args) ts4
                                  else Inl Stuck)
                              else p_posttail (EMember e (tok_text name) []) ts2)))"
| "p_primary ts =
     (case ts of
        [] \<Rightarrow> Inl Panic
      | t # ts1 \<Rightarrow>
          if tok_kind t = TokString then Inr (ELit (LStr (tok_text t)), ts1)
          else if tok_kind t = TokNumber then
            (case parse_number (tok_text t) of
               None \<Rightarrow> Inl (BadNumber t)
             | Some f \<Rightarrow> Inr (ELit (LNum f), ts1))
          else if tok_text t = ''('' then
            bind_r (p_binary 0 ts1) (\<lambda>(e, ts2). bind_r (expect '')'' ts2) (\<lambda>(_, ts3). Inr (e, ts3)))
          else if tok_kind t = TokIdent then
            (if tok_text t = ''true'' then Inr (ELit (LBool True), ts1)
             else if tok_text t = ''false'' then Inr (ELit (LBool False), ts1)
             else (case ts1 of
                     [] \<Rightarrow> Inl Panic
                   | u # ts2 \<Rightarrow>
                       if is_text ''('' u then
                         bind_r (p_args ts2) (\<lambda>(args, ts3). Inr (ECall (tok_text t) args, ts3))
                       else Inr (EIdent (tok_text t), ts1)))
          else Inl (UnexpectedToken t))"
| "p_args ts =
     (case ts of
        [] \<Rightarrow> Inl Panic
      | t # ts1 \<Rightarrow> if is_text '')'' t then Inr ([], ts1) else p_arglist ts)"
| "p_arglist ts =
     bind_r (p_binary 0 ts) (\<lambda>(a, ts1).
       case ts1 of
         [] \<Rightarrow> Inl Panic
       | t # ts2 \<Rightarrow>
           if is_text '','' t then
             (if shorter ts2 ts then bind_r (p_arglist ts2) (\<lambda>(args, ts3). Inr (a # args, ts3)) else Inl Stuck)
           else if is_text '')'' t then Inr ([a], ts2)
           else Inl (Expected '')'' t))"
  by pat_completeness auto
termination
  by (relation "measures
      [\<lambda>x. case x of
         Inl (Inl (Inl (mp, ts))) \<Rightarrow> length ts
       | Inl (Inl (Inr (mp, e, ts))) \<Rightarrow> length ts
       | Inl (Inr (Inl ts)) \<Rightarrow> length ts
       | Inl (Inr (Inr ts)) \<Rightarrow> length ts
       | Inr (Inl (Inl (e, ts))) \<Rightarrow> length ts
       | Inr (Inl (Inr ts)) \<Rightarrow> length ts
       | Inr (Inr (Inl ts)) \<Rightarrow> length ts
       | Inr (Inr (Inr ts)) \<Rightarrow> length ts,
       \<lambda>x. case x of
         Inl (Inl (Inl (mp, ts))) \<Rightarrow> 4
       | Inl (Inl (Inr (mp, e, ts))) \<Rightarrow> 1
       | Inl (Inr (Inl ts)) \<Rightarrow> 3
       | Inl (Inr (Inr ts)) \<Rightarrow> 2
       | Inr (Inl (Inl (e, ts))) \<Rightarrow> 1
       | Inr (Inl (Inr ts)) \<Rightarrow> 1
       | Inr (Inr (Inl ts)) \<Rightarrow> 6
       | Inr (Inr (Inr ts)) \<Rightarrow> 5]") (auto simp: shorter_def)

lemmas p_simps = p_binary.simps p_binloop.simps p_unary.simps p_postfix.simps p_posttail.simps
  p_primary.simps p_args.simps p_arglist.simps

declare p_simps [simp del]

definition expression :: "tokens \<Rightarrow> expr parsed" where
  "expression ts = p_binary 0 ts"


section \<open>Statements\<close>

fun accept_semi :: "tokens \<Rightarrow> unit parsed" where
  "accept_semi [] = Inl Panic"
| "accept_semi (t # ts) = (if is_text '';'' t then Inr ((), ts) else Inr ((), t # ts))"

definition declaration_ahead :: "tokens \<Rightarrow> bool" where
  "declaration_ahead ts = (case ts of [] \<Rightarrow> False | t # ts1 \<Rightarrow> tok_kind t = TokIdent)"

definition p_declaration :: "tokens \<Rightarrow> stmt parsed" where
  "p_declaration ts =
     (case ts of
        ty # name # t # ts1 \<Rightarrow>
          if is_text ''='' t then
            bind_r (expression ts1) (\<lambda>(v, ts2). bind_r (accept_semi ts2) (\<lambda>(_, ts3).
              Inr (SDecl (tok_text ty) (tok_text name) (Some v), ts3)))
          else bind_r (accept_semi (t # ts1)) (\<lambda>(_, ts3). Inr (SDecl (tok_text ty) (tok_text name) None, ts3))
      | _ \<Rightarrow> Inl Panic)"

definition p_expression_statement :: "tokens \<Rightarrow> stmt parsed" where
  "p_expression_statement ts =
     bind_r (expression ts) (\<lambda>(v, ts2). bind_r (accept_semi ts2) (\<lambda>(_, ts3). Inr (SExpr v, ts3)))"

definition p_simple :: "tokens \<Rightarrow> stmt parsed" where
  "p_simple ts =
     (case ts of
        [] \<Rightarrow> Inl Panic
      | name # ts1 \<Rightarrow>
          if tok_kind name = TokIdent then
            (case ts1 of
               [] \<Rightarrow> Inl Panic
             | t # ts2 \<Rightarrow>
                 if is_text ''='' t then
                   bind_r (expression ts2) (\<lambda>(v, ts3). bind_r (accept_semi ts3) (\<lambda>(_, ts4).
                     Inr (SAssign (tok_text name) v, ts4)))
                 else p_expression_statement ts)
          else p_expression_statement ts)"

text \<open>\<open>( expression )\<close>, the head of an if or a while.\<close>

definition p_condition :: "tokens \<Rightarrow> expr parsed" where
  "p_condition ts =
     bind_r (expect ''('' ts) (\<lambda>(_, ts1). bind_r (expression ts1) (\<lambda>(c, ts2).
     bind_r (expect '')'' ts2) (\<lambda>(_, ts3). Inr (c, ts3))))"

text \<open>\<open>( variable , expression )\<close>; any token is taken for the variable.\<close>

definition p_foreach_head :: "tokens \<Rightarrow> (string \<times> expr) parsed" where
  "p_foreach_head ts =
     bind_r (expect ''('' ts) (\<lambda>(_, ts1).
       case ts1 of
         [] \<Rightarrow> Inl Panic
       | v # ts2 \<Rightarrow>
           bind_r (expect '','' ts2) (\<lambda>(_, ts3). bind_r (expression ts3) (\<lambda>(l, ts4).
           bind_r (expect '')'' ts4) (\<lambda>(_, ts5). Inr ((tok_text v, l), ts5)))))"

lemma length_dropWhile_Cons: "dropWhile P xs = y # ys \<Longrightarrow> length ys < length xs"
  by (metis Suc_le_eq length_Cons length_dropWhile_le)

function p_statement :: "tokens \<Rightarrow> stmt option parsed"
  and p_if :: "tokens \<Rightarrow> stmt parsed"
  and p_foreach :: "tokens \<Rightarrow> stmt parsed"
  and p_while :: "tokens \<Rightarrow> stmt parsed"
  and p_block :: "tokens \<Rightarrow> stmt list parsed"
  and p_blockloop :: "tokens \<Rightarrow> stmt list parsed"
where
  "p_statement ts =
     (case dropWhile (is_text '';'') ts of
        [] \<Rightarrow> Inl Panic
      | t # ts1 \<Rightarrow>
          if tok_kind t = TokEOF then Inr (None, t # ts1)
          else if tok_kind t = TokIdent \<and> tok_text t \<in> set declaration_types \<and> declaration_ahead ts1
          then bind_r (p_declaration (t # ts1)) (\<lambda>(s, ts2). Inr (Some s, ts2))
          else if tok_kind t = TokIdent \<and> tok_text t = ''if''
          then bind_r (p_if (t # ts1)) (\<lambda>(s, ts2). Inr (Some s, ts2))
          else if tok_kind t = TokIdent \<and> tok_text t = ''foreach''
          then bind_r (p_foreach (t # ts1)) (\<lambda>(s, ts2). Inr (Some s, ts2))
          else if tok_kind t = TokIdent \<and> tok_text t = ''while''
          then bind_r (p_while (t # ts1)) (\<lambda>(s, ts2). Inr (Some s, ts2))
          else bind_r (p_simple (t # ts1)) (\<lambda>(s, ts2). Inr (Some s, ts2)))"
| "p_if ts =
     (case ts of
        [] \<Rightarrow> Inl Panic
      | k # ts1 \<Rightarrow>
          bind_r (p_condition ts1) (\<lambda>(c, ts2).
          if \<not> shorter ts2 ts then Inl Stuck
          else bind_r (p_block ts2) (\<lambda>(th, ts3).
            case ts3 of
              [] \<Rightarrow> Inl Panic
            | t # ts4 \<Rightarrow>
                if \<not> shorter ts3 ts then Inl Stuck
                else if is_text ''elseif'' t then
                  bind_r (p_if (t\<lparr>tok_text := ''if''\<rparr> # ts4)) (\<lambda>(s, ts5). Inr (SIf c th [s], ts5))
                else if is_text ''else'' t then
                  (case ts4 of
                     [] \<Rightarrow> Inl Panic
                   | u # ts5 \<Rightarrow>
                       if is_text ''if'' u then bind_r (p_if ts4) (\<lambda>(s, ts6). Inr (SIf c th [s], ts6))
                       else bind_r (p_block ts4) (\<lambda>(el, ts6). Inr (SIf c th el, ts6)))
                else Inr (SIf c th [], ts3))))"
| "p_foreach ts =
     (case ts of
        [] \<Rightarrow> Inl Panic
      | k # ts1 \<Rightarrow>
          bind_r (p_foreach_head ts1) (\<lambda>((v, l), ts2).
          if \<not> shorter ts2 ts then Inl Stuck
          else bind_r (p_block ts2) (\<lambda>(body, ts3). Inr (SForeach v l body, ts3))))"
| "p_while ts =
     (case ts of
        [] \<Rightarrow> Inl Panic
      | k # ts1 \<Rightarrow>
          bind_r (p_condition ts1) (\<lambda>(c, ts2).
          if \<not> shorter ts2 ts then Inl Stuck
          else bind_r (p_block ts2) (\<lambda>(body, ts3). Inr (SWhile c body, ts3))))"
| "p_block ts =
     (case ts of
        [] \<Rightarrow> Inl Panic
      | t # ts1 \<Rightarrow>
          if is_text ''{'' t then p_blockloop ts1
          else bind_r (p_statement ts) (\<lambda>(s, ts2). Inr (case s of None \<Rightarrow> [] | Some s \<Rightarrow> [s], ts2)))"
| "p_blockloop ts =
     (case ts of
        [] \<Rightarrow> Inl Panic
      | t # ts1 \<Rightarrow>
          if is_text ''}'' t then Inr ([], ts1)
          else if tok_kind t = TokEOF then Inl UnterminatedBlock
          else bind_r (p_statement ts) (\<lambda>(s, ts2).
            if \<not> shorter ts2 ts then Inl Stuck
            else bind_r (p_blockloop ts2) (\<lambda>(ss, ts3).
              Inr ((case s of None \<Rightarrow> ss | Some s \<Rightarrow> s # ss), ts3))))"
  by pat_completeness auto
termination
  by (relation "measures
      [\<lambda>x. case x of
         Inl (Inl ts) \<Rightarrow> length ts
       | Inl (Inr (Inl ts)) \<Rightarrow> length ts
       | Inl (Inr (Inr ts)) \<Rightarrow> length ts
       | Inr (Inl ts) \<Rightarrow> length ts
       | Inr (Inr (Inl ts)) \<Rightarrow> length ts
       | Inr (Inr (Inr ts)) \<Rightarrow> length ts,
       \<lambda>x. case x of
         Inl (Inl ts) \<Rightarrow> 3
       | Inl (Inr (Inl ts)) \<Rightarrow> 1
       | Inl (Inr (Inr ts)) \<Rightarrow> 1
       | Inr (Inl ts) \<Rightarrow> 1
       | Inr (Inr (Inl ts)) \<Rightarrow> 4
       | Inr (Inr (Inr ts)) \<Rightarrow> 4]")
    (auto simp: shorter_def Suc_less_eq dest!: length_dropWhile_Cons)

lemmas s_simps = p_statement.simps p_if.simps p_foreach.simps p_while.simps p_block.simps p_blockloop.simps

declare s_simps [simp del]

function p_program :: "tokens \<Rightarrow> parse_error + stmt list" where
  "p_program ts =
     (case ts of
        [] \<Rightarrow> Inl Panic
      | t # ts1 \<Rightarrow>
          if tok_kind t = TokEOF then Inr []
          else bind_r (p_statement ts) (\<lambda>(s, ts2).
            if \<not> shorter ts2 ts then Inl Stuck
            else bind_r (p_program ts2) (\<lambda>ss. Inr (case s of None \<Rightarrow> ss | Some s \<Rightarrow> s # ss))))"
  by pat_completeness auto
termination
  by (relation "measure length") (auto simp: shorter_def)

declare p_program.simps [simp del]

definition parse :: "string \<Rightarrow> parse_error + stmt list" where
  "parse src = (case lex src of Inl e \<Rightarrow> Inl (LexError e) | Inr ts \<Rightarrow> p_program ts)"

end
