(* ===== verification/Rega_Parser_Props.thy ===== *)
theory Rega_Parser_Props
  imports Rega_Parser
begin

text \<open>
  The script parser terminates with a tree or an error on every token stream, steps past the end of
  its input in one situation only, and inverts the printing of expressions: precedence climbing
  builds the tree the precedences ask for.
\<close>

section \<open>Progress\<close>

lemma closed_suffix: "closed_stream ts \<Longrightarrow> suffix us ts \<Longrightarrow> us \<noteq> [] \<Longrightarrow> closed_stream us"
  by (auto simp: closed_stream_def suffix_def butlast_append last_append split: if_splits)

lemma closed_nonempty: "closed_stream ts \<Longrightarrow> ts \<noteq> []"
  by (simp add: closed_stream_def)

text \<open>An expression parser on a closed stream consumes something, or fails with an error of the language.\<close>

definition okx :: "tokens \<Rightarrow> 'a parsed \<Rightarrow> bool" where
  "okx ts r \<longleftrightarrow> (case r of Inl e \<Rightarrow> e \<noteq> Panic \<and> e \<noteq> Stuck | Inr (a, us) \<Rightarrow> strict_suffix us ts \<and> us \<noteq> [])"

text \<open>The two loops may consume nothing.\<close>

definition okl :: "tokens \<Rightarrow> 'a parsed \<Rightarrow> bool" where
  "okl ts r \<longleftrightarrow> (case r of Inl e \<Rightarrow> e \<noteq> Panic \<and> e \<noteq> Stuck | Inr (a, us) \<Rightarrow> suffix us ts \<and> us \<noteq> [])"

lemma okx_Inr [simp]: "okx ts (Inr (a, us)) \<longleftrightarrow> strict_suffix us ts \<and> us \<noteq> []"
  by (simp add: okx_def)

lemma okx_Inl [simp]: "okx ts (Inl e) \<longleftrightarrow> e \<noteq> Panic \<and> e \<noteq> Stuck"
  by (simp add: okx_def)

lemma okl_Inr [simp]: "okl ts (Inr (a, us)) \<longleftrightarrow> suffix us ts \<and> us \<noteq> []"
  by (simp add: okl_def)

lemma okl_Inl [simp]: "okl ts (Inl e) \<longleftrightarrow> e \<noteq> Panic \<and> e \<noteq> Stuck"
  by (simp add: okl_def)

lemma strict_suffix_shorter: "strict_suffix us ts \<Longrightarrow> shorter us ts"
  by (auto simp: strict_suffix_def suffix_def shorter_def)

lemma okx_mono: "okx us r \<Longrightarrow> suffix us ts \<Longrightarrow> okx ts r"
  by (auto simp: okx_def split: sum.splits prod.splits)

lemma okl_okx: "okl us r \<Longrightarrow> strict_suffix us ts \<Longrightarrow> okx ts r"
  by (auto simp: okx_def okl_def split: sum.splits prod.splits)

lemma okl_mono: "okl us r \<Longrightarrow> suffix us ts \<Longrightarrow> okl ts r"
  by (auto simp: okl_def split: sum.splits prod.splits)

lemma okx_okl: "okx ts r \<Longrightarrow> okl ts r"
  by (auto simp: okx_def okl_def split: sum.splits prod.splits)

lemma bind_ok:
  assumes "closed_stream ts" and "okx ts m"
    and "\<And>a us. m = Inr (a, us) \<Longrightarrow> strict_suffix us ts \<Longrightarrow> closed_stream us \<Longrightarrow> R (f (a, us))"
    and "\<And>e. e \<noteq> Panic \<Longrightarrow> e \<noteq> Stuck \<Longrightarrow> R (Inl e)"
  shows "R (bind_r m f)"
proof (cases m)
  case (Inl e)
  with assms show ?thesis by simp
next
  case (Inr p)
  obtain a us where p: "p = (a, us)" by (cases p)
  with Inr assms(2) have us: "strict_suffix us ts" "us \<noteq> []" by auto
  with closed_suffix [OF assms(1)] have "closed_stream us" by (simp add: strict_suffix_def)
  with assms(3) us Inr p show ?thesis by simp
qed

lemma okx_bind:
  assumes "closed_stream ts" and "okx ts m"
    and "\<And>a us. m = Inr (a, us) \<Longrightarrow> strict_suffix us ts \<Longrightarrow> closed_stream us \<Longrightarrow> okx ts (f (a, us))"
  shows "okx ts (bind_r m f)"
  by (rule bind_ok [OF assms(1,2)]) (simp_all add: assms(3))

lemma closed_cases:
  assumes "closed_stream ts"
  obtains (eof) t where "ts = [t]" "tok_kind t = TokEOF" "tok_text t = []"
    | (tok) t us where "ts = t # us" "tok_kind t \<noteq> TokEOF" "closed_stream us"
proof (cases ts)
  case (Cons t us)
  with assms show ?thesis
    by (cases "tok_kind t = TokEOF") (simp_all add: closed_Cons eof tok)
qed (use closed_nonempty [OF assms] in simp)

lemma strict_suffix_ConsI [simp]: "strict_suffix us (t # us)"
  by (simp add: strict_suffix_def suffix_def)

lemma strict_suffix_Cons: "suffix us ts \<Longrightarrow> strict_suffix us (t # ts)"
  by (auto simp: strict_suffix_def suffix_def)

lemma strict_suffix_ConsD: "strict_suffix (u # us) ts \<Longrightarrow> strict_suffix us ts"
  by (auto simp: strict_suffix_def suffix_def dest: arg_cong [where f = length])

lemma strict_suffix_length: "strict_suffix us ts \<Longrightarrow> length us < length ts"
  by (auto simp: strict_suffix_def suffix_def)

lemma expect_ok: "closed_stream ts \<Longrightarrow> s \<noteq> [] \<Longrightarrow> okx ts (expect s ts)"
  by (erule closed_cases) (auto simp: is_text_def closed_nonempty)

definition expr_ok :: "tokens \<Rightarrow> bool" where
  "expr_ok ts \<longleftrightarrow> (\<forall>mp. okx ts (p_binary mp ts)) \<and> (\<forall>mp e. okl ts (p_binloop mp e ts)) \<and>
     okx ts (p_unary ts) \<and> okx ts (p_postfix ts) \<and> (\<forall>e. okl ts (p_posttail e ts)) \<and>
     okx ts (p_primary ts) \<and> okx ts (p_args ts) \<and> okx ts (p_arglist ts)"

lemma expr_okD:
  "expr_ok ts \<Longrightarrow> okx ts (p_binary mp ts)" "expr_ok ts \<Longrightarrow> okl ts (p_binloop mp e ts)"
  "expr_ok ts \<Longrightarrow> okx ts (p_unary ts)" "expr_ok ts \<Longrightarrow> okx ts (p_postfix ts)"
  "expr_ok ts \<Longrightarrow> okl ts (p_posttail e ts)" "expr_ok ts \<Longrightarrow> okx ts (p_primary ts)"
  "expr_ok ts \<Longrightarrow> okx ts (p_args ts)" "expr_ok ts \<Longrightarrow> okx ts (p_arglist ts)"
  by (simp_all add: expr_ok_def)

lemma suffix_strictD: "strict_suffix us ts \<Longrightarrow> suffix us ts"
  by (simp add: strict_suffix_def)

lemma primary_ok:
  assumes cl: "closed_stream ts" and IH: "\<And>us. strict_suffix us ts \<Longrightarrow> closed_stream us \<Longrightarrow> expr_ok us"
  shows "okx ts (p_primary ts)"
  using cl
proof (cases rule: closed_cases)
  case (eof t)
  then show ?thesis by (simp add: p_primary.simps)
next
  case (tok t us)
  have us: "strict_suffix us ts" "us \<noteq> []" using tok by (simp_all add: closed_nonempty)
  have paren: "okx ts (bind_r (p_binary 0 us) (\<lambda>(e, ts2). bind_r (expect '')'' ts2) (\<lambda>(_, ts3). Inr (e, ts3))))"
    for e :: expr
  proof (rule okx_bind [OF cl okx_mono [OF expr_okD(1) [OF IH [OF us(1) tok(3)]] suffix_strictD [OF us(1)]]])
    fix a vs
    assume vs: "strict_suffix vs ts" "closed_stream vs"
    show "okx ts (case (a, vs) of (e, ts2) \<Rightarrow> bind_r (expect '')'' ts2) (\<lambda>(_, ts3). Inr (e, ts3)))"
      unfolding prod.case
      by (rule okx_bind [OF cl okx_mono [OF expect_ok [OF vs(2)] suffix_strictD [OF vs(1)]]])
        (auto simp: closed_nonempty)
  qed
  have call: "okx ts (bind_r (p_args vs) (\<lambda>(args, ts3). Inr (ECall n args, ts3)))"
    if "us = u # vs" "is_text ''('' u" for u vs n
  proof -
    from that tok(3) have "closed_stream vs" by (auto simp: closed_Cons is_text_def split: if_splits)
    moreover have "strict_suffix vs ts" using tok(1) that by (auto intro: strict_suffix_Cons suffix_ConsI)
    ultimately show ?thesis
      by (intro okx_bind [OF cl okx_mono [OF expr_okD(7) [OF IH] suffix_strictD]]) (auto simp: closed_nonempty)
  qed
  show ?thesis
    using tok us paren call by (auto simp: p_primary.simps [of "t # us"] split: option.splits list.splits)
qed

lemma posttail_ok:
  assumes cl: "closed_stream ts" and IH: "\<And>us. strict_suffix us ts \<Longrightarrow> closed_stream us \<Longrightarrow> expr_ok us"
  shows "okl ts (p_posttail e ts)"
  using cl
proof (cases rule: closed_cases)
  case (eof t)
  then show ?thesis by (simp add: p_posttail.simps is_text_def)
next
  case (tok t us)
  note tok1 = tok
  from tok(3) show ?thesis
  proof (cases rule: closed_cases)
    case (eof n)
    with tok1 show ?thesis by (subst p_posttail.simps) simp
  next
    case (tok n vs)
    from closed_nonempty [OF tok(3)] obtain u ws where vs: "vs = u # ws" by (cases vs) auto
    have s: "strict_suffix vs ts" using tok1(1) tok(1) by (auto intro: strict_suffix_Cons suffix_ConsI)
    have args: "okl ts (bind_r (p_args ws) (\<lambda>(args, ts4). if shorter ts4 ts then p_posttail (EMember e m args) ts4 else Inl Stuck))"
      if "is_text ''('' u" for m
    proof -
      have ws: "closed_stream ws" using that tok(3) by (auto simp: vs closed_Cons is_text_def split: if_splits)
      have s': "strict_suffix ws ts" using s by (simp add: vs strict_suffix_ConsD)
      show ?thesis
      proof (rule bind_ok [OF cl okx_mono [OF expr_okD(7) [OF IH [OF s' ws]] suffix_strictD [OF s']]])
        fix a xs
        assume xs: "strict_suffix xs ts" "closed_stream xs"
        then show "okl ts (case (a, xs) of (args, ts4) \<Rightarrow>
            if shorter ts4 ts then p_posttail (EMember e m args) ts4 else Inl Stuck)"
          using okl_mono [OF expr_okD(5) [OF IH [OF xs]] suffix_strictD [OF xs(1)]] strict_suffix_shorter [OF xs(1)]
          by simp
      qed simp
    qed
    have plain: "okl ts (p_posttail (EMember e m []) vs)" for m
      by (rule okl_mono [OF expr_okD(5) [OF IH [OF s tok(3)]] suffix_strictD [OF s]])
    show ?thesis
      using tok1 tok vs args plain by (subst p_posttail.simps) auto
  qed
qed

lemma okx_okl_bind:
  assumes cl: "closed_stream ts" and m: "okx ts m"
    and f: "\<And>a us. strict_suffix us ts \<Longrightarrow> closed_stream us \<Longrightarrow> okl us (f a us)"
  shows "okx ts (bind_r m (\<lambda>(a, us). if shorter us ts then f a us else Inl Stuck))"
  by (rule okx_bind [OF cl m]) (simp add: strict_suffix_shorter okl_okx [OF f])

lemma postfix_ok:
  assumes cl: "closed_stream ts" and IH: "\<And>us. strict_suffix us ts \<Longrightarrow> closed_stream us \<Longrightarrow> expr_ok us"
  shows "okx ts (p_postfix ts)"
  unfolding p_postfix.simps [of ts]
  by (rule okx_okl_bind [OF cl primary_ok [OF cl IH]]) (assumption | rule expr_okD(5) [OF IH])+

lemma unary_ok:
  assumes cl: "closed_stream ts" and IH: "\<And>us. strict_suffix us ts \<Longrightarrow> closed_stream us \<Longrightarrow> expr_ok us"
  shows "okx ts (p_unary ts)"
  using cl
proof (cases rule: closed_cases)
  case (eof t)
  then show ?thesis using postfix_ok [OF cl IH] by (simp add: p_unary.simps)
next
  case (tok t us)
  have us: "strict_suffix us ts" using tok(1) by simp
  have op: "okx ts (bind_r (p_unary us) (\<lambda>(e, ts2). Inr (EUnary n e, ts2)))" for n
    by (rule okx_bind [OF cl okx_mono [OF expr_okD(3) [OF IH [OF us tok(3)]] suffix_strictD [OF us]]])
      (auto simp: closed_nonempty)
  have ref: "okx ts (if tok_kind n \<noteq> TokIdent then Inl (ExpectedVariable n) else Inr (ERef (tok_text n), vs))"
    if "us = n # vs" for n vs
  proof (cases "tok_kind n = TokIdent")
    case True
    with tok(3) that have "closed_stream vs" by (auto simp: closed_Cons)
    with True that tok(1) show ?thesis by (auto simp: closed_nonempty intro: strict_suffix_Cons suffix_ConsI)
  qed simp
  show ?thesis
    using tok op ref postfix_ok [OF cl IH] closed_nonempty [OF tok(3)]
    by (subst p_unary.simps) (auto split: list.splits)
qed

lemma binary_ok:
  assumes cl: "closed_stream ts" and IH: "\<And>us. strict_suffix us ts \<Longrightarrow> closed_stream us \<Longrightarrow> expr_ok us"
  shows "okx ts (p_binary mp ts)"
  unfolding p_binary.simps [of mp ts]
  by (rule okx_okl_bind [OF cl unary_ok [OF cl IH]]) (assumption | rule expr_okD(2) [OF IH])+

lemma binloop_ok:
  assumes cl: "closed_stream ts" and IH: "\<And>us. strict_suffix us ts \<Longrightarrow> closed_stream us \<Longrightarrow> expr_ok us"
  shows "okl ts (p_binloop mp e ts)"
  using cl
proof (cases rule: closed_cases)
  case (eof t)
  then show ?thesis by (simp add: p_binloop.simps)
next
  case (tok t us)
  have us: "strict_suffix us ts" using tok(1) by simp
  have "okl ts (bind_r (p_binary n us) (\<lambda>(r, ts2).
      if shorter ts2 ts then p_binloop mp (EBinary (tok_text t) e r) ts2 else Inl Stuck))" for n
    by (rule okx_okl, rule okx_okl_bind [OF cl okx_mono [OF expr_okD(1) [OF IH [OF us tok(3)]] suffix_strictD [OF us]]])
      (assumption | rule expr_okD(2) [OF IH])+
  with tok show ?thesis by (subst p_binloop.simps) (auto split: option.splits)
qed

lemma arglist_ok:
  assumes cl: "closed_stream ts" and IH: "\<And>us. strict_suffix us ts \<Longrightarrow> closed_stream us \<Longrightarrow> expr_ok us"
  shows "okx ts (p_arglist ts)"
  unfolding p_arglist.simps [of ts]
proof (rule okx_bind [OF cl binary_ok [OF cl IH]], assumption+)
  fix a us
  assume us: "strict_suffix us ts" "closed_stream us"
  show "okx ts (case (a, us) of (a, ts1) \<Rightarrow> case ts1 of [] \<Rightarrow> Inl Panic
      | t # ts2 \<Rightarrow> if is_text '','' t then
          (if shorter ts2 ts then bind_r (p_arglist ts2) (\<lambda>(args, ts3). Inr (a # args, ts3)) else Inl Stuck)
        else if is_text '')'' t then Inr ([a], ts2) else Inl (Expected '')'' t))"
    using us(2)
  proof (cases rule: closed_cases)
    case (eof t)
    then show ?thesis by (simp add: is_text_def)
  next
    case (tok t vs)
    then have vs: "strict_suffix vs ts" using us(1) by (simp add: strict_suffix_ConsD)
    have "okx ts (bind_r (p_arglist vs) (\<lambda>(args, ts3). Inr (a # args, ts3)))"
      by (rule okx_bind [OF cl okx_mono [OF expr_okD(8) [OF IH [OF vs tok(3)]] suffix_strictD [OF vs]]])
        (auto simp: closed_nonempty)
    with tok vs show ?thesis by (auto simp: strict_suffix_shorter closed_nonempty)
  qed
qed

lemma args_ok:
  assumes cl: "closed_stream ts" and IH: "\<And>us. strict_suffix us ts \<Longrightarrow> closed_stream us \<Longrightarrow> expr_ok us"
  shows "okx ts (p_args ts)"
  using cl
proof (cases rule: closed_cases)
  case (eof t)
  then show ?thesis using arglist_ok [OF cl IH] by (simp add: p_args.simps is_text_def)
next
  case (tok t us)
  then show ?thesis using arglist_ok [OF cl IH] closed_nonempty [OF tok(3)] by (subst p_args.simps) auto
qed

lemma expressions_ok: "closed_stream ts \<Longrightarrow> expr_ok ts"
proof (induction ts rule: measure_induct_rule [of length])
  case (less ts)
  have IH: "expr_ok us" if "strict_suffix us ts" "closed_stream us" for us
    by (rule less.IH [OF strict_suffix_length [OF that(1)] that(2)])
  show ?case unfolding expr_ok_def
    by (intro conjI allI binary_ok binloop_ok unary_ok postfix_ok posttail_ok primary_ok args_ok arglist_ok
        less.prems IH)
qed

lemma expression_ok: "closed_stream ts \<Longrightarrow> okx ts (expression ts)"
  by (simp add: expression_def expr_okD(1) [OF expressions_ok])

section \<open>Statements\<close>

text \<open>The one way past the end of the tokens: the script stops after the parenthesis of a \<open>foreach\<close>.\<close>

definition dangling :: "tokens \<Rightarrow> bool" where
  "dangling ts \<longleftrightarrow> (\<exists>pre k p e. ts = pre @ [k, p, e] \<and> tok_kind k = TokIdent \<and> tok_text k = ''foreach'' \<and> is_text ''('' p)"

lemma dangling_suffix: "dangling us \<Longrightarrow> suffix us ts \<Longrightarrow> dangling ts"
  unfolding dangling_def suffix_def by (metis append_assoc)

definition soft :: "tokens \<Rightarrow> parse_error \<Rightarrow> bool" where
  "soft ts e \<longleftrightarrow> e \<noteq> Stuck \<and> (e = Panic \<longrightarrow> dangling ts)"

lemma soft_intro [simp]: "e \<noteq> Panic \<Longrightarrow> e \<noteq> Stuck \<Longrightarrow> soft ts e"
  by (simp add: soft_def)

lemma soft_mono: "soft us e \<Longrightarrow> suffix us ts \<Longrightarrow> soft ts e"
  by (auto simp: soft_def dangling_suffix)

definition okp :: "tokens \<Rightarrow> 'a parsed \<Rightarrow> bool" where
  "okp ts r \<longleftrightarrow> (case r of Inl e \<Rightarrow> soft ts e | Inr (a, us) \<Rightarrow> strict_suffix us ts \<and> us \<noteq> [])"

definition okq :: "tokens \<Rightarrow> 'a parsed \<Rightarrow> bool" where
  "okq ts r \<longleftrightarrow> (case r of Inl e \<Rightarrow> soft ts e | Inr (a, us) \<Rightarrow> suffix us ts \<and> us \<noteq> [])"

lemma okpq_sum [simp]:
  "okp ts (Inr (a, us)) \<longleftrightarrow> strict_suffix us ts \<and> us \<noteq> []" "okp ts (Inl e) \<longleftrightarrow> soft ts e"
  "okq ts (Inr (a, us)) \<longleftrightarrow> suffix us ts \<and> us \<noteq> []" "okq ts (Inl e) \<longleftrightarrow> soft ts e"
  by (simp_all add: okp_def okq_def)

lemma okx_okp: "okx ts r \<Longrightarrow> okp ts r"
  by (auto simp: okx_def okp_def split: sum.splits)

lemma okp_okq: "okp ts r \<Longrightarrow> okq ts r"
  by (auto simp: okq_def okp_def split: sum.splits)

lemma okp_mono: "okp us r \<Longrightarrow> suffix us ts \<Longrightarrow> okp ts r"
  by (auto simp: okp_def soft_mono split: sum.splits prod.splits)

lemma okq_okp: "okq us r \<Longrightarrow> strict_suffix us ts \<Longrightarrow> okp ts r"
  by (auto simp: okp_def okq_def suffix_strictD soft_mono split: sum.splits prod.splits)

lemma okp_bind:
  assumes "closed_stream ts" and "okp ts m"
    and "\<And>a us. m = Inr (a, us) \<Longrightarrow> strict_suffix us ts \<Longrightarrow> closed_stream us \<Longrightarrow> okp ts (f (a, us))"
  shows "okp ts (bind_r m f)"
proof (cases m)
  case (Inl e)
  with assms show ?thesis by simp
next
  case (Inr p)
  obtain a us where p: "p = (a, us)" by (cases p)
  with Inr assms(2) have us: "strict_suffix us ts" "us \<noteq> []" by auto
  with closed_suffix [OF assms(1)] have "closed_stream us" by (simp add: strict_suffix_def)
  with assms(3) us Inr p show ?thesis by simp
qed

lemma okp_map: "closed_stream ts \<Longrightarrow> okp ts m \<Longrightarrow> okp ts (bind_r m (\<lambda>(a, us). Inr (g a, us)))"
  by (erule okp_bind) (auto simp: closed_nonempty)

lemma okq_map: "okq ts m \<Longrightarrow> okq ts (bind_r m (\<lambda>(a, us). Inr (g a, us)))"
  by (cases m) auto

lemma expression_okp: "closed_stream us \<Longrightarrow> suffix us ts \<Longrightarrow> okp ts (expression us)"
  by (rule okp_mono [OF okx_okp [OF expression_ok]])

lemma expect_okp: "closed_stream us \<Longrightarrow> suffix us ts \<Longrightarrow> s \<noteq> [] \<Longrightarrow> okp ts (expect s us)"
  by (rule okp_mono [OF okx_okp [OF expect_ok]])

lemma semi_okp:
  assumes "closed_stream us" "strict_suffix us ts"
  shows "okp ts (bind_r (accept_semi us) (\<lambda>(_, vs). Inr (x, vs)))"
  using assms(1)
proof (cases rule: closed_cases)
  case (eof t)
  then show ?thesis using assms(2) by (simp add: is_text_def)
next
  case (tok t vs)
  then show ?thesis using assms(2) strict_suffix_ConsD [of t vs ts] by (auto simp: closed_nonempty)
qed

lemma value_okp:
  assumes "closed_stream ts" "closed_stream us" "suffix us ts"
  shows "okp ts (bind_r (expression us) (\<lambda>(v, vs). bind_r (accept_semi vs) (\<lambda>(_, ws). Inr (g v, ws))))"
  by (rule okp_bind [OF assms(1) expression_okp [OF assms(2,3)]]) (simp add: semi_okp)

lemma expression_statement_ok: "closed_stream ts \<Longrightarrow> okp ts (p_expression_statement ts)"
  unfolding p_expression_statement_def by (rule value_okp) auto

lemma declaration_ok:
  assumes cl: "closed_stream (ty # ts)" and "tok_kind ty \<noteq> TokEOF" and "declaration_ahead ts"
  shows "okp (ty # ts) (p_declaration (ty # ts))"
proof -
  from assms(3) obtain name us where ts: "ts = name # us" "tok_kind name = TokIdent"
    by (auto simp: declaration_ahead_def split: list.splits)
  with cl assms(2) have us: "closed_stream us" by (auto simp: closed_Cons)
  from closed_nonempty [OF us] obtain t vs where vs: "us = t # vs" by (cases us) auto
  have s: "strict_suffix us (ty # ts)" by (auto simp: ts intro: strict_suffix_Cons suffix_ConsI)
  have "closed_stream vs" if "is_text ''='' t" using us that by (auto simp: vs closed_Cons is_text_def split: if_splits)
  moreover have "suffix vs (ty # ts)" by (auto simp: ts vs intro: suffix_ConsI)
  ultimately show ?thesis
    using value_okp [OF cl, of vs] semi_okp [OF us s] by (auto simp: p_declaration_def ts vs)
qed

lemma simple_ok:
  assumes cl: "closed_stream ts"
  shows "okp ts (p_simple ts)"
  using cl
proof (cases rule: closed_cases)
  case (eof t)
  then show ?thesis using expression_statement_ok [OF cl] by (simp add: p_simple_def)
next
  case (tok n us)
  from closed_nonempty [OF tok(3)] obtain t vs where vs: "us = t # vs" by (cases us) auto
  have "closed_stream vs" if "is_text ''='' t" using tok(3) that by (auto simp: vs closed_Cons is_text_def split: if_splits)
  moreover have "suffix vs ts" by (auto simp: tok vs intro: suffix_ConsI)
  ultimately show ?thesis
    using value_okp [OF cl, of vs] expression_statement_ok [OF cl] tok by (auto simp: p_simple_def vs)
qed

lemma condition_ok:
  assumes cl: "closed_stream ts"
  shows "okp ts (p_condition ts)"
  unfolding p_condition_def
  by (rule okp_bind [OF cl expect_okp [OF cl]], simp, simp)
    (auto intro!: okp_bind [OF cl expression_okp] okp_map [OF cl expect_okp] dest: suffix_strictD)

lemma foreach_head_ok:
  assumes cl: "closed_stream (k # ts)" and k: "tok_kind k = TokIdent" "tok_text k = ''foreach''"
  shows "okp (k # ts) (p_foreach_head ts)"
proof -
  from cl k have ts: "closed_stream ts" by (simp add: closed_Cons)
  show ?thesis unfolding p_foreach_head_def
  proof (rule okp_bind [OF cl expect_okp [OF ts]], simp_all add: suffix_ConsI)
    fix us assume m: "expect ''('' ts = Inr ((), us)" and us: "closed_stream us" "strict_suffix us (k # ts)"
    from m obtain p where p: "ts = p # us" "is_text ''('' p" by (cases ts) (auto split: if_splits)
    show "okp (k # ts) (case us of [] \<Rightarrow> Inl Panic
        | v # ts2 \<Rightarrow> bind_r (expect '','' ts2) (\<lambda>(_, ts3). bind_r (expression ts3) (\<lambda>(l, ts4).
            bind_r (expect '')'' ts4) (\<lambda>(_, ts5). Inr ((tok_text v, l), ts5)))))"
      using us(1)
    proof (cases rule: closed_cases)
      case (eof e)
      then have "dangling (k # ts)" using p k by (auto simp: dangling_def)
      with eof show ?thesis by (simp add: soft_def)
    next
      case (tok v vs)
      from us(2) tok(1) have "suffix vs (k # ts)" by (auto dest: suffix_strictD suffix_ConsD)
      with tok show ?thesis
        by (auto intro!: okp_bind [OF cl expect_okp] okp_bind [OF cl expression_okp] okp_map [OF cl expect_okp]
            dest: suffix_strictD)
    qed
  qed
qed

text \<open>The five statement parsers at once, by induction on the tokens left.\<close>

definition stmt_ok :: "tokens \<Rightarrow> bool" where
  "stmt_ok ts \<longleftrightarrow>
     okq ts (p_statement ts) \<and> (tok_kind (hd ts) \<noteq> TokEOF \<longrightarrow> okp ts (p_statement ts)) \<and>
     (tok_kind (hd ts) \<noteq> TokEOF \<longrightarrow> okp ts (p_if ts) \<and> okp ts (p_while ts)) \<and>
     (tok_kind (hd ts) = TokIdent \<and> tok_text (hd ts) = ''foreach'' \<longrightarrow> okp ts (p_foreach ts)) \<and>
     okq ts (p_block ts) \<and> okp ts (p_blockloop ts)"

lemma stmt_okD:
  assumes "stmt_ok ts"
  shows "okq ts (p_statement ts)" "tok_kind (hd ts) \<noteq> TokEOF \<Longrightarrow> okp ts (p_statement ts)"
    "tok_kind (hd ts) \<noteq> TokEOF \<Longrightarrow> okp ts (p_if ts)" "okq ts (p_block ts)" "okp ts (p_blockloop ts)"
  using assms by (simp_all add: stmt_ok_def)

lemma dangling_rename: "dangling (t\<lparr>tok_text := ''if''\<rparr> # ts) \<Longrightarrow> dangling (t # ts)"
proof -
  assume "dangling (t\<lparr>tok_text := ''if''\<rparr> # ts)"
  then obtain pre k p e where ts: "t\<lparr>tok_text := ''if''\<rparr> # ts = pre @ [k, p, e]"
      "tok_kind k = TokIdent" "tok_text k = ''foreach''" "is_text ''('' p"
    unfolding dangling_def by blast
  then obtain a pre' where "pre = a # pre'" by (cases pre) auto
  with ts show ?thesis unfolding dangling_def by (intro exI [of _ "t # pre'"]) auto
qed

lemma okp_rename: "okp (t\<lparr>tok_text := ''if''\<rparr> # ts) r \<Longrightarrow> okp (t # ts) r"
proof (cases r)
  case (Inl e)
  then show "okp (t\<lparr>tok_text := ''if''\<rparr> # ts) r \<Longrightarrow> ?thesis" by (auto simp: soft_def dangling_rename)
next
  case (Inr p)
  then show "okp (t\<lparr>tok_text := ''if''\<rparr> # ts) r \<Longrightarrow> ?thesis"
    by (cases p) (auto simp: strict_suffix_def suffix_Cons dest: suffix_length_le)
qed

lemma sub_ok:
  assumes "\<And>us. length us < length ts \<Longrightarrow> closed_stream us \<Longrightarrow> stmt_ok us"
    and "strict_suffix us ts" "closed_stream us"
  shows "stmt_ok us"
  by (rule assms(1) [OF strict_suffix_length [OF assms(2)] assms(3)])

lemma block_tail:
  assumes "\<And>us. length us < length ts \<Longrightarrow> closed_stream us \<Longrightarrow> stmt_ok us"
    and "strict_suffix us ts" "closed_stream us"
  shows "okp ts (p_block us)"
  by (rule okq_okp [OF stmt_okD(4) [OF sub_ok [OF assms]] assms(2)])

lemma if_tail:
  assumes "\<And>us. length us < length ts \<Longrightarrow> closed_stream us \<Longrightarrow> stmt_ok us"
    and "strict_suffix us ts" "closed_stream us" "tok_kind (hd us) \<noteq> TokEOF"
  shows "okp ts (p_if us)"
  by (rule okp_mono [OF stmt_okD(3) [OF sub_ok [OF assms(1-3)] assms(4)] suffix_strictD [OF assms(2)]])

lemma while_step:
  assumes cl: "closed_stream (k # ts)" and k: "tok_kind k \<noteq> TokEOF"
    and IH: "\<And>us. length us < length (k # ts) \<Longrightarrow> closed_stream us \<Longrightarrow> stmt_ok us"
  shows "okp (k # ts) (p_while (k # ts))"
proof -
  from cl k have ts: "closed_stream ts" by (simp add: closed_Cons)
  note c = okp_mono [OF okp_mono [OF condition_ok [OF ts]]]
  show ?thesis unfolding p_while.simps [of "k # ts"] list.case
    by (rule okp_bind [OF cl okp_mono [OF condition_ok [OF ts]]])
      (auto intro!: okp_map [OF cl] block_tail [OF IH] simp: strict_suffix_shorter suffix_ConsI)
qed

lemma foreach_step:
  assumes cl: "closed_stream (k # ts)" and k: "tok_kind k = TokIdent" "tok_text k = ''foreach''"
    and IH: "\<And>us. length us < length (k # ts) \<Longrightarrow> closed_stream us \<Longrightarrow> stmt_ok us"
  shows "okp (k # ts) (p_foreach (k # ts))"
  unfolding p_foreach.simps [of "k # ts"] list.case
  by (rule okp_bind [OF cl foreach_head_ok [OF cl k]])
    (auto intro!: okp_map [OF cl] block_tail [OF IH] simp: strict_suffix_shorter split: prod.splits)

text \<open>What follows the first block of an if.\<close>

lemma if_rest:
  assumes cl: "closed_stream ts"
    and IH: "\<And>us. length us < length ts \<Longrightarrow> closed_stream us \<Longrightarrow> stmt_ok us"
    and us: "strict_suffix us ts" "closed_stream us"
  shows "okp ts (case us of
              [] \<Rightarrow> Inl Panic
            | t # ts4 \<Rightarrow>
                if \<not> shorter us ts then Inl Stuck
                else if is_text ''elseif'' t then
                  bind_r (p_if (t\<lparr>tok_text := ''if''\<rparr> # ts4)) (\<lambda>(s, ts5). Inr (SIf c th [s], ts5))
                else if is_text ''else'' t then
                  (case ts4 of
                     [] \<Rightarrow> Inl Panic
                   | u # ts5 \<Rightarrow>
                       if is_text ''if'' u then bind_r (p_if ts4) (\<lambda>(s, ts6). Inr (SIf c th [s], ts6))
                       else bind_r (p_block ts4) (\<lambda>(el, ts6). Inr (SIf c th el, ts6)))
                else Inr (SIf c th [], us))"
  using us(2)
proof (cases rule: closed_cases)
  case (eof t)
  then show ?thesis using us(1) by (auto simp: is_text_def strict_suffix_shorter)
next
  case (tok t vs)
  from tok(1) us(1) have vs: "strict_suffix vs ts" by (simp add: strict_suffix_ConsD)
  from closed_nonempty [OF tok(3)] obtain u ws where ws: "vs = u # ws" by (cases vs) auto
  have "length (t\<lparr>tok_text := ''if''\<rparr> # vs) < length ts" using us(1) tok(1) by (auto dest: strict_suffix_length)
  moreover have "closed_stream (t\<lparr>tok_text := ''if''\<rparr> # vs)" using tok by (simp add: closed_Cons)
  ultimately have "okp (t # vs) (p_if (t\<lparr>tok_text := ''if''\<rparr> # vs))"
    using tok(2) by (intro okp_rename [OF stmt_okD(3) [OF IH]]) auto
  then have el: "okp ts (p_if (t\<lparr>tok_text := ''if''\<rparr> # vs))"
    using okp_mono tok(1) us(1) suffix_strictD by blast
  have u: "tok_kind u \<noteq> TokEOF" if "is_text ''if'' u" using tok(3) that by (auto simp: ws closed_Cons is_text_def split: if_splits)
  have b: "okp ts (p_block vs)" by (rule block_tail [OF _ vs tok(3)]) (rule IH)
  have i: "okp ts (p_if vs)" if "tok_kind (hd vs) \<noteq> TokEOF" by (rule if_tail [OF _ vs tok(3) that]) (rule IH)
  note blk = okp_map [OF cl b] and elif = okp_map [OF cl el] and nested = okp_map [OF cl i]
  have sh: "shorter us ts" by (rule strict_suffix_shorter [OF us(1)])
  have ne: "us \<noteq> []" using tok(1) by simp
  consider "is_text ''elseif'' t" | "\<not> is_text ''elseif'' t" "is_text ''else'' t" "is_text ''if'' u"
    | "\<not> is_text ''elseif'' t" "is_text ''else'' t" "\<not> is_text ''if'' u"
    | "\<not> is_text ''elseif'' t" "\<not> is_text ''else'' t" by blast
  then show ?thesis
  proof cases
    case 1
    then show ?thesis using sh by (simp only: tok(1) list.case not_not if_True if_False simp_thms elif)
  next
    case 2
    have "okp ts (bind_r (p_if vs) (\<lambda>(s, ts6). Inr (SIf c th [s], ts6)))"
      using nested u [OF 2(3)] by (simp add: ws)
    then show ?thesis using sh 2 by (simp only: tok(1) ws list.case if_True if_False simp_thms)
  next
    case 3
    then show ?thesis using sh blk by (simp only: tok(1) ws list.case if_True if_False simp_thms)
  next
    case 4
    then show ?thesis using sh us(1) ne by (simp only: tok(1) list.case if_True if_False simp_thms okpq_sum)
  qed
qed

lemma if_step:
  assumes cl: "closed_stream (k # ts)" and k: "tok_kind k \<noteq> TokEOF"
    and IH: "\<And>us. length us < length (k # ts) \<Longrightarrow> closed_stream us \<Longrightarrow> stmt_ok us"
  shows "okp (k # ts) (p_if (k # ts))"
proof -
  from cl k have ts: "closed_stream ts" by (simp add: closed_Cons)
  show ?thesis unfolding p_if.simps [of "k # ts"] list.case
  proof (rule okp_bind [OF cl okp_mono [OF condition_ok [OF ts]]], simp add: suffix_ConsI, simp only: prod.case)
    fix c us
    assume us: "strict_suffix us (k # ts)" "closed_stream us"
    then show "okp (k # ts) (if \<not> shorter us (k # ts) then Inl Stuck
          else bind_r (p_block us) (\<lambda>(th, ts3).
            case ts3 of
              [] \<Rightarrow> Inl Panic
            | t # ts4 \<Rightarrow>
                if \<not> shorter ts3 (k # ts) then Inl Stuck
                else if is_text ''elseif'' t then
                  bind_r (p_if (t\<lparr>tok_text := ''if''\<rparr> # ts4)) (\<lambda>(s, ts5). Inr (SIf c th [s], ts5))
                else if is_text ''else'' t then
                  (case ts4 of
                     [] \<Rightarrow> Inl Panic
                   | u # ts5 \<Rightarrow>
                       if is_text ''if'' u then bind_r (p_if ts4) (\<lambda>(s, ts6). Inr (SIf c th [s], ts6))
                       else bind_r (p_block ts4) (\<lambda>(el, ts6). Inr (SIf c th el, ts6)))
                else Inr (SIf c th [], ts3)))"
      unfolding if_not_P [OF not_not [THEN iffD2, OF strict_suffix_shorter [OF us(1)]]]
      by (intro okp_bind [OF cl block_tail [OF IH us]]) (simp_all only: prod.case if_rest [OF cl IH])
  qed
qed

lemma closed_dropWhile_semi:
  assumes "closed_stream ts"
  shows "closed_stream (dropWhile (is_text '';'') ts)"
proof -
  have "\<not> is_text '';'' (last ts)" "last ts \<in> set ts"
    using assms by (auto simp: closed_stream_def is_text_def)
  then have "dropWhile (is_text '';'') ts \<noteq> []" by auto
  then show ?thesis by (rule closed_suffix [OF assms suffix_dropWhile])
qed

lemma statement_ok:
  assumes cl: "closed_stream ts"
    and IH: "\<And>us. length us < length ts \<Longrightarrow> closed_stream us \<Longrightarrow> stmt_ok us"
  shows "okq ts (p_statement ts) \<and> (tok_kind (hd ts) \<noteq> TokEOF \<longrightarrow> okp ts (p_statement ts))"
proof -
  let ?d = "dropWhile (is_text '';'') ts"
  have sfx: "suffix ?d ts" by (rule suffix_dropWhile)
  from closed_dropWhile_semi [OF cl] show ?thesis
  proof (cases rule: closed_cases)
    case (eof t)
    then have r: "p_statement ts = Inr (None, ?d)" by (simp add: p_statement.simps)
    have "strict_suffix ?d ts" if "tok_kind (hd ts) \<noteq> TokEOF"
      using that sfx eof by (auto simp: strict_suffix_def)
    with r sfx eof show ?thesis by auto
  next
    case (tok t us)
    have d: "closed_stream (t # us)" using closed_dropWhile_semi [OF cl] tok(1) by simp
    have IH': "stmt_ok vs" if "length vs < length (t # us)" "closed_stream vs" for vs
      using that IH suffix_length_le [OF sfx] tok(1) by simp
    note os = okp_map [OF d declaration_ok [OF d tok(2)], where g = Some]
      okp_map [OF d if_step [OF d tok(2) IH'], where g = Some]
      okp_map [OF d foreach_step [OF d _ _ IH'], where g = Some]
      okp_map [OF d while_step [OF d tok(2) IH'], where g = Some]
      okp_map [OF d simple_ok [OF d], where g = Some]
    have "okp (t # us) (p_statement ts)"
      unfolding p_statement.simps [of ts] tok(1) list.case using tok(2) os by simp
    then have "okp ts (p_statement ts)" using sfx tok(1) by (auto intro: okp_mono)
    then show ?thesis by (simp add: okp_okq)
  qed
qed

lemma block_ok:
  assumes cl: "closed_stream ts"
    and IH: "\<And>us. length us < length ts \<Longrightarrow> closed_stream us \<Longrightarrow> stmt_ok us"
  shows "okq ts (p_block ts)"
proof -
  have st: "okq ts (bind_r (p_statement ts) (\<lambda>(s, ts2). Inr (case s of None \<Rightarrow> [] | Some s \<Rightarrow> [s], ts2)))"
    by (rule okq_map [OF conjunct1 [OF statement_ok [OF cl IH]]])
  show ?thesis using cl
  proof (cases rule: closed_cases)
    case (eof t)
    then show ?thesis using st by (simp add: p_block.simps is_text_def)
  next
    case (tok t us)
    have "okp us (p_blockloop us)" by (rule stmt_okD(5) [OF IH]) (simp_all add: tok)
    then have "okp ts (p_blockloop us)" by (rule okp_mono) (simp add: tok(1) suffix_ConsI)
    then show ?thesis using st tok by (subst p_block.simps) (simp add: okp_okq)
  qed
qed

lemma blockloop_ok:
  assumes cl: "closed_stream ts"
    and IH: "\<And>us. length us < length ts \<Longrightarrow> closed_stream us \<Longrightarrow> stmt_ok us"
  shows "okp ts (p_blockloop ts)"
  using cl
proof (cases rule: closed_cases)
  case (eof t)
  then show ?thesis by (simp add: p_blockloop.simps is_text_def)
next
  case (tok t us)
  have st: "okp ts (p_statement ts)" using statement_ok [OF cl IH] tok by simp
  have lp: "okp ts (p_blockloop vs)" if "strict_suffix vs ts" "closed_stream vs" for vs
    by (rule okp_mono [OF stmt_okD(5) [OF sub_ok [OF _ that]] suffix_strictD [OF that(1)]]) (rule IH)
  have "okp ts (bind_r (p_statement ts) (\<lambda>(s, ts2).
            if \<not> shorter ts2 ts then Inl Stuck
            else bind_r (p_blockloop ts2) (\<lambda>(ss, ts3). Inr ((case s of None \<Rightarrow> ss | Some s \<Rightarrow> s # ss), ts3))))"
    by (rule okp_bind [OF cl st]) (simp add: strict_suffix_shorter okp_map [OF cl lp])
  then show ?thesis using tok closed_nonempty [OF tok(3)] by (subst p_blockloop.simps) (simp only: list.case, simp)
qed

lemma statements_ok: "closed_stream ts \<Longrightarrow> stmt_ok ts"
proof (induction ts rule: measure_induct_rule [of length])
  case (less ts)
  from closed_nonempty [OF less.prems] obtain t us where ts: "ts = t # us" by (cases ts) auto
  show ?case
    using statement_ok [OF less.prems less.IH] block_ok [OF less.prems less.IH] blockloop_ok [OF less.prems less.IH]
      if_step [OF less.prems [unfolded ts]] while_step [OF less.prems [unfolded ts]]
      foreach_step [OF less.prems [unfolded ts]] less.IH
    by (simp add: stmt_ok_def ts)
qed

lemma program_soft: "closed_stream ts \<Longrightarrow> p_program ts = Inl e \<Longrightarrow> soft ts e"
proof (induction ts arbitrary: e rule: p_program.induct)
  case (1 ts)
  from 1(2) show ?case
  proof (cases rule: closed_cases)
    case (eof t)
    with 1(3) show ?thesis by (simp add: p_program.simps)
  next
    case (tok t us)
    from stmt_okD(2) [OF statements_ok [OF 1(2)]] tok have st: "okp ts (p_statement ts)" by simp
    show ?thesis
    proof (cases "p_statement ts")
      case (Inl e')
      with st tok 1(3) show ?thesis by (simp add: p_program.simps [of "t # us"])
    next
      case (Inr p)
      obtain s vs where p: "p = (s, vs)" by (cases p)
      with st Inr have vs: "strict_suffix vs ts" "closed_stream vs"
        using closed_suffix [OF 1(2) suffix_strictD] by auto
      from 1(3) Inr p tok strict_suffix_shorter [OF vs(1)] have "p_program vs = Inl e"
        by (cases "p_program vs") (auto simp: p_program.simps [of "t # us"])
      with 1(1) tok Inr p strict_suffix_shorter [OF vs(1)] vs(2) have "soft vs e" by simp
      then show ?thesis using suffix_strictD [OF vs(1)] by (rule soft_mono)
    qed
  qed
qed

section \<open>Every script is parsed or refused\<close>

text \<open>C20. Parsing a script always ends with a tree or an error: it never fails to make progress, and it
  steps past the end of the tokens only when the script ends in \<open>foreach (\<close>.\<close>

theorem parse_ends:
  "case parse src of
     Inl Stuck \<Rightarrow> False
   | Inl Panic \<Rightarrow> (\<exists>ts. lex src = Inr ts \<and> dangling ts)
   | r \<Rightarrow> True"
proof (cases "lex src")
  case (Inl e)
  then show ?thesis by (simp add: parse_def)
next
  case (Inr ts)
  then have "soft ts e" if "parse src = Inl e" for e
    using that lex_closed program_soft by (auto simp: parse_def)
  then show ?thesis using Inr by (auto simp: soft_def split: sum.splits parse_error.splits)
qed

text \<open>The step past the end does happen, an index panic in the source.\<close>

lemma foreach_panics: "parse ''foreach('' = Inl Panic"
  by code_simp

end
