(* ===== verification/Rega_Grammar.thy ===== *)
theory Rega_Grammar
  imports Rega_Parser_Props
begin

text \<open>
  A grammar for the expressions of HomeMatic script, independent of the way they are parsed, and the
  proof that \<open>expression\<close> recognises exactly its phrases: what it returns is the tree of a phrase it
  has consumed, and every phrase followed by a token that cannot continue it is consumed whole.
  \<open>gbin p\<close> are the expressions whose operators outside parentheses bind at least as tightly as
  \<open>p\<close>, binary operators associating to the left.
\<close>

inductive gbin :: "nat \<Rightarrow> expr \<Rightarrow> tokens \<Rightarrow> bool"
  and gun :: "expr \<Rightarrow> tokens \<Rightarrow> bool"
  and gpost :: "expr \<Rightarrow> tokens \<Rightarrow> bool"
  and gprim :: "expr \<Rightarrow> tokens \<Rightarrow> bool"
  and gcall :: "expr list \<Rightarrow> tokens \<Rightarrow> bool"
  and gargs :: "expr list \<Rightarrow> tokens \<Rightarrow> bool"
where
  operand: "gun e ts \<Longrightarrow> gbin p e ts"
| operation: "gbin q l ts \<Longrightarrow> tok_kind t = TokOperator \<Longrightarrow> precedence (tok_text t) = Some q \<Longrightarrow> p \<le> q \<Longrightarrow>
    gbin (q + 1) r us \<Longrightarrow> gbin p (EBinary (tok_text t) l r) (ts @ t # us)"
| prefix_operation: "tok_kind t = TokOperator \<Longrightarrow> tok_text t = ''!'' \<or> tok_text t = ''-'' \<Longrightarrow> gun e ts \<Longrightarrow>
    gun (EUnary (tok_text t) e) (t # ts)"
| reference: "tok_kind t = TokOperator \<Longrightarrow> tok_text t = ''&'' \<Longrightarrow> tok_kind n = TokIdent \<Longrightarrow>
    gun (ERef (tok_text n)) [t, n]"
| plain: "gpost e ts \<Longrightarrow> gun e ts"
| atom: "gprim e ts \<Longrightarrow> gpost e ts"
| property: "gpost e ts \<Longrightarrow> is_text ''.'' d \<Longrightarrow> tok_kind n = TokIdent \<Longrightarrow>
    gpost (EMember e (tok_text n) []) (ts @ [d, n])"
| method_call: "gpost e ts \<Longrightarrow> is_text ''.'' d \<Longrightarrow> tok_kind n = TokIdent \<Longrightarrow> is_text ''('' p \<Longrightarrow> gcall as us \<Longrightarrow>
    gpost (EMember e (tok_text n) as) (ts @ d # n # p # us)"
| string_literal: "tok_kind t = TokString \<Longrightarrow> gprim (ELit (LStr (tok_text t))) [t]"
| number_literal: "tok_kind t = TokNumber \<Longrightarrow> parse_number (tok_text t) = Some x \<Longrightarrow> gprim (ELit (LNum x)) [t]"
| true_literal: "tok_kind t = TokIdent \<Longrightarrow> tok_text t = ''true'' \<Longrightarrow> gprim (ELit (LBool True)) [t]"
| false_literal: "tok_kind t = TokIdent \<Longrightarrow> tok_text t = ''false'' \<Longrightarrow> gprim (ELit (LBool False)) [t]"
| variable: "tok_kind t = TokIdent \<Longrightarrow> tok_text t \<notin> {''('', ''true'', ''false''} \<Longrightarrow> gprim (EIdent (tok_text t)) [t]"
| function_call: "tok_kind t = TokIdent \<Longrightarrow> tok_text t \<notin> {''('', ''true'', ''false''} \<Longrightarrow> is_text ''('' p \<Longrightarrow>
    gcall as us \<Longrightarrow> gprim (ECall (tok_text t) as) (t # p # us)"
| parentheses: "tok_kind t \<notin> {TokString, TokNumber} \<Longrightarrow> tok_text t = ''('' \<Longrightarrow> gbin 0 e us \<Longrightarrow> is_text '')'' c \<Longrightarrow>
    gprim e (t # us @ [c])"
| no_arguments: "is_text '')'' c \<Longrightarrow> gcall [] [c]"
| arguments: "gargs as us \<Longrightarrow> \<not> is_text '')'' (hd us) \<Longrightarrow> gcall as us"
| last_argument: "gbin 0 a us \<Longrightarrow> is_text '')'' c \<Longrightarrow> gargs [a] (us @ [c])"
| more_arguments: "gbin 0 a us \<Longrightarrow> is_text '','' d \<Longrightarrow> gargs as vs \<Longrightarrow> gargs (a # as) (us @ d # vs)"

lemmas phrases = gbin_gun_gpost_gprim_gcall_gargs.intros

section \<open>Every phrase is read\<close>

text \<open>What may follow an operand, and an expression of level \<open>p\<close>.\<close>

definition no_call :: "tokens \<Rightarrow> bool" where
  "no_call ts = (case ts of [] \<Rightarrow> False | t # us \<Rightarrow> \<not> is_text ''('' t)"

definition no_tail :: "tokens \<Rightarrow> bool" where
  "no_tail ts = (case ts of [] \<Rightarrow> False | t # us \<Rightarrow> \<not> is_text ''('' t \<and> \<not> is_text ''.'' t)"

definition no_operator :: "nat \<Rightarrow> tokens \<Rightarrow> bool" where
  "no_operator p ts = (case ts of [] \<Rightarrow> False
     | t # us \<Rightarrow> \<not> (tok_kind t = TokOperator \<and> (case precedence (tok_text t) of None \<Rightarrow> False | Some q \<Rightarrow> p \<le> q)))"

lemma no_tail_call: "no_tail ts \<Longrightarrow> no_call ts"
  by (auto simp: no_tail_def no_call_def split: list.splits)

lemma no_operator_mono: "no_operator p ts \<Longrightarrow> p \<le> q \<Longrightarrow> no_operator q ts"
  by (auto simp: no_operator_def split: list.splits option.splits)

lemma posttail_stop: "no_tail ts \<Longrightarrow> p_posttail e ts = Inr (e, ts)"
  by (subst p_posttail.simps) (auto simp: no_tail_def split: list.splits)

lemma binloop_stop: "no_operator p ts \<Longrightarrow> p_binloop p e ts = Inr (e, ts)"
  by (subst p_binloop.simps) (auto simp: no_operator_def split: list.splits option.splits)

lemma precedence_not_punct: "precedence s = Some q \<Longrightarrow> s \<noteq> ''('' \<and> s \<noteq> ''.''"
  by (auto simp: precedence_def)

lemma operator_no_tail: "precedence (tok_text t) = Some q \<Longrightarrow> no_tail (t # ts)"
  using precedence_not_punct by (auto simp: no_tail_def is_text_def)

lemma separator_stop:
  assumes "is_text s t" "s = '','' \<or> s = '')''"
  shows "no_tail (t # ts) \<and> no_operator p (t # ts)"
  using assms by (auto simp: no_tail_def no_operator_def is_text_def precedence_def)

lemma phrase_nonempty:
  "gbin p e ts \<Longrightarrow> ts \<noteq> []" "gun e ts \<Longrightarrow> ts \<noteq> []" "gpost e ts \<Longrightarrow> ts \<noteq> []" "gprim e ts \<Longrightarrow> ts \<noteq> []"
  "gcall as ts \<Longrightarrow> ts \<noteq> []" "gargs as ts \<Longrightarrow> ts \<noteq> []"
  by (induction rule: gbin_gun_gpost_gprim_gcall_gargs.inducts) simp_all

lemma prim_head: "gprim e ts \<Longrightarrow> tok_kind (hd ts) = TokOperator \<Longrightarrow> tok_text (hd ts) = ''(''"
  by (erule gprim.cases) auto

lemma post_head: "gpost e ts \<Longrightarrow> tok_kind (hd ts) = TokOperator \<Longrightarrow> tok_text (hd ts) = ''(''"
  by (induction rule: gbin_gun_gpost_gprim_gcall_gargs.inducts(3) [where ?P1.0 = "\<lambda>p e ts. True" and ?P2.0 = "\<lambda>e ts. True"
      and ?P4.0 = "\<lambda>e ts. tok_kind (hd ts) = TokOperator \<longrightarrow> tok_text (hd ts) = ''(''"
      and ?P5.0 = "\<lambda>as ts. True" and ?P6.0 = "\<lambda>as ts. True"]) (auto simp: phrase_nonempty)

lemma shorter_append [simp]: "shorter rest (ts @ rest) \<longleftrightarrow> ts \<noteq> []" "shorter rest (t # ts @ rest)"
  by (auto simp: shorter_def)

lemma read_operation:
  assumes l: "p_binary mp (ts @ t # us @ rest) = p_binloop mp l (t # us @ rest)"
    and t: "tok_kind t = TokOperator" "precedence (tok_text t) = Some q" "mp \<le> q"
    and r: "p_binary (q + 1) (us @ rest) = p_binloop (q + 1) r rest" and stop: "no_operator (q + 1) rest"
  shows "p_binary mp (ts @ t # us @ rest) = p_binloop mp (EBinary (tok_text t) l r) rest"
  using t r binloop_stop [OF stop] unfolding l by (subst p_binloop.simps) simp

lemma read_member:
  assumes "is_text ''.'' d" "tok_kind n = TokIdent" "no_call rest"
  shows "p_posttail e (d # n # rest) = p_posttail (EMember e (tok_text n) []) rest"
  using assms by (subst p_posttail.simps) (auto simp: no_call_def split: list.splits)

lemma read_method:
  assumes "is_text ''.'' d" "tok_kind n = TokIdent" "is_text ''('' p" "p_args (us @ rest) = Inr (as, rest)"
  shows "p_posttail e (d # n # p # us @ rest) = p_posttail (EMember e (tok_text n) as) rest"
  using assms by (subst p_posttail.simps) (auto simp: shorter_def)

lemma dot_no_call: "is_text ''.'' d \<Longrightarrow> no_call (d # ts)"
  by (simp add: no_call_def is_text_def)

lemma read_postfix: "p_primary (ts @ rest) = Inr (e, rest) \<Longrightarrow> ts \<noteq> [] \<Longrightarrow> p_postfix (ts @ rest) = p_posttail e rest"
  by (subst p_postfix.simps) simp

lemma read_plain:
  assumes "p_postfix (ts @ rest) = p_posttail e rest" "no_tail rest" "gpost e ts"
  shows "p_unary (ts @ rest) = Inr (e, rest)"
proof -
  from phrase_nonempty(3) [OF assms(3)] obtain t us where ts: "ts = t # us" by (cases ts) auto
  from post_head [OF assms(3)] have "tok_kind t = TokOperator \<Longrightarrow> tok_text t = ''(''" by (simp add: ts)
  then show ?thesis using assms(1) posttail_stop [OF assms(2)] by (subst p_unary.simps) (auto simp: ts)
qed

lemma read_more:
  assumes "p_binary 0 (us @ d # vs @ rest) = Inr (a, d # vs @ rest)" "is_text '','' d"
    "p_arglist (vs @ rest) = Inr (as, rest)" "us \<noteq> []"
  shows "p_arglist (us @ d # vs @ rest) = Inr (a # as, rest)"
  using assms by (subst p_arglist.simps) (auto simp: shorter_def)

lemma read_last:
  assumes "p_binary 0 (us @ c # rest) = Inr (a, c # rest)" "is_text '')'' c"
  shows "p_arglist (us @ c # rest) = Inr ([a], rest)"
  using assms by (subst p_arglist.simps) (auto simp: is_text_def)

lemma read_call:
  assumes "tok_kind t = TokIdent" "tok_text t \<notin> {''('', ''true'', ''false''}" "is_text ''('' p"
    "p_args (us @ rest) = Inr (as, rest)"
  shows "p_primary (t # p # us @ rest) = Inr (ECall (tok_text t) as, rest)"
  using assms by (subst p_primary.simps) auto

lemma read_parentheses:
  assumes "tok_kind t \<notin> {TokString, TokNumber}" "tok_text t = ''(''" "p_binary 0 (us @ c # rest) = Inr (e, c # rest)"
    "is_text '')'' c"
  shows "p_primary (t # us @ c # rest) = Inr (e, rest)"
  using assms by (subst p_primary.simps) auto

lemma read_unit:
  assumes "\<And>rest. no_tail rest \<Longrightarrow> no_operator 1 rest \<Longrightarrow> p_binary 0 (us @ rest) = p_binloop 0 a rest"
    and "is_text '','' t \<or> is_text '')'' t"
  shows "p_binary 0 (us @ t # rest) = Inr (a, t # rest)"
  using assms(1) [of "t # rest"] binloop_stop assms(2) separator_stop by auto

lemma phrases_read:
  "gbin p e ts \<Longrightarrow> mp \<le> p \<Longrightarrow> no_tail rest \<Longrightarrow> no_operator (p + 1) rest \<Longrightarrow>
     p_binary mp (ts @ rest) = p_binloop mp e rest"
  "gun e ts \<Longrightarrow> no_tail rest \<Longrightarrow> p_unary (ts @ rest) = Inr (e, rest)"
  "gpost e ts \<Longrightarrow> no_call rest \<Longrightarrow> p_postfix (ts @ rest) = p_posttail e rest"
  "gprim e ts \<Longrightarrow> no_call rest \<Longrightarrow> p_primary (ts @ rest) = Inr (e, rest)"
  "gcall as ts \<Longrightarrow> p_args (ts @ rest) = Inr (as, rest)"
  "gargs as ts \<Longrightarrow> p_arglist (ts @ rest) = Inr (as, rest)"
proof (induction arbitrary: mp rest and rest and rest and rest and rest and rest
    rule: gbin_gun_gpost_gprim_gcall_gargs.inducts)
  case (operand e ts p)
  then show ?case by (subst p_binary.simps) (simp add: phrase_nonempty)
next
  case (operation q l ts t p r us)
  have "p_binary mp (ts @ t # us @ rest) = p_binloop mp l (t # us @ rest)"
    using operation.IH(1) [of mp "t # us @ rest"] operation.hyps operation.prems operator_no_tail
    by (simp add: no_operator_def)
  moreover have "p_binary (q + 1) (us @ rest) = p_binloop (q + 1) r rest"
    using operation.IH(2) [of "q + 1" rest] operation.hyps operation.prems no_operator_mono [of "p + 1" rest "q + 1 + 1"]
    by simp
  moreover have "no_operator (q + 1) rest"
    using operation.prems operation.hyps by (auto intro: no_operator_mono)
  ultimately show ?case using operation.hyps operation.prems read_operation [of mp ts t us rest l q r] by simp
next
  case (prefix_operation t e ts)
  then show ?case by (subst p_unary.simps) auto
next
  case (reference t n)
  then show ?case by (subst p_unary.simps) auto
next
  case (plain e ts)
  then show ?case by (simp add: read_plain no_tail_call)
next
  case (atom e ts)
  then show ?case by (simp add: read_postfix phrase_nonempty)
next
  case (property e ts d n)
  then show ?case by (simp add: read_member dot_no_call)
next
  case (method_call e ts d n p as us)
  then show ?case by (simp add: read_method dot_no_call)
next
  case (string_literal t)
  then show ?case by (subst p_primary.simps) simp
next
  case (number_literal t x)
  then show ?case by (subst p_primary.simps) simp
next
  case (true_literal t)
  then show ?case by (subst p_primary.simps) simp
next
  case (false_literal t)
  then show ?case by (subst p_primary.simps) simp
next
  case (variable t)
  then show ?case by (subst p_primary.simps) (auto simp: no_call_def split: list.splits)
next
  case (function_call t p as us)
  then show ?case by (simp add: read_call)
next
  case (parentheses t e us c)
  then have "p_binary 0 (us @ c # rest) = Inr (e, c # rest)" by (intro read_unit) auto
  then show ?case using parentheses.hyps read_parentheses [of t us c rest e] by simp
next
  case (no_arguments c)
  then show ?case by (subst p_args.simps) simp
next
  case (arguments as us)
  then show ?case using phrase_nonempty(6) [OF arguments.hyps(1)] by (subst p_args.simps) (cases us; simp)
next
  case (last_argument a us c)
  then have "p_binary 0 (us @ c # rest) = Inr (a, c # rest)" by (intro read_unit) auto
  then show ?case using last_argument.hyps read_last [of us c rest a] by simp
next
  case (more_arguments a us d as vs)
  then have "p_binary 0 (us @ d # vs @ rest) = Inr (a, d # vs @ rest)" by (intro read_unit) auto
  then show ?case
    using more_arguments.hyps more_arguments.IH read_more [of us d vs rest a as] phrase_nonempty(1) by simp
qed

section \<open>Only phrases are read\<close>

text \<open>What a parser started on \<open>ts\<close> has consumed is a phrase of the tree it returns.\<close>

definition reads :: "('a \<Rightarrow> tokens \<Rightarrow> bool) \<Rightarrow> tokens \<Rightarrow> 'a parsed \<Rightarrow> bool" where
  "reads G ts r \<longleftrightarrow> (\<forall>e rest. r = Inr (e, rest) \<longrightarrow> (\<exists>us. ts = us @ rest \<and> G e us))"

lemma readsI: "(\<And>e rest. r = Inr (e, rest) \<Longrightarrow> \<exists>us. ts = us @ rest \<and> G e us) \<Longrightarrow> reads G ts r"
  by (simp add: reads_def)

lemma readsE:
  assumes "reads G ts r" "r = Inr (e, rest)"
  obtains us where "ts = us @ rest" "G e us"
  using assms by (auto simp: reads_def)

text \<open>The operand so far can be the left operand of the operator that comes next.\<close>

definition left_ready :: "nat \<Rightarrow> expr \<Rightarrow> tokens \<Rightarrow> tokens \<Rightarrow> bool" where
  "left_ready mp l ls ts \<longleftrightarrow> gbin mp l ls \<and>
     (\<forall>t us q. ts = t # us \<longrightarrow> tok_kind t = TokOperator \<longrightarrow> precedence (tok_text t) = Some q \<longrightarrow> mp \<le> q \<longrightarrow> gbin q l ls)"

lemma left_ready_operand: "gun e us \<Longrightarrow> left_ready mp e us ts"
  by (simp add: left_ready_def operand)

lemma left_ready_operation:
  assumes "left_ready mp l ls (t # ts)" "tok_kind t = TokOperator" "precedence (tok_text t) = Some q" "mp \<le> q"
    and "gbin (q + 1) r us" "no_operator (q + 1) rest"
  shows "left_ready mp (EBinary (tok_text t) l r) (ls @ t # us) rest"
proof -
  have l: "gbin q l ls" using assms(1-4) by (simp add: left_ready_def)
  have "gbin p (EBinary (tok_text t) l r) (ls @ t # us)" if "p \<le> q" for p
    by (rule operation [OF l assms(2,3) that assms(5)])
  with assms(4,6) show ?thesis by (auto simp: left_ready_def no_operator_def)
qed

lemma prim_cases:
  assumes "p_primary ts = Inr (e, rest)"
  shows "(\<exists>t. ts = t # rest \<and> gprim e [t]) \<or>
    (\<exists>t us c. ts = t # us \<and> tok_kind t \<notin> {TokString, TokNumber} \<and> tok_text t = ''('' \<and>
       p_binary 0 us = Inr (e, c # rest) \<and> is_text '')'' c) \<or>
    (\<exists>t p us as. ts = t # p # us \<and> tok_kind t = TokIdent \<and> tok_text t \<notin> {''('', ''true'', ''false''} \<and>
       is_text ''('' p \<and> p_args us = Inr (as, rest) \<and> e = ECall (tok_text t) as)"
  using assms by (subst (asm) p_primary.simps)
    (auto split: list.splits if_splits option.splits elim!: expect.elims intro: phrases)

lemma unary_cases:
  assumes "p_unary ts = Inr (e, rest)"
  shows "(\<exists>t us e'. ts = t # us \<and> tok_kind t = TokOperator \<and> (tok_text t = ''!'' \<or> tok_text t = ''-'') \<and>
       p_unary us = Inr (e', rest) \<and> e = EUnary (tok_text t) e') \<or>
    (\<exists>t n. ts = t # n # rest \<and> gun e [t, n]) \<or> p_postfix ts = Inr (e, rest)"
  using assms by (subst (asm) p_unary.simps)
    (auto split: list.splits if_splits intro: phrases)

lemma posttail_cases:
  assumes "p_posttail l ts = Inr (e, rest)"
  shows "(ts = rest \<and> e = l) \<or>
    (\<exists>d n us. ts = d # n # us \<and> is_text ''.'' d \<and> tok_kind n = TokIdent \<and>
       p_posttail (EMember l (tok_text n) []) us = Inr (e, rest)) \<or>
    (\<exists>d n p us as us2. ts = d # n # p # us \<and> is_text ''.'' d \<and> tok_kind n = TokIdent \<and> is_text ''('' p \<and>
       p_args us = Inr (as, us2) \<and> shorter us2 ts \<and> p_posttail (EMember l (tok_text n) as) us2 = Inr (e, rest))"
  using assms by (subst (asm) p_posttail.simps) (auto split: list.splits if_splits)

lemma binloop_cases:
  assumes "p_binloop mp l ts = Inr (e, rest)"
  shows "(ts = rest \<and> e = l \<and> no_operator mp rest) \<or>
    (\<exists>t us q r us2. ts = t # us \<and> tok_kind t = TokOperator \<and> precedence (tok_text t) = Some q \<and> mp \<le> q \<and>
       p_binary (q + 1) us = Inr (r, us2) \<and> shorter us2 ts \<and> p_binloop mp (EBinary (tok_text t) l r) us2 = Inr (e, rest))"
  using assms by (subst (asm) p_binloop.simps) (auto simp: no_operator_def split: list.splits if_splits option.splits)

lemma arglist_cases:
  assumes "p_arglist ts = Inr (as, rest)"
  shows "\<exists>a d us. p_binary 0 ts = Inr (a, d # us) \<and>
    ((is_text '')'' d \<and> us = rest \<and> as = [a]) \<or>
     (is_text '','' d \<and> shorter us ts \<and> (\<exists>bs. p_arglist us = Inr (bs, rest) \<and> as = a # bs)))"
proof -
  from assms obtain a vs where a: "p_binary 0 ts = Inr (a, vs)"
    by (subst (asm) p_arglist.simps) auto
  with assms obtain d us where "vs = d # us"
    by (subst (asm) p_arglist.simps) (cases vs, auto)
  with a assms show ?thesis
    by (subst (asm) p_arglist.simps) (auto split: if_splits)
qed

lemma args_cases:
  assumes "p_args ts = Inr (as, rest)"
  shows "(\<exists>c. ts = c # rest \<and> is_text '')'' c \<and> as = []) \<or>
    (\<not> is_text '')'' (hd ts) \<and> p_arglist ts = Inr (as, rest))"
  using assms by (subst (asm) p_args.simps) (auto split: list.splits if_splits)

text \<open>The whole recursion, by induction on the tokens left; \<open>ls\<close> is what the operand so far was read from.\<close>

definition reads_all :: "tokens \<Rightarrow> bool" where
  "reads_all ts \<longleftrightarrow>
     (\<forall>mp. reads (\<lambda>e us. gbin mp e us) ts (p_binary mp ts)) \<and>
     (\<forall>mp e rest. p_binary mp ts = Inr (e, rest) \<longrightarrow> no_operator mp rest) \<and>
     (\<forall>mp l ls. left_ready mp l ls ts \<longrightarrow> reads (\<lambda>e us. gbin mp e (ls @ us)) ts (p_binloop mp l ts)) \<and>
     (\<forall>mp l e rest. p_binloop mp l ts = Inr (e, rest) \<longrightarrow> no_operator mp rest) \<and>
     reads gun ts (p_unary ts) \<and> reads gpost ts (p_postfix ts) \<and>
     (\<forall>l ls. gpost l ls \<longrightarrow> reads (\<lambda>e us. gpost e (ls @ us)) ts (p_posttail l ts)) \<and>
     reads gprim ts (p_primary ts) \<and> reads gcall ts (p_args ts) \<and> reads gargs ts (p_arglist ts)"

lemma reads_allD:
  assumes "reads_all ts"
  shows "reads (\<lambda>e us. gbin mp e us) ts (p_binary mp ts)"
    "p_binary mp ts = Inr (e, rest) \<Longrightarrow> no_operator mp rest"
    "left_ready mp l ls ts \<Longrightarrow> reads (\<lambda>e us. gbin mp e (ls @ us)) ts (p_binloop mp l ts)"
    "p_binloop mp l ts = Inr (e, rest) \<Longrightarrow> no_operator mp rest"
    "reads gun ts (p_unary ts)" "gpost l ls \<Longrightarrow> reads (\<lambda>e us. gpost e (ls @ us)) ts (p_posttail l ts)"
    "reads gcall ts (p_args ts)" "reads gargs ts (p_arglist ts)"
  using assms unfolding reads_all_def by blast+

lemma shorterD: "shorter us ts \<Longrightarrow> length us < length ts"
  by (simp add: shorter_def)

lemma reads_chain:
  assumes "reads (\<lambda>e us. G e (ls @ us)) us2 r" "r = Inr (e, rest)"
  shows "\<exists>us. us2 = us @ rest \<and> G e (ls @ us)"
  using assms by (auto simp: reads_def)

lemma reads_args:
  assumes "reads_all us" "p_args us = Inr (as, rest)"
  obtains vs where "us = vs @ rest" "gcall as vs"
  using reads_allD(7) [OF assms(1)] assms(2) by (auto simp: reads_def)

lemma reads_binary:
  assumes "reads_all us" "p_binary mp us = Inr (e, rest)"
  obtains vs where "us = vs @ rest" "gbin mp e vs" "no_operator mp rest"
  using reads_allD(1) [OF assms(1), of mp] reads_allD(2) [OF assms] assms(2) by (auto simp: reads_def)

lemma reads_primary:
  assumes IH: "\<And>us. length us < length ts \<Longrightarrow> reads_all us"
  shows "reads gprim ts (p_primary ts)"
proof (rule readsI)
  fix e rest assume "p_primary ts = Inr (e, rest)"
  from prim_cases [OF this] show "\<exists>us. ts = us @ rest \<and> gprim e us"
  proof (elim disjE exE conjE)
    fix t assume "ts = t # rest" "gprim e [t]"
    then show ?thesis by (intro exI [of _ "[t]"]) simp
  next
    fix t us c
    assume ts: "ts = t # us" and t: "tok_kind t \<notin> {TokString, TokNumber}" "tok_text t = ''(''"
      and b: "p_binary 0 us = Inr (e, c # rest)" and c: "is_text '')'' c"
    from reads_binary [OF IH b] ts obtain vs where "us = vs @ c # rest" "gbin 0 e vs" by auto
    with ts parentheses [OF t _ c] show ?thesis by (intro exI [of _ "t # vs @ [c]"]) simp
  next
    fix t p us as
    assume ts: "ts = t # p # us" and t: "tok_kind t = TokIdent" "tok_text t \<notin> {''('', ''true'', ''false''}" "is_text ''('' p"
      and a: "p_args us = Inr (as, rest)" and e: "e = ECall (tok_text t) as"
    from reads_args [OF IH a] ts obtain vs where "us = vs @ rest" "gcall as vs" by auto
    with ts e function_call [OF t] show ?thesis by (intro exI [of _ "t # p # vs"]) simp
  qed
qed

lemma reads_posttail:
  assumes IH: "\<And>us. length us < length ts \<Longrightarrow> reads_all us" and l: "gpost l ls"
  shows "reads (\<lambda>e us. gpost e (ls @ us)) ts (p_posttail l ts)"
proof (rule readsI)
  fix e rest assume "p_posttail l ts = Inr (e, rest)"
  from posttail_cases [OF this] show "\<exists>us. ts = us @ rest \<and> gpost e (ls @ us)"
  proof (elim disjE exE conjE)
    assume "ts = rest" "e = l"
    with l show ?thesis by (intro exI [of _ "[]"]) simp
  next
    fix d n us assume ts: "ts = d # n # us" and d: "is_text ''.'' d" "tok_kind n = TokIdent"
      and r: "p_posttail (EMember l (tok_text n) []) us = Inr (e, rest)"
    from reads_chain [OF reads_allD(6) [OF IH property [OF l d]] r] ts
    obtain vs where "us = vs @ rest" "gpost e ((ls @ [d, n]) @ vs)" by auto
    with ts show ?thesis by (intro exI [of _ "d # n # vs"]) simp
  next
    fix d n p us as us2
    assume ts: "ts = d # n # p # us" and d: "is_text ''.'' d" "tok_kind n = TokIdent" "is_text ''('' p"
      and a: "p_args us = Inr (as, us2)" and s: "shorter us2 ts"
      and r: "p_posttail (EMember l (tok_text n) as) us2 = Inr (e, rest)"
    from reads_args [OF IH a] ts obtain vs where vs: "us = vs @ us2" "gcall as vs" by auto
    from reads_chain [OF reads_allD(6) [OF IH [OF shorterD [OF s]] method_call [OF l d vs(2)]] r]
    obtain ws where "us2 = ws @ rest" "gpost e ((ls @ d # n # p # vs) @ ws)" by auto
    with ts vs show ?thesis by (intro exI [of _ "d # n # p # vs @ ws"]) simp
  qed
qed

lemma reads_postfix:
  assumes IH: "\<And>us. length us < length ts \<Longrightarrow> reads_all us"
  shows "reads gpost ts (p_postfix ts)"
proof (rule readsI)
  fix e rest assume "p_postfix ts = Inr (e, rest)"
  then obtain l us where l: "p_primary ts = Inr (l, us)" "shorter us ts" "p_posttail l us = Inr (e, rest)"
    by (subst (asm) p_postfix.simps) (auto split: if_splits)
  from readsE [OF reads_primary [OF IH] l(1)] obtain ls where ls: "ts = ls @ us" "gprim l ls" .
  from reads_chain [OF reads_allD(6) [OF IH [OF shorterD [OF l(2)]] atom [OF ls(2)]] l(3)]
  show "\<exists>us. ts = us @ rest \<and> gpost e us" using ls by auto
qed

lemma reads_unary:
  assumes IH: "\<And>us. length us < length ts \<Longrightarrow> reads_all us"
  shows "reads gun ts (p_unary ts)"
proof (rule readsI)
  fix e rest assume "p_unary ts = Inr (e, rest)"
  from unary_cases [OF this] show "\<exists>us. ts = us @ rest \<and> gun e us"
  proof (elim disjE exE conjE)
    fix t us e' assume ts: "ts = t # us" and t: "tok_kind t = TokOperator" and o: "tok_text t = ''!''"
      and r: "p_unary us = Inr (e', rest)" and e: "e = EUnary (tok_text t) e'"
    from readsE [OF reads_allD(5) [OF IH] r] ts obtain vs where "us = vs @ rest" "gun e' vs" by auto
    with ts e prefix_operation [OF t] o show ?thesis by (intro exI [of _ "t # vs"]) simp
  next
    fix t us e' assume ts: "ts = t # us" and t: "tok_kind t = TokOperator" and o: "tok_text t = ''-''"
      and r: "p_unary us = Inr (e', rest)" and e: "e = EUnary (tok_text t) e'"
    from readsE [OF reads_allD(5) [OF IH] r] ts obtain vs where "us = vs @ rest" "gun e' vs" by auto
    with ts e prefix_operation [OF t] o show ?thesis by (intro exI [of _ "t # vs"]) simp
  next
    fix t n assume "ts = t # n # rest" "gun e [t, n]"
    then show ?thesis by (intro exI [of _ "[t, n]"]) simp
  next
    assume "p_postfix ts = Inr (e, rest)"
    from readsE [OF reads_postfix [OF IH] this] obtain us where "ts = us @ rest" "gpost e us" .
    with plain show ?thesis by auto
  qed
qed

lemma reads_binloop:
  assumes IH: "\<And>us. length us < length ts \<Longrightarrow> reads_all us" and l: "left_ready mp l ls ts"
  shows "reads (\<lambda>e us. gbin mp e (ls @ us)) ts (p_binloop mp l ts)"
proof (rule readsI)
  fix e rest assume "p_binloop mp l ts = Inr (e, rest)"
  from binloop_cases [OF this] show "\<exists>us. ts = us @ rest \<and> gbin mp e (ls @ us)"
  proof (elim disjE exE conjE)
    assume "ts = rest" "e = l"
    with l show ?thesis by (intro exI [of _ "[]"]) (simp add: left_ready_def)
  next
    fix t us q r us2
    assume ts: "ts = t # us" and t: "tok_kind t = TokOperator" "precedence (tok_text t) = Some q" "mp \<le> q"
      and b: "p_binary (q + 1) us = Inr (r, us2)" and s: "shorter us2 ts"
      and lp: "p_binloop mp (EBinary (tok_text t) l r) us2 = Inr (e, rest)"
    have us: "reads_all us" by (rule IH) (simp add: ts)
    from reads_binary [OF us b] obtain vs where vs: "us = vs @ us2" "gbin (q + 1) r vs" "no_operator (q + 1) us2" .
    from left_ready_operation [OF l [unfolded ts] t vs(2,3)]
    have "left_ready mp (EBinary (tok_text t) l r) (ls @ t # vs) us2" .
    from reads_chain [OF reads_allD(3) [OF IH [OF shorterD [OF s]] this] lp]
    obtain ws where "us2 = ws @ rest" "gbin mp e ((ls @ t # vs) @ ws)" by auto
    with ts vs show ?thesis by (intro exI [of _ "t # vs @ ws"]) simp
  qed
qed

lemma binloop_stops:
  assumes IH: "\<And>us. length us < length ts \<Longrightarrow> reads_all us" and r: "p_binloop mp l ts = Inr (e, rest)"
  shows "no_operator mp rest"
  using binloop_cases [OF r] reads_allD(4) [OF IH [OF shorterD]] by blast

lemma reads_bin:
  assumes IH: "\<And>us. length us < length ts \<Longrightarrow> reads_all us"
  shows "reads (\<lambda>e us. gbin mp e us) ts (p_binary mp ts)"
    and "p_binary mp ts = Inr (e, rest) \<Longrightarrow> no_operator mp rest"
proof -
  have step: "(\<exists>us. ts = us @ rest \<and> gbin mp e us) \<and> no_operator mp rest"
    if "p_binary mp ts = Inr (e, rest)" for e rest
  proof -
    from that obtain l us where l: "p_unary ts = Inr (l, us)" "shorter us ts" "p_binloop mp l us = Inr (e, rest)"
      by (subst (asm) p_binary.simps) (auto split: if_splits)
    from readsE [OF reads_unary [OF IH] l(1)] obtain ls where ls: "ts = ls @ us" "gun l ls" .
    note sub = IH [OF shorterD [OF l(2)]]
    from reads_chain [OF reads_allD(3) [OF sub left_ready_operand [OF ls(2)]] l(3)] reads_allD(4) [OF sub l(3)]
    show ?thesis using ls by auto
  qed
  show "reads (\<lambda>e us. gbin mp e us) ts (p_binary mp ts)" using step by (simp add: reads_def)
  show "p_binary mp ts = Inr (e, rest) \<Longrightarrow> no_operator mp rest" using step by simp
qed

lemma reads_arglist:
  assumes IH: "\<And>us. length us < length ts \<Longrightarrow> reads_all us"
  shows "reads gargs ts (p_arglist ts)"
proof (rule readsI)
  fix as rest assume "p_arglist ts = Inr (as, rest)"
  from arglist_cases [OF this] obtain a d us where b: "p_binary 0 ts = Inr (a, d # us)"
    and more: "(is_text '')'' d \<and> us = rest \<and> as = [a]) \<or>
     (is_text '','' d \<and> shorter us ts \<and> (\<exists>bs. p_arglist us = Inr (bs, rest) \<and> as = a # bs))" by blast
  from readsE [OF reads_bin(1) [OF IH] b] obtain vs where vs: "ts = vs @ d # us" "gbin 0 a vs" .
  from more show "\<exists>us. ts = us @ rest \<and> gargs as us"
  proof (elim disjE exE conjE)
    assume "is_text '')'' d" "us = rest" "as = [a]"
    with vs last_argument show ?thesis by (intro exI [of _ "vs @ [d]"]) simp
  next
    fix bs assume d: "is_text '','' d" and s: "shorter us ts" and r: "p_arglist us = Inr (bs, rest)" and as: "as = a # bs"
    from readsE [OF reads_allD(8) [OF IH [OF shorterD [OF s]]] r] obtain ws where "us = ws @ rest" "gargs bs ws" .
    with vs as more_arguments [OF vs(2) d] show ?thesis by (intro exI [of _ "vs @ d # ws"]) simp
  qed
qed

lemma reads_call:
  assumes IH: "\<And>us. length us < length ts \<Longrightarrow> reads_all us"
  shows "reads gcall ts (p_args ts)"
proof (rule readsI)
  fix as rest assume "p_args ts = Inr (as, rest)"
  from args_cases [OF this] show "\<exists>us. ts = us @ rest \<and> gcall as us"
  proof (elim disjE exE conjE)
    fix c assume "ts = c # rest" "is_text '')'' c" "as = []"
    then show ?thesis by (intro exI [of _ "[c]"]) (simp add: no_arguments)
  next
    assume h: "\<not> is_text '')'' (hd ts)" and r: "p_arglist ts = Inr (as, rest)"
    from readsE [OF reads_arglist [OF IH] r] obtain us where us: "ts = us @ rest" "gargs as us" .
    with h phrase_nonempty(6) [OF us(2)] arguments [OF us(2)] show ?thesis by auto
  qed
qed

lemma reads_everywhere: "reads_all ts"
proof (induction ts rule: measure_induct_rule [of length])
  case (less ts)
  show ?case unfolding reads_all_def
    by (intro conjI allI impI reads_bin reads_binloop binloop_stops reads_unary reads_postfix reads_posttail
        reads_primary reads_call reads_arglist less) assumption+
qed

section \<open>The parser and the grammar agree\<close>

text \<open>C21. Where the next token cannot extend an operand, parsing an expression succeeds with the tree \<open>e\<close>
  exactly when the tokens consumed are a phrase for \<open>e\<close> of the grammar, with the precedences and
  the associativity of the operators, and the next token is not a binary operator.\<close>

theorem expression_iff_phrase:
  assumes "no_tail rest"
  shows "expression ts = Inr (e, rest) \<longleftrightarrow> no_operator 0 rest \<and> (\<exists>us. ts = us @ rest \<and> gbin 0 e us)"
proof
  assume "expression ts = Inr (e, rest)"
  then show "no_operator 0 rest \<and> (\<exists>us. ts = us @ rest \<and> gbin 0 e us)"
    unfolding expression_def by (auto elim: reads_binary [OF reads_everywhere])
next
  assume "no_operator 0 rest \<and> (\<exists>us. ts = us @ rest \<and> gbin 0 e us)"
  then show "expression ts = Inr (e, rest)"
    using phrases_read(1) [of 0 e _ 0 rest] assms binloop_stop no_operator_mono [of 0 rest 1]
    by (auto simp: expression_def)
qed

definition example_tokens :: tokens where
  "example_tokens = [mk_token TokIdent ''a'' 1, mk_token TokOperator ''-'' 1, mk_token TokIdent ''b'' 1,
     mk_token TokOperator ''*'' 1, mk_token TokIdent ''d'' 1, mk_token TokOperator ''-'' 1, mk_token TokIdent ''c'' 1]"

definition example_tree :: expr where
  "example_tree = EBinary ''-'' (EBinary ''-'' (EIdent ''a'') (EBinary ''*'' (EIdent ''b'') (EIdent ''d'')))
     (EIdent ''c'')"

lemma bind_r_weak: "m = m' \<Longrightarrow> bind_r m f = bind_r m' f"
  by simp

lemma expression_iff_phrase_witness:
  "\<exists>us. example_tokens @ [mk_token TokPunct '';'' 1] = us @ [mk_token TokPunct '';'' 1] \<and> gbin 0 example_tree us"
proof -
  have "no_tail [mk_token TokPunct '';'' 1]" by (simp add: no_tail_def is_text_def)
  moreover have "expression (example_tokens @ [mk_token TokPunct '';'' 1]) = Inr (example_tree, [mk_token TokPunct '';'' 1])"
    by (simp add: expression_def example_tokens_def example_tree_def p_simps is_text_def shorter_def mk_token_def
        precedence_def cong: bind_r_weak)
  ultimately show ?thesis using expression_iff_phrase by blast
qed

end
