(* ===== verification/Device_Responses.thy ===== *)
theory Device_Responses
  imports Xml_Value "HOL-Library.Multiset"
begin

text \<open>
  \<^verbatim>\<open>internal/deviceresponses/deviceresponses.go\<close>: how a device type answers a value write with
  follow-up events. The tables are those of the source; a lookup takes the longest registered prefix
  of the device type that has an entry for the parameter, whatever order Go iterates the table in.
\<close>

type_synonym val_map = "(string, gov) gomap"

record response =
  trigger_param :: string
  response_params :: "string list"
  value_transformer :: "(gov \<Rightarrow> val_map \<Rightarrow> val_map) option"
  echo_trigger :: bool

type_synonym response_table = "(string \<times> (string \<times> response) list) list"

definition echo :: "string \<Rightarrow> response" where
  "echo p = \<lparr>trigger_param = p, response_params = [], value_transformer = None, echo_trigger = True\<rparr>"

definition transform :: "string \<Rightarrow> (gov \<Rightarrow> val_map \<Rightarrow> val_map) \<Rightarrow> response" where
  "transform p f = \<lparr>trigger_param = p, response_params = [], value_transformer = Some f, echo_trigger = False\<rparr>"

section \<open>Helpers of the tables\<close>

definition activity_idle :: int where "activity_idle = 0"
definition activity_up :: int where "activity_up = 1"
definition activity_down :: int where "activity_down = 2"

fun is_zero_value :: "gov \<Rightarrow> bool" where
  "is_zero_value GNil = True"
| "is_zero_value (GInt n) = (n = 0)"
| "is_zero_value (GFloat x) = is_zero x"
| "is_zero_value (GBool b) = (\<not> b)"
| "is_zero_value (GStr s) = (s = [])"
| "is_zero_value v = False"

definition lookup_or_default :: "val_map \<Rightarrow> string \<Rightarrow> gov \<Rightarrow> gov" where
  "lookup_or_default current key d = (case map_of current key of Some v \<Rightarrow> v | None \<Rightarrow> d)"

definition with_level_2 :: "val_map \<Rightarrow> val_map \<Rightarrow> val_map" where
  "with_level_2 current out = (case map_of current ''LEVEL_2'' of Some l2 \<Rightarrow> AList.update ''LEVEL_2'' l2 out | None \<Rightarrow> out)"

section \<open>The tables\<close>

type_synonym responses = "(string \<times> response) list"

definition state_with_working :: responses where
  "state_with_working =
     [(''STATE'', transform ''STATE'' (\<lambda>v _. [(''STATE'', v), (''WORKING'', GBool False)]))]"

definition bsm_responses :: responses where
  "bsm_responses = state_with_working @
     map (\<lambda>p. (p, echo p)) [''POWER'', ''ENERGY_COUNTER'', ''VOLTAGE'', ''CURRENT'', ''FREQUENCY'']"

definition level_to_level_real :: responses where
  "level_to_level_real = [(''LEVEL'', transform ''LEVEL'' (\<lambda>v _. [(''LEVEL'', v)]))]"

definition level_with_activity :: responses where
  "level_with_activity =
     [(''LEVEL'', transform ''LEVEL'' (\<lambda>v _. [(''LEVEL'', v), (''ACTIVITY_STATE'', GInt activity_idle)]))]"

definition blind_level :: responses where
  "blind_level =
     [(''LEVEL'', transform ''LEVEL'' (\<lambda>v cur.
         with_level_2 cur [(''LEVEL'', v), (''ACTIVITY_STATE'', GInt activity_idle)])),
      (''LEVEL_2'', echo ''LEVEL_2'')]"

definition blind_level_only :: responses where
  "blind_level_only = [(''LEVEL'', transform ''LEVEL'' (\<lambda>v cur. with_level_2 cur [(''LEVEL'', v)]))]"

definition setpoint :: responses where
  "setpoint =
     [(''SET_POINT_TEMPERATURE'', transform ''SET_POINT_TEMPERATURE'' (\<lambda>v cur.
         [(''SET_POINT_TEMPERATURE'', v), (''CONTROL_MODE'', lookup_or_default cur ''CONTROL_MODE'' (GInt 1))]))]"

definition bwth_responses :: responses where
  "bwth_responses = setpoint @ map (\<lambda>p. (p, echo p)) [''ACTUAL_TEMPERATURE'', ''HUMIDITY'']"

definition setpoint_with_control_mode :: responses where
  "setpoint_with_control_mode = setpoint @ [(''CONTROL_MODE'', echo ''CONTROL_MODE'')]"

definition rtdn_setpoint_and_mode :: responses where
  "rtdn_setpoint_and_mode = map (\<lambda>p. (p, echo p)) [''SET_TEMPERATURE'', ''CONTROL_MODE'']"

definition smoke_detector_test :: responses where
  "smoke_detector_test =
     [(''SMOKE_DETECTOR_COMMAND'', transform ''SMOKE_DETECTOR_COMMAND'' (\<lambda>_ _.
         [(''SMOKE_DETECTOR_ALARM_STATUS'', GInt 0), (''SMOKE_DETECTOR_TEST_RESULT'', GInt 0)])),
      (''SMOKE_DETECTOR_ALARM_STATUS'', echo ''SMOKE_DETECTOR_ALARM_STATUS''),
      (''LOW_BAT'', echo ''LOW_BAT'')]"

definition motion_sensor :: responses where
  "motion_sensor = map (\<lambda>p. (p, echo p)) [''MOTION'', ''CURRENT_ILLUMINATION'', ''LOW_BAT'']"

definition concentration_sensor :: responses where
  "concentration_sensor = [(''CONCENTRATION'', echo ''CONCENTRATION'')]"

definition window_state :: responses where
  "window_state = [(''STATE'', transform ''STATE'' (\<lambda>v _. [(''STATE'', v)])), (''LOW_BAT'', echo ''LOW_BAT'')]"

definition lock_target_level :: responses where
  "lock_target_level =
     [(''LOCK_TARGET_LEVEL'',
       (transform ''LOCK_TARGET_LEVEL'' (\<lambda>v _. [(''LOCK_STATE'', GInt (if is_zero_value v then 1 else 2))]))
         \<lparr>response_params := [''LOCK_STATE'']\<rparr>)]"

definition device_response_mappings :: response_table where
  "device_response_mappings =
     [(''HmIP-PS'', state_with_working), (''HmIP-PSM'', state_with_working), (''HmIP-BSM'', bsm_responses),
      (''HmIP-FSM'', state_with_working), (''HmIP-PCBS'', state_with_working), (''HM-LC-Sw'', state_with_working),
      (''HmIP-BDT'', level_with_activity), (''HmIP-PDT'', level_with_activity), (''HmIP-FDT'', level_with_activity),
      (''HM-LC-Dim'', level_to_level_real), (''HmIP-BROLL'', blind_level), (''HmIP-FROLL'', blind_level_only),
      (''HmIP-BBL'', blind_level), (''HmIP-FBL'', blind_level), (''HM-LC-Bl1'', level_to_level_real),
      (''HmIP-eTRV'', setpoint_with_control_mode), (''HmIP-HEATING'', setpoint), (''HmIP-WTH'', setpoint),
      (''HmIP-BWTH'', bwth_responses), (''HmIP-STH'', setpoint), (''HM-CC-RT-DN'', rtdn_setpoint_and_mode),
      (''HmIP-SWSD'', smoke_detector_test), (''HmIP-SMI'', motion_sensor), (''HmIP-SWDO'', window_state),
      (''HmIP-SRH'', window_state), (''HmIP-SCTH230'', concentration_sensor), (''HmIP-DLD'', lock_target_level)]"

section \<open>Lookup and follow-up events\<close>

definition starts_with :: "string \<Rightarrow> string \<Rightarrow> bool" where
  "starts_with s p \<longleftrightarrow> length p \<le> length s \<and> equal_fold (take (length p) s) p"

text \<open>The search over the prefixes, longest first.\<close>

definition prefix_response :: "response_table \<Rightarrow> string \<Rightarrow> string \<Rightarrow> response option" where
  "prefix_response tbl dt p =
     (case List.find (\<lambda>(k, m). starts_with dt k \<and> map_of m p \<noteq> None) (sort_key (\<lambda>(k, m). - int (length k)) tbl) of
        None \<Rightarrow> None
      | Some (k, m) \<Rightarrow> map_of m p)"

definition mapping_in :: "response_table \<Rightarrow> string \<Rightarrow> string \<Rightarrow> response option" where
  "mapping_in tbl dt p =
     (case List.find (\<lambda>(k, m). equal_fold k dt) tbl of
        Some (k, m) \<Rightarrow> (case map_of m p of Some r \<Rightarrow> Some r | None \<Rightarrow> prefix_response tbl dt p)
      | None \<Rightarrow> prefix_response tbl dt p)"

definition mapping :: "string \<Rightarrow> string \<Rightarrow> response option" where
  "mapping dt p = mapping_in device_response_mappings dt p"

definition compute_events :: "string \<Rightarrow> string \<Rightarrow> gov \<Rightarrow> val_map \<Rightarrow> val_map" where
  "compute_events dt p v current =
     (case mapping dt p of
        None \<Rightarrow> [(p, v)]
      | Some r \<Rightarrow>
          (let events = (case value_transformer r of Some f \<Rightarrow> f v current | None \<Rightarrow> [(p, v)])
           in if echo_trigger r \<and> map_of events p = None then AList.update p v events else events))"

text \<open>Movement: the parameters that report one, and its direction.\<close>

definition ramp_parameters :: "(string \<times> string) list" where
  "ramp_parameters = [(''LEVEL'', ''ACTIVITY_STATE''), (''LEVEL_2'', ''ACTIVITY_STATE'')]"

fun move_float :: "gov \<Rightarrow> f64 option" where
  "move_float (GFloat x) = Some x"
| "move_float (GInt n) = Some (f64_of_int n)"
| "move_float (GBool b) = Some (Fin (if b then 1 else 0))"
| "move_float v = None"

definition activity_for_move :: "gov \<Rightarrow> gov \<Rightarrow> int" where
  "activity_for_move target current =
     (case (move_float target, move_float current) of
        (Some t, Some c) \<Rightarrow>
          if f64_eq t c then activity_idle
          else if f64_less c t then activity_up else activity_down
      | _ \<Rightarrow> activity_idle)"

section \<open>The lookup takes the longest prefix\<close>

text \<open>A table is well formed when no two of its prefixes differ in case only.\<close>

definition table_ok :: "response_table \<Rightarrow> bool" where
  "table_ok tbl \<longleftrightarrow> distinct (map (\<lambda>(k, m). to_upper k) tbl)"

definition candidate :: "response_table \<Rightarrow> string \<Rightarrow> string \<Rightarrow> string \<Rightarrow> response \<Rightarrow> bool" where
  "candidate tbl dt p k r \<longleftrightarrow> (\<exists>m. (k, m) \<in> set tbl \<and> starts_with dt k \<and> map_of m p = Some r)"

lemma prefix_take: "prefix xs ys \<longleftrightarrow> length xs \<le> length ys \<and> take (length xs) ys = xs"
  by (metis append_eq_conv_conj prefixE prefix_length_le take_is_prefix)

lemma starts_with_upper: "starts_with s p \<longleftrightarrow> prefix (to_upper p) (to_upper s)"
  unfolding starts_with_def equal_fold_def prefix_take to_upper_def by (simp add: take_map)

lemma same_length_prefixes:
  "starts_with s a \<Longrightarrow> starts_with s b \<Longrightarrow> length a = length b \<Longrightarrow> to_upper a = to_upper b"
  by (simp add: starts_with_def equal_fold_def)

lemma fold_equal_starts: "equal_fold k s \<Longrightarrow> starts_with s k"
  by (simp add: starts_with_upper equal_fold_def)

lemma table_key:
  assumes "table_ok tbl" "(k, m) \<in> set tbl" "(k', m') \<in> set tbl" "to_upper k = to_upper k'"
  shows "k = k'" "m = m'"
proof -
  have "inj_on (\<lambda>(k, m). to_upper k) (set tbl)"
    using assms(1) by (simp add: table_ok_def distinct_map)
  from inj_onD [OF this _ assms(2,3)] assms(4) have "(k, m) = (k', m')" by simp
  then show "k = k'" "m = m'" by simp_all
qed

lemma find_sorted_best:
  assumes "List.find P (sort_key (f :: 'a \<Rightarrow> int) xs) = Some x"
  shows "x \<in> set xs \<and> P x \<and> (\<forall>y \<in> set xs. P y \<longrightarrow> f x \<le> f y)"
proof -
  let ?ys = "sort_key f xs"
  from assms obtain i where i: "i < length ?ys" "P (?ys ! i)" "x = ?ys ! i" "\<forall>j<i. \<not> P (?ys ! j)"
    by (auto simp: find_Some_iff)
  have "f x \<le> f y" if y: "y \<in> set xs" "P y" for y
  proof -
    from y(1) obtain j where j: "j < length ?ys" "y = ?ys ! j" by (metis in_set_conv_nth set_sort)
    with i(4) y(2) have "i \<le> j" by (metis not_le)
    with sorted_nth_mono [OF sorted_sort_key [of f xs], of i j] i j show ?thesis by simp
  qed
  moreover have "x \<in> set xs" using i(1,3) by (metis nth_mem set_sort)
  ultimately show ?thesis using i by auto
qed

lemma prefix_response_spec:
  assumes ok: "table_ok tbl"
  shows "prefix_response tbl dt p = Some r \<longleftrightarrow>
    (\<exists>k. candidate tbl dt p k r \<and> (\<forall>k' r'. candidate tbl dt p k' r' \<longrightarrow> length k' \<le> length k))"
    (is "_ \<longleftrightarrow> (\<exists>k. ?best k r)")
proof -
  let ?P = "\<lambda>(k, m). starts_with dt k \<and> map_of m p \<noteq> None"
  let ?f = "\<lambda>(k, m). - int (length k)"
  have best: "?best k r" if "List.find ?P (sort_key ?f tbl) = Some (k, m)" "map_of m p = Some r" for k m r
    using find_sorted_best [OF that(1)] that(2) by (fastforce simp: candidate_def)
  have uniq: "r = r'" if "?best k r" "?best k' r'" for k k' r r'
  proof -
    from that obtain m m' where m: "(k, m) \<in> set tbl" "starts_with dt k" "map_of m p = Some r"
      "(k', m') \<in> set tbl" "starts_with dt k'" "map_of m' p = Some r'" by (auto simp: candidate_def)
    from that have "length k = length k'" by (meson le_antisym)
    with same_length_prefixes m have "to_upper k = to_upper k'" by blast
    with table_key [OF ok m(1,4)] m show ?thesis by simp
  qed
  show ?thesis
  proof (cases "List.find ?P (sort_key ?f tbl)")
    case None
    then have "\<not> candidate tbl dt p k r" for k by (auto simp: find_None_iff candidate_def)
    with None show ?thesis by (simp add: prefix_response_def)
  next
    case (Some x)
    obtain k m where x: "x = (k, m)" by (cases x)
    with find_sorted_best [OF Some] obtain r' where r': "map_of m p = Some r'" by auto
    with Some x have "prefix_response tbl dt p = Some r'" by (simp add: prefix_response_def)
    with best [of k m r'] Some x r' uniq show ?thesis by auto
  qed
qed

lemma mapping_prefix:
  assumes ok: "table_ok tbl"
  shows "mapping_in tbl dt p = prefix_response tbl dt p"
proof (cases "List.find (\<lambda>(k, m). equal_fold k dt) tbl")
  case None
  then show ?thesis by (simp add: mapping_in_def)
next
  case (Some x)
  obtain k m where x: "x = (k, m)" by (cases x)
  from Some x have k: "(k, m) \<in> set tbl" "equal_fold k dt" by (auto simp: find_Some_iff in_set_conv_nth)
  show ?thesis
  proof (cases "map_of m p")
    case None
    with Some x show ?thesis by (simp add: mapping_in_def)
  next
    case (Some r)
    have "candidate tbl dt p k r" using k Some fold_equal_starts by (auto simp: candidate_def)
    moreover have "length k' \<le> length k" if "candidate tbl dt p k' r'" for k' r'
    proof -
      from that have "length k' \<le> length dt" by (auto simp: candidate_def starts_with_def)
      also have "length dt = length k" using k(2) length_to_upper by (metis equal_fold_def)
      finally show ?thesis .
    qed
    ultimately have "prefix_response tbl dt p = Some r" using prefix_response_spec [OF ok] by blast
    with Some \<open>List.find _ tbl = Some x\<close> x show ?thesis by (simp add: mapping_in_def)
  qed
qed

lemma candidate_perm: "mset tbl' = mset tbl \<Longrightarrow> candidate tbl' dt p k r \<longleftrightarrow> candidate tbl dt p k r"
  by (auto simp: candidate_def dest: mset_eq_setD)

lemma device_table_ok: "table_ok device_response_mappings"
  by (simp add: table_ok_def device_response_mappings_def to_upper_def up_char_def char_of_eq_iff)

text \<open>Whatever order Go iterates the response table in, a device type and parameter have the response
  of the longest prefix registered for the type that knows the parameter, case ignored.\<close>

theorem mapping_longest_prefix:
  assumes "mset tbl = mset device_response_mappings"
  shows "mapping_in tbl dt p = Some r \<longleftrightarrow>
    (\<exists>k. candidate device_response_mappings dt p k r \<and>
      (\<forall>k' r'. candidate device_response_mappings dt p k' r' \<longrightarrow> length k' \<le> length k))"
proof -
  have "table_ok tbl" using device_table_ok assms
    by (metis (no_types, lifting) mset_eq_imp_distinct_iff mset_map table_ok_def)
  then show ?thesis
    by (simp add: mapping_prefix prefix_response_spec candidate_perm [OF assms])
qed

section \<open>What a response reports of its trigger\<close>

definition response_events :: "response \<Rightarrow> string \<Rightarrow> gov \<Rightarrow> val_map \<Rightarrow> val_map" where
  "response_events r p v current =
     (let events = (case value_transformer r of Some f \<Rightarrow> f v current | None \<Rightarrow> [(p, v)])
      in if echo_trigger r \<and> map_of events p = None then AList.update p v events else events)"

definition keeps_trigger :: "string \<Rightarrow> val_map \<Rightarrow> gov \<Rightarrow> bool" where
  "keeps_trigger p es v \<longleftrightarrow> wf_map es \<and> map_of es p \<in> {None, Some v}"

definition plain_response :: "string \<times> response \<Rightarrow> bool" where
  "plain_response e \<longleftrightarrow> (\<forall>v current. keeps_trigger (fst e) (response_events (snd e) (fst e) v current) v)"

lemma plain_echo: "plain_response (p, echo p)"
  by (simp add: plain_response_def response_events_def echo_def keeps_trigger_def wf_map_def)

lemma plain_transform:
  "(\<And>v current. keeps_trigger p (f v current) v) \<Longrightarrow> plain_response (p, transform p f)"
  by (simp add: plain_response_def response_events_def transform_def)

lemma keeps_level_2:
  "p \<noteq> ''LEVEL_2'' \<Longrightarrow> keeps_trigger p es v \<Longrightarrow> keeps_trigger p (with_level_2 current es) v"
  by (auto simp: with_level_2_def keeps_trigger_def split: option.split)

lemma keeps_pairs [simp]:
  "keeps_trigger p [(p, v)] v"
  "p \<noteq> q \<Longrightarrow> keeps_trigger p [(p, v), (q, w)] v"
  "p \<noteq> q \<Longrightarrow> keeps_trigger p [(q, w)] v"
  "p \<noteq> q \<Longrightarrow> p \<noteq> q' \<Longrightarrow> q \<noteq> q' \<Longrightarrow> keeps_trigger p [(q, w), (q', w')] v"
  by (auto simp: keeps_trigger_def wf_map_def)

lemma plain_setpoint: "list_all plain_response setpoint"
  by (simp add: setpoint_def plain_transform)

lemma plain_working: "list_all plain_response state_with_working"
  by (simp add: state_with_working_def plain_transform)

lemma plain_levels: "list_all plain_response level_with_activity" "list_all plain_response level_to_level_real"
  "list_all plain_response blind_level" "list_all plain_response blind_level_only"
  by (auto simp: level_with_activity_def level_to_level_real_def blind_level_def blind_level_only_def plain_echo
      intro!: plain_transform keeps_level_2)

lemma plain_smoke: "list_all plain_response smoke_detector_test"
  by (auto simp: smoke_detector_test_def plain_echo intro!: plain_transform)

lemma plain_window: "list_all plain_response window_state"
  by (auto simp: window_state_def plain_echo intro!: plain_transform)

lemma plain_lock: "list_all plain_response lock_target_level"
  by (simp add: lock_target_level_def plain_response_def response_events_def transform_def)

lemma plain_table: "list_all (\<lambda>(k, m). list_all plain_response m) device_response_mappings"
  unfolding device_response_mappings_def
  by (simp add: plain_setpoint plain_working plain_levels plain_smoke plain_window plain_lock bsm_responses_def
      bwth_responses_def setpoint_with_control_mode_def rtdn_setpoint_and_mode_def motion_sensor_def
      concentration_sensor_def plain_echo)

lemma prefix_response_entry: "prefix_response tbl dt p = Some r \<Longrightarrow> \<exists>k m. (k, m) \<in> set tbl \<and> (p, r) \<in> set m"
  by (auto simp: prefix_response_def dest!: find_sorted_best map_of_SomeD split: option.splits)

lemma mapping_entry: "mapping dt p = Some r \<Longrightarrow> plain_response (p, r)"
  using prefix_response_entry [of device_response_mappings dt p r] plain_table
  by (fastforce simp: mapping_def mapping_prefix [OF device_table_ok] list_all_iff)

text \<open>The events a value write makes name its own parameter with that value, or not at all.\<close>

lemma compute_events_trigger: "keeps_trigger p (compute_events dt p v current) v"
  using mapping_entry [of dt p]
  by (cases "mapping dt p") (auto simp: compute_events_def plain_response_def response_events_def Let_def)

end
