(* ===== verification/Go_Any.thy ===== *)
theory Go_Any
  imports Device_Responses Go_Num
begin

text \<open>
  Loosely typed Go values as the device simulator reads them: type assertions, the coercions at the
  end of \<^verbatim>\<open>internal/ccu/rpcfunctions.go\<close>, and \<^verbatim>\<open>internal/converter/converter.go\<close>. What the
  simulator takes from the standard library and what depends on the platform is collected in the
  record \<open>golib\<close>, an argument of every definition that needs it: the scanner behind
  \<open>fmt.Sscanf("%g")\<close>, \<open>strconv.ParseFloat\<close>, the text of \<open>fmt.Sprintf("%v")\<close>, and the integer that
  a conversion yields from a float outside the integer range, which Go leaves to the platform; and
  the order in which Go iterates a map it has just built.
\<close>

record golib =
  scan_float :: "string \<Rightarrow> f64 option"
  parse_float :: "string \<Rightarrow> f64 option"
  sprint :: "gov \<Rightarrow> string"
  wide_int :: "f64 \<Rightarrow> int"
  iter_order :: "val_map \<Rightarrow> val_map"

section \<open>Type assertions\<close>

fun any_str :: "gov \<Rightarrow> string option" where
  "any_str (GStr s) = Some s"
| "any_str v = None"

fun any_map :: "gov \<Rightarrow> val_map option" where
  "any_map (GMap m) = Some m"
| "any_map v = None"

fun any_list :: "gov \<Rightarrow> gov list option" where
  "any_list (GList vs) = Some vs"
| "any_list v = None"

text \<open>An entry of a description: nil where there is none, and its text, empty where it has none.\<close>

definition entry_of :: "val_map \<Rightarrow> string \<Rightarrow> gov" where
  "entry_of m k = (case map_of m k of Some v \<Rightarrow> v | None \<Rightarrow> GNil)"

definition text_of :: "val_map \<Rightarrow> string \<Rightarrow> string" where
  "text_of m k = (case any_str (entry_of m k) of Some s \<Rightarrow> s | None \<Rightarrow> [])"

section \<open>Coercions\<close>

definition in_int64 :: "int \<Rightarrow> bool" where
  "in_int64 n \<longleftrightarrow> - (2 ^ 63) \<le> n \<and> n < 2 ^ 63"

fun go_int :: "golib \<Rightarrow> f64 \<Rightarrow> int" where
  "go_int L NegZero = 0"
| "go_int L (Fin q) = (if in_int64 (trunc_rat q) then trunc_rat q else wide_int L (Fin q))"
| "go_int L x = wide_int L x"

definition finite_f64 :: "f64 \<Rightarrow> bool" where
  "finite_f64 x \<longleftrightarrow> (case x of NaN \<Rightarrow> False | Inf s \<Rightarrow> False | _ \<Rightarrow> True)"

text \<open>\<open>parseFloat\<close> and \<open>toFloat\<close>: no NaN and no infinity out of a text.\<close>

definition scan_finite :: "golib \<Rightarrow> string \<Rightarrow> f64 option" where
  "scan_finite L s = (case scan_float L s of Some x \<Rightarrow> if finite_f64 x then Some x else None | None \<Rightarrow> None)"

fun to_float :: "golib \<Rightarrow> gov \<Rightarrow> f64" where
  "to_float L (GFloat x) = x"
| "to_float L (GInt n) = f64_of_int n"
| "to_float L (GBool b) = Fin (if b then 1 else 0)"
| "to_float L (GStr s) = (case scan_finite L s of Some x \<Rightarrow> x | None \<Rightarrow> Fin 0)"
| "to_float L v = Fin 0"

fun to_bool :: "gov \<Rightarrow> bool" where
  "to_bool (GBool b) = b"
| "to_bool (GInt n) = (n \<noteq> 0)"
| "to_bool (GFloat x) = (\<not> is_zero x)"
| "to_bool (GStr s) = (s = ''true'' \<or> s = ''True'' \<or> s = ''1'')"
| "to_bool v = False"

fun to_string :: "golib \<Rightarrow> gov \<Rightarrow> string" where
  "to_string L (GStr s) = s"
| "to_string L v = sprint L v"

fun read_int :: "golib \<Rightarrow> gov \<Rightarrow> int" where
  "read_int L (GInt n) = n"
| "read_int L (GFloat x) = go_int L x"
| "read_int L (GBool b) = (if b then 1 else 0)"
| "read_int L v = 0"

section \<open>Combined parameters\<close>

definition convertable_parameters :: "string list" where
  "convertable_parameters = [''COMBINED_PARAMETER'', ''LEVEL_COMBINED'']"

definition is_convertable :: "string \<Rightarrow> bool" where
  "is_convertable p \<longleftrightarrow> p \<in> set convertable_parameters"

text \<open>\<open>convertCpvToHmLevel\<close>: a hexadecimal byte or a number.\<close>

definition cpv_to_hm_level :: "golib \<Rightarrow> string \<Rightarrow> gov" where
  "cpv_to_hm_level L raw =
     (if prefix ''0x'' raw \<or> prefix ''0X'' raw then
        (case parse_int 16 (drop 2 raw) of
           None \<Rightarrow> GStr raw
         | Some n \<Rightarrow> GFloat (f64_div (f64_div (f64_of_int n) (Fin 100)) (Fin 2)))
      else (case parse_float L raw of Some x \<Rightarrow> GFloat x | None \<Rightarrow> GStr raw))"

definition cpv_to_hmip_level :: "string \<Rightarrow> gov" where
  "cpv_to_hmip_level raw =
     (case parse_int 10 raw of None \<Rightarrow> GStr raw | Some n \<Rightarrow> GFloat (f64_div (f64_of_int n) (Fin 100)))"

definition combined_parameter_names :: "(string \<times> string) list" where
  "combined_parameter_names = [(''L'', ''LEVEL''), (''L2'', ''LEVEL_2'')]"

text \<open>One \<open>key=value\<close> pair: nothing where the pair has no key, or one that is not known.\<close>

definition combined_pair :: "string \<Rightarrow> (string \<times> gov) option" where
  "combined_pair pair =
     (case cut_byte (CHR ''='') pair of
        (k, v, found) \<Rightarrow>
          if \<not> found \<or> k = [] then None
          else (case map_of combined_parameter_names (trim_space k) of
                  None \<Rightarrow> None
                | Some name \<Rightarrow> Some (name, cpv_to_hmip_level (trim_space v))))"

definition convert_combined_parameter :: "string \<Rightarrow> val_map" where
  "convert_combined_parameter cpv =
     fold (\<lambda>pair out. case combined_pair pair of None \<Rightarrow> out | Some (k, v) \<Rightarrow> AList.update k v out)
       (split_byte (CHR '','') cpv) []"

definition convert_level_combined :: "golib \<Rightarrow> string \<Rightarrow> val_map" where
  "convert_level_combined L lcv =
     (case cut_byte (CHR '','') lcv of
        (a, b, found) \<Rightarrow>
          if \<not> found then []
          else [(''LEVEL'', cpv_to_hm_level L (trim_space a)), (''LEVEL_SLATS'', cpv_to_hm_level L (trim_space b))])"

definition convert_combined :: "golib \<Rightarrow> string \<Rightarrow> string \<Rightarrow> val_map" where
  "convert_combined L parameter value =
     (if parameter = ''COMBINED_PARAMETER'' then convert_combined_parameter value
      else if parameter = ''LEVEL_COMBINED'' then convert_level_combined L value
      else [])"

text \<open>\<open>ConvertHmLevelToCpv\<close>: the level in half percents as a hexadecimal byte.\<close>

fun hex_of :: "nat \<Rightarrow> string" where
  "hex_of n = (if n < 16 then [hex_digit n] else hex_of (n div 16) @ [hex_digit (n mod 16)])"

definition level_to_cpv :: "golib \<Rightarrow> f64 \<Rightarrow> string" where
  "level_to_cpv L level =
     (let v = go_int L (f64_mul (f64_mul level (Fin 100)) (Fin 2))
      in if 0 \<le> v \<and> v \<le> 255 then ''0x'' @ [hex_digit (nat v div 16), hex_digit (nat v mod 16)]
         else if v < 0 then ''-0x'' @ hex_of (nat (- v)) else ''0x'' @ hex_of (nat v))"

end
