(* ===== verification/Paramset_Store.thy ===== *)
theory Paramset_Store
  imports Go_Any
begin

text \<open>
  The device universe and the paramset values of \<^verbatim>\<open>internal/ccu/rpcfunctions.go\<close>: descriptions,
  stored values, and the two caches in front of them. This theory has what happens under the lock;
  events, callbacks and timers are in \<open>Device_Rpc\<close>. Error texts are reduced to their arguments.
\<close>

unbundle bit_operations_syntax

section \<open>State\<close>

datatype rpc_error =
    UnknownDevice string
  | UnknownParamset string string
  | UnknownParameter string string
  | InvalidValue string string
  | NotDescribed string string
  | WriteNotAllowed string string
  | NoLink string string
  | ParameterRequired
  | WireFault int string

type_synonym paramset_key = "string \<times> string"

record store =
  devices :: "val_map list"
  device_by_address :: "(string, val_map) gomap"
  paramset_desc :: "(string, val_map) gomap"
  supported_devices :: "(string, string) gomap"
  active_devices :: "string list"
  paramsets :: "(string, (string, val_map) gomap) gomap"
  ps_defaults :: "(paramset_key, val_map) gomap"
  ps_compiled :: "(paramset_key, val_map) gomap"
  ps_dirty :: "paramset_key list"
  poisoned :: "string list"
  pending_sticky :: "(string, bool) gomap"

definition empty_store :: store where
  "empty_store = \<lparr>devices = [], device_by_address = [], paramset_desc = [], supported_devices = [],
     active_devices = [], paramsets = [], ps_defaults = [], ps_compiled = [], ps_dirty = [], poisoned = [],
     pending_sticky = []\<rparr>"

section \<open>Parameter descriptions\<close>

definition flag_internal :: int where "flag_internal = 2"
definition operation_write :: int where "operation_write = 2"

text \<open>The position of a text in a list of values that may hold other things.\<close>

fun label_index :: "string \<Rightarrow> gov list \<Rightarrow> nat option" where
  "label_index s [] = None"
| "label_index s (v # vs) =
     (if any_str v = Some s then Some 0 else map_option Suc (label_index s vs))"

text \<open>The default of one described parameter; none for an internal one.\<close>

definition default_of :: "golib \<Rightarrow> val_map \<Rightarrow> gov option" where
  "default_of L desc =
     (if (read_int L (entry_of desc ''FLAGS'')) AND flag_internal \<noteq> 0 then None
      else (let def = entry_of desc ''DEFAULT'' in
        if text_of desc ''TYPE'' = ''ENUM'' then
          (case (any_list (entry_of desc ''VALUE_LIST''), any_str def) of
             (Some vs, Some s) \<Rightarrow> (case label_index s vs of Some i \<Rightarrow> Some (GInt (int i)) | None \<Rightarrow> Some def)
           | _ \<Rightarrow> Some def)
        else Some def))"

definition build_defaults :: "golib \<Rightarrow> val_map \<Rightarrow> val_map" where
  "build_defaults L ps =
     fold (\<lambda>(name, raw) out.
       case any_map raw of
         None \<Rightarrow> out
       | Some desc \<Rightarrow> (case default_of L desc of None \<Rightarrow> out | Some d \<Rightarrow> AList.update name d out)) ps []"

section \<open>Values on their way into the store\<close>

definition convert_param_value :: "golib \<Rightarrow> gov \<Rightarrow> string \<Rightarrow> gov" where
  "convert_param_value L v ty =
     (if ty = ''BOOL'' then GBool (to_bool v)
      else if ty = ''STRING'' then GStr (to_string L v)
      else if ty = ''INTEGER'' \<or> ty = ''ENUM'' then GInt (go_int L (to_float L v))
      else if ty = ''FLOAT'' then GFloat (to_float L v)
      else v)"

definition enum_label_index :: "string \<Rightarrow> val_map \<Rightarrow> nat option" where
  "enum_label_index label desc =
     (case any_list (entry_of desc ''VALUE_LIST'') of Some vs \<Rightarrow> label_index label vs | None \<Rightarrow> None)"

definition enum_in_bounds :: "golib \<Rightarrow> gov \<Rightarrow> val_map \<Rightarrow> bool" where
  "enum_in_bounds L v desc =
     (case map_of desc ''MAX'' of
        None \<Rightarrow> True
      | Some mx \<Rightarrow>
          if any_str mx \<noteq> None then True
          else (let x = to_float L v
                in \<not> f64_less (to_float L mx) x \<and> \<not> f64_less x (to_float L (entry_of desc ''MIN''))))"

definition special_values :: "golib \<Rightarrow> val_map \<Rightarrow> f64 list" where
  "special_values L desc =
     (case any_list (entry_of desc ''SPECIAL'') of
        None \<Rightarrow> []
      | Some es \<Rightarrow> concat (map (\<lambda>e. case any_list e of Some items \<Rightarrow> map (to_float L) items | None \<Rightarrow> []) es))"

definition clamp_range :: "f64 \<Rightarrow> f64 \<Rightarrow> f64 \<Rightarrow> f64" where
  "clamp_range lo hi v = (let w = (if f64_less hi v then hi else v) in if f64_less w lo then lo else w)"

definition clamp_numeric :: "golib \<Rightarrow> gov \<Rightarrow> val_map \<Rightarrow> string \<Rightarrow> gov" where
  "clamp_numeric L value desc ty =
     (let v = to_float L value;
          w = (if list_ex (f64_eq v) (special_values L desc) then v
               else clamp_range (to_float L (entry_of desc ''MIN'')) (to_float L (entry_of desc ''MAX'')) v)
      in if ty = ''INTEGER'' then GInt (go_int L w) else GFloat w)"

section \<open>Reading\<close>

text \<open>Descriptions are looked up by the upper-case address, then as it was given.\<close>

definition description_of :: "store \<Rightarrow> string \<Rightarrow> val_map option" where
  "description_of s a =
     (case map_of (paramset_desc s) (to_upper a) of Some d \<Rightarrow> Some d | None \<Rightarrow> map_of (paramset_desc s) a)"

definition get_device_description :: "string \<Rightarrow> store \<Rightarrow> rpc_error + val_map" where
  "get_device_description a s =
     (case map_of (device_by_address s) (to_upper a) of Some d \<Rightarrow> Inr d | None \<Rightarrow> Inl (UnknownDevice a))"

definition get_paramset_description :: "string \<Rightarrow> string \<Rightarrow> store \<Rightarrow> rpc_error + val_map" where
  "get_paramset_description a kind s =
     (case description_of s a of
        None \<Rightarrow> Inl (UnknownDevice a)
      | Some desc \<Rightarrow>
          (case any_map (entry_of desc kind) of Some ps \<Rightarrow> Inr ps | None \<Rightarrow> Inl (UnknownParamset a kind)))"

definition overrides :: "string \<Rightarrow> string \<Rightarrow> store \<Rightarrow> val_map" where
  "overrides up kind s =
     (case map_of (paramsets s) up of
        None \<Rightarrow> []
      | Some kinds \<Rightarrow> (case map_of kinds kind of None \<Rightarrow> [] | Some ps \<Rightarrow> ps))"

definition compile_paramset :: "string \<Rightarrow> string \<Rightarrow> val_map \<Rightarrow> store \<Rightarrow> val_map \<times> store" where
  "compile_paramset up kind defs s =
     (let result = map_copy defs (overrides up kind s)
      in (result, s\<lparr>ps_compiled := AList.update (up, kind) result (ps_compiled s),
                    ps_dirty := removeAll (up, kind) (ps_dirty s)\<rparr>))"

text \<open>The defaults, from the cache or the description.\<close>

definition paramset_defaults :: "golib \<Rightarrow> string \<Rightarrow> string \<Rightarrow> store \<Rightarrow> rpc_error + (val_map \<times> store)" where
  "paramset_defaults L a kind s =
     (case map_of (ps_defaults s) (to_upper a, kind) of
        Some d \<Rightarrow> Inr (d, s)
      | None \<Rightarrow>
          bind_r (get_paramset_description a kind s) (\<lambda>ps.
            let d = build_defaults L ps
            in Inr (d, s\<lparr>ps_defaults := AList.update (to_upper a, kind) d (ps_defaults s)\<rparr>)))"

text \<open>The values of a VALUES or MASTER paramset, through both caches.\<close>

definition read_paramset :: "golib \<Rightarrow> string \<Rightarrow> string \<Rightarrow> store \<Rightarrow> (rpc_error + val_map) \<times> store" where
  "read_paramset L a kind s =
     (let key = (to_upper a, kind);
          fresh = (case paramset_defaults L a kind s of
                     Inl e \<Rightarrow> (Inl e, s)
                   | Inr (d, s1) \<Rightarrow> (case compile_paramset (to_upper a) kind d s1 of (r, s2) \<Rightarrow> (Inr r, s2)))
      in case map_of (ps_compiled s) key of
           Some c \<Rightarrow> if key \<notin> set (ps_dirty s) then (Inr c, s) else fresh
         | None \<Rightarrow> fresh)"

definition link_defaults :: "golib \<Rightarrow> string \<Rightarrow> store \<Rightarrow> rpc_error + val_map" where
  "link_defaults L a s =
     (case description_of s a of
        None \<Rightarrow> Inl (UnknownDevice a)
      | Some desc \<Rightarrow>
          (case any_map (entry_of desc ''LINK'') of Some ps \<Rightarrow> Inr (build_defaults L ps) | None \<Rightarrow> Inr []))"

section \<open>Writing\<close>

text \<open>Storing one value marks the compiled paramset stale.\<close>

definition put_value :: "string \<Rightarrow> string \<Rightarrow> string \<Rightarrow> gov \<Rightarrow> store \<Rightarrow> store" where
  "put_value up kind k v s =
     (let kinds = (case map_of (paramsets s) up of Some m \<Rightarrow> m | None \<Rightarrow> []);
          ps = (case map_of kinds kind of Some m \<Rightarrow> m | None \<Rightarrow> [])
      in s\<lparr>paramsets := AList.update up (AList.update kind (AList.update k v ps) kinds) (paramsets s),
           ps_dirty := List.insert (up, kind) (ps_dirty s)\<rparr>)"

definition device_type_for_address :: "string \<Rightarrow> store \<Rightarrow> string" where
  "device_type_for_address up s =
     (case map_of (device_by_address s) up of
        None \<Rightarrow> []
      | Some d \<Rightarrow> if text_of d ''PARENT_TYPE'' \<noteq> [] then text_of d ''PARENT_TYPE'' else text_of d ''TYPE'')"

text \<open>A value after the label, type and range rules of its parameter.\<close>

definition accepted_value :: "golib \<Rightarrow> string \<Rightarrow> string \<Rightarrow> val_map \<Rightarrow> gov \<Rightarrow> rpc_error + gov" where
  "accepted_value L a k desc v =
     (let ty = text_of desc ''TYPE'' in
      bind_r (case (any_str v, ty = ''ENUM'') of
                (Some label, True) \<Rightarrow>
                  (case enum_label_index label desc of Some i \<Rightarrow> Inr (GInt (int i)) | None \<Rightarrow> Inl (InvalidValue a k))
              | _ \<Rightarrow> Inr v) (\<lambda>v1.
      let c = convert_param_value L v1 ty in
      if ty = ''ENUM'' then (if enum_in_bounds L c desc then Inr c else Inl (InvalidValue a k))
      else if ty = ''FLOAT'' \<or> ty = ''INTEGER'' then Inr (clamp_numeric L c desc ty)
      else Inr c))"

record ramp_write =
  rw_key :: string
  rw_target :: gov
  rw_previous :: gov

text \<open>
  What the turn of the loop for one parameter comes to: the call fails, the call ends as an action,
  or the value is stored and the follow-up events and the movement are added to what is to be reported.
\<close>

datatype put_step = StepError rpc_error | StepAction | StepStored gov

definition put_decision :: "golib \<Rightarrow> string \<Rightarrow> val_map \<Rightarrow> bool \<Rightarrow> string \<Rightarrow> gov \<Rightarrow> put_step" where
  "put_decision L a descs force k v =
     (case any_map (entry_of descs k) of
        None \<Rightarrow> StepError (NotDescribed a k)
      | Some desc \<Rightarrow>
          if \<not> force \<and> (read_int L (entry_of desc ''OPERATIONS'')) AND operation_write = 0
          then StepError (WriteNotAllowed a k)
          else if text_of desc ''TYPE'' = ''ACTION'' then StepAction
          else (case accepted_value L a k desc v of Inl e \<Rightarrow> StepError e | Inr c \<Rightarrow> StepStored c))"

text \<open>The follow-up events of a stored value, without the progress of a movement a ramp reports itself.\<close>

definition follow_ups :: "golib \<Rightarrow> bool \<Rightarrow> string \<Rightarrow> string \<Rightarrow> gov \<Rightarrow> val_map \<Rightarrow> val_map" where
  "follow_ups L ramped dt k v current =
     (let r = compute_events dt k v current
      in iter_order L (if ramped then (case map_of ramp_parameters k of Some p \<Rightarrow> AList.delete p r | None \<Rightarrow> r) else r))"

record put_progress =
  pp_store :: store
  pp_fire :: "(string \<times> gov) list"
  pp_ramped :: "ramp_write list"

definition store_parameter ::
  "golib \<Rightarrow> bool \<Rightarrow> string \<Rightarrow> string \<Rightarrow> string \<Rightarrow> string \<Rightarrow> gov \<Rightarrow> put_progress \<Rightarrow> put_progress" where
  "store_parameter L ramped dt up kind k v p =
     (let previous = entry_of (overrides up kind (pp_store p)) k;
          s1 = put_value up kind k v (pp_store p);
          response = follow_ups L ramped dt k v (overrides up kind s1);
          s2 = fold (\<lambda>(k', v') s. put_value up kind k' v' s) response s1
      in \<lparr>pp_store = s2, pp_fire = pp_fire p @ response,
          pp_ramped = (if kind = ''VALUES'' then pp_ramped p @ [\<lparr>rw_key = k, rw_target = v, rw_previous = previous\<rparr>]
                       else pp_ramped p)\<rparr>)"

datatype put_outcome = PutFailed rpc_error | PutAction string gov | PutDone

fun put_loop ::
  "golib \<Rightarrow> bool \<Rightarrow> string \<Rightarrow> string \<Rightarrow> string \<Rightarrow> val_map \<Rightarrow> bool \<Rightarrow> val_map \<Rightarrow> put_progress \<Rightarrow> put_outcome \<times> put_progress" where
  "put_loop L ramped dt a kind descs force [] p = (PutDone, p)"
| "put_loop L ramped dt a kind descs force ((k, v) # kvs) p =
     (case put_decision L a descs force k v of
        StepError e \<Rightarrow> (PutFailed e, p)
      | StepAction \<Rightarrow> (PutAction k v, p)
      | StepStored c \<Rightarrow>
          put_loop L ramped dt a kind descs force kvs (store_parameter L ramped dt (to_upper a) kind k c p))"

section \<open>Loading and dropping devices\<close>

text \<open>\<open>clearAddressCachesLocked\<close>\<close>

definition clear_address_caches :: "string \<Rightarrow> store \<Rightarrow> store" where
  "clear_address_caches a s =
     (let up = to_upper a; ks = [(up, ''VALUES''), (up, ''MASTER'')]
      in s\<lparr>device_by_address := AList.delete up (device_by_address s),
           poisoned := removeAll up (poisoned s),
           pending_sticky := AList.delete up (pending_sticky s),
           paramset_desc := AList.delete a (paramset_desc s),
           paramsets := AList.delete a (paramsets s),
           ps_defaults := filter (\<lambda>(k, v). k \<notin> set ks) (ps_defaults s),
           ps_compiled := filter (\<lambda>(k, v). k \<notin> set ks) (ps_compiled s),
           ps_dirty := filter (\<lambda>k. k \<notin> set ks) (ps_dirty s)\<rparr>)"

text \<open>One embedded device type.\<close>

record device_set =
  ds_devices :: "val_map list"
  ds_paramsets :: "(string, val_map) gomap"
  ds_root :: string
  ds_type :: string

fun has_any_prefix :: "string \<Rightarrow> string list \<Rightarrow> bool" where
  "has_any_prefix s ps = list_ex (\<lambda>p. prefix (to_upper p) (to_upper s)) ps"

definition interface_for_type :: "string \<Rightarrow> string" where
  "interface_for_type dt =
     (if has_any_prefix dt [''HmIPW-''] then ''HmIP-RF''
      else if has_any_prefix dt [''HmIP-'', ''ALPHA-IP-'', ''ELV-''] then ''HmIP-RF''
      else if has_any_prefix dt [''HMW-'', ''HMW''] then ''BidCos-Wired''
      else if has_any_prefix dt [''HM-CC-VG-'', ''INT-''] then ''VirtualDevices''
      else ''BidCos-RF'')"

definition index_device :: "val_map \<Rightarrow> (string, val_map) gomap \<Rightarrow> (string, val_map) gomap" where
  "index_device d m =
     (let a = text_of d ''ADDRESS'' in if a = [] then m else AList.update (to_upper a) d m)"

definition load_set :: "string \<Rightarrow> device_set \<Rightarrow> store \<times> val_map list \<Rightarrow> store \<times> val_map list" where
  "load_set flt ds acc =
     (case acc of (s, added) \<Rightarrow>
        if ds_type ds \<in> set (active_devices s) then acc
        else if flt \<noteq> [] \<and> interface_for_type (ds_type ds) \<noteq> flt then acc
        else (s\<lparr>devices := devices s @ ds_devices ds,
                device_by_address := fold index_device (ds_devices ds) (device_by_address s),
                paramset_desc := map_copy (paramset_desc s) (ds_paramsets ds),
                supported_devices := (if ds_root ds = [] then supported_devices s
                                      else AList.update (ds_type ds) (ds_root ds) (supported_devices s)),
                active_devices := List.insert (ds_type ds) (active_devices s)\<rparr>,
              added @ ds_devices ds))"

text \<open>\<open>loadDevices\<close>, given the embedded sets that match the restriction.\<close>

definition load_devices :: "string \<Rightarrow> device_set list \<Rightarrow> store \<Rightarrow> store \<times> val_map list" where
  "load_devices flt sets s = fold (load_set flt) sets (s, [])"

definition belongs_to_root :: "string \<Rightarrow> val_map \<Rightarrow> bool" where
  "belongs_to_root up d \<longleftrightarrow>
     to_upper (text_of d ''ADDRESS'') = up \<or> prefix (up @ '':'') (to_upper (text_of d ''ADDRESS''))"

definition drop_entries :: "(val_map \<Rightarrow> bool) \<Rightarrow> store \<Rightarrow> store \<times> string list" where
  "drop_entries P s =
     (let addresses = filter (\<lambda>a. a \<noteq> []) (map (\<lambda>d. text_of d ''ADDRESS'') (filter P (devices s)));
          s1 = fold clear_address_caches addresses s
      in (s1\<lparr>devices := filter (\<lambda>d. \<not> P d) (devices s)\<rparr>, addresses))"

text \<open>The state change of \<open>DeleteDevice\<close>, and the addresses to report.\<close>

definition delete_device :: "string \<Rightarrow> store \<Rightarrow> store \<times> string list" where
  "delete_device a s =
     (case drop_entries (belongs_to_root (to_upper a)) s of (s1, addresses) \<Rightarrow>
        (case List.find (\<lambda>(t, r). to_upper r = to_upper a) (supported_devices s1) of
           None \<Rightarrow> (s1, addresses)
         | Some (t, r) \<Rightarrow>
             (s1\<lparr>active_devices := removeAll t (active_devices s1),
                 supported_devices := AList.delete t (supported_devices s1)\<rparr>, addresses)))"

definition device_matches_type :: "string \<Rightarrow> val_map \<Rightarrow> bool" where
  "device_matches_type t d \<longleftrightarrow>
     (if CHR '':'' \<notin> set (text_of d ''ADDRESS'') then text_of d ''TYPE'' = t else text_of d ''PARENT_TYPE'' = t)"

definition remove_type :: "string \<Rightarrow> store \<times> string list \<Rightarrow> store \<times> string list" where
  "remove_type t acc =
     (case acc of (s, addresses) \<Rightarrow>
        if t \<notin> set (active_devices s) then acc
        else (case drop_entries (device_matches_type t)
                (s\<lparr>active_devices := removeAll t (active_devices s),
                   supported_devices := AList.delete t (supported_devices s)\<rparr>) of
                (s1, gone) \<Rightarrow> (s1, addresses @ gone)))"

text \<open>The state change of \<open>RemoveDevices\<close>; no list of types means every active one.\<close>

definition remove_devices :: "string list option \<Rightarrow> store \<Rightarrow> store \<times> string list" where
  "remove_devices ts s =
     fold remove_type (case ts of Some l \<Rightarrow> l | None \<Rightarrow> active_devices s) (s, [])"

end
