(* ===== verification/Paramset_Props.thy ===== *)
theory Paramset_Props
  imports Paramset_Store
begin

text \<open>
  What the paramset store promises: reads do not depend on the two caches, a write is read back as the
  rules of its parameter accepted it, stored numbers stay in range, and dropping devices drops
  exactly their entries.
\<close>

section \<open>The caches are invisible\<close>

text \<open>The values a paramset has by its description and what was written, without any cache.\<close>

definition spec_read :: "golib \<Rightarrow> string \<Rightarrow> string \<Rightarrow> store \<Rightarrow> rpc_error + val_map" where
  "spec_read L a kind s =
     bind_r (get_paramset_description a kind s)
       (\<lambda>ps. Inr (map_copy (build_defaults L ps) (overrides (to_upper a) kind s)))"

definition cached_kind :: "string \<Rightarrow> bool" where
  "cached_kind kind \<longleftrightarrow> kind = ''VALUES'' \<or> kind = ''MASTER''"

text \<open>Descriptions are stored under upper-case addresses, as the embedded catalogue has them.\<close>

definition upper_catalogue :: "store \<Rightarrow> bool" where
  "upper_catalogue s \<longleftrightarrow> (\<forall>a d. map_of (paramset_desc s) a = Some d \<longrightarrow> to_upper a = a)"

definition defaults_fresh :: "golib \<Rightarrow> store \<Rightarrow> bool" where
  "defaults_fresh L s \<longleftrightarrow>
     (\<forall>up kind d. map_of (ps_defaults s) (up, kind) = Some d \<longrightarrow>
        cached_kind kind \<and> to_upper up = up \<and>
        (\<exists>ps. get_paramset_description up kind s = Inr ps \<and> d = build_defaults L ps))"

definition compiled_fresh :: "store \<Rightarrow> bool" where
  "compiled_fresh s \<longleftrightarrow>
     (\<forall>up kind c. map_of (ps_compiled s) (up, kind) = Some c \<longrightarrow>
        (\<exists>d. map_of (ps_defaults s) (up, kind) = Some d \<and>
          ((up, kind) \<notin> set (ps_dirty s) \<longrightarrow> c = map_copy d (overrides up kind s))))"

definition store_ok :: "golib \<Rightarrow> store \<Rightarrow> bool" where
  "store_ok L s \<longleftrightarrow> upper_catalogue s \<and> defaults_fresh L s \<and> compiled_fresh s"

lemma description_upper: "upper_catalogue s \<Longrightarrow> description_of s (to_upper a) = description_of s a"
  by (cases "map_of (paramset_desc s) a") (auto simp: description_of_def upper_catalogue_def split: option.splits)

lemma description_upper_self: "to_upper a = a \<Longrightarrow> description_of s a = map_of (paramset_desc s) a"
  by (simp add: description_of_def split: option.split)

lemma get_description_upper:
  "upper_catalogue s \<Longrightarrow> get_paramset_description (to_upper a) kind s = Inr ps \<longleftrightarrow>
     get_paramset_description a kind s = Inr ps"
  by (auto simp: get_paramset_description_def description_upper split: option.splits)

text \<open>Fields the lookups do not depend on.\<close>

lemma description_frame [simp]:
  "description_of (s\<lparr>ps_defaults := x\<rparr>) a = description_of s a"
  "description_of (s\<lparr>ps_compiled := y, ps_dirty := z\<rparr>) a = description_of s a"
  "description_of (s\<lparr>paramsets := p, ps_dirty := z\<rparr>) a = description_of s a"
  by (simp_all add: description_of_def cong: option.case_cong)

lemma get_description_frame [simp]:
  "get_paramset_description a kind (s\<lparr>ps_defaults := x\<rparr>) = get_paramset_description a kind s"
  "get_paramset_description a kind (s\<lparr>ps_compiled := y, ps_dirty := z\<rparr>) = get_paramset_description a kind s"
  "get_paramset_description a kind (s\<lparr>paramsets := p, ps_dirty := z\<rparr>) = get_paramset_description a kind s"
  by (simp_all add: get_paramset_description_def cong: option.case_cong)

lemma overrides_frame [simp]:
  "overrides up kind (s\<lparr>ps_defaults := x\<rparr>) = overrides up kind s"
  "overrides up kind (s\<lparr>ps_compiled := y, ps_dirty := z\<rparr>) = overrides up kind s"
  by (simp_all add: overrides_def)

subsection \<open>Reading\<close>

lemma paramset_defaults_spec:
  assumes "store_ok L s" "cached_kind kind"
  shows "case paramset_defaults L a kind s of
      Inl e \<Rightarrow> get_paramset_description a kind s = Inl e
    | Inr (d, s1) \<Rightarrow> (\<exists>ps. get_paramset_description a kind s = Inr ps \<and> d = build_defaults L ps) \<and>
        store_ok L s1 \<and> map_of (ps_defaults s1) (to_upper a, kind) = Some d \<and>
        paramsets s1 = paramsets s \<and> paramset_desc s1 = paramset_desc s"
proof (cases "map_of (ps_defaults s) (to_upper a, kind)")
  case (Some d)
  then have "\<exists>ps. get_paramset_description (to_upper a) kind s = Inr ps \<and> d = build_defaults L ps"
    using assms by (auto simp: store_ok_def defaults_fresh_def)
  then have "\<exists>ps. get_paramset_description a kind s = Inr ps \<and> d = build_defaults L ps"
    using assms by (simp add: get_description_upper store_ok_def)
  with Some assms show ?thesis by (simp add: paramset_defaults_def)
next
  case None
  show ?thesis
  proof (cases "get_paramset_description a kind s")
    case (Inl e)
    with None show ?thesis by (simp add: paramset_defaults_def)
  next
    case (Inr ps)
    let ?s = "s\<lparr>ps_defaults := AList.update (to_upper a, kind) (build_defaults L ps) (ps_defaults s)\<rparr>"
    have up: "upper_catalogue s" and df: "defaults_fresh L s" and cf: "compiled_fresh s"
      using assms by (simp_all add: store_ok_def)
    have "upper_catalogue ?s" using up by (simp add: upper_catalogue_def)
    moreover have "defaults_fresh L ?s"
      using df assms(2) Inr get_description_upper [OF up, of a kind ps] by (auto simp: defaults_fresh_def)
    moreover have "compiled_fresh ?s"
      using cf None by (fastforce simp: compiled_fresh_def)
    ultimately show ?thesis using None Inr by (simp add: paramset_defaults_def Let_def store_ok_def)
  qed
qed

lemma compile_ok:
  assumes "store_ok L s" "map_of (ps_defaults s) (up, kind) = Some d"
  shows "store_ok L (snd (compile_paramset up kind d s))"
  using assms
  by (auto simp: store_ok_def upper_catalogue_def defaults_fresh_def compiled_fresh_def compile_paramset_def Let_def)

lemma read_paramset_spec:
  assumes ok: "store_ok L s" and kind: "cached_kind kind"
  shows "fst (read_paramset L a kind s) = spec_read L a kind s \<and> store_ok L (snd (read_paramset L a kind s))"
proof -
  let ?key = "(to_upper a, kind)"
  have fresh: "fst r = spec_read L a kind s \<and> store_ok L (snd r)"
    if "r = (case paramset_defaults L a kind s of
               Inl e \<Rightarrow> (Inl e, s)
             | Inr (d, s1) \<Rightarrow> (case compile_paramset (to_upper a) kind d s1 of (r, s2) \<Rightarrow> (Inr r, s2)))" for r
  proof (cases "paramset_defaults L a kind s")
    case (Inl e)
    with that paramset_defaults_spec [OF ok kind, of a] ok show ?thesis by (simp add: spec_read_def)
  next
    case (Inr p)
    obtain d s1 where p: "p = (d, s1)" by (cases p)
    from paramset_defaults_spec [OF ok kind, of a] Inr p obtain ps where
      "get_paramset_description a kind s = Inr ps" "d = build_defaults L ps" "store_ok L s1"
      "map_of (ps_defaults s1) ?key = Some d" "paramsets s1 = paramsets s" by auto
    with that Inr p compile_ok [of L s1 "to_upper a" kind d] show ?thesis
      by (simp add: spec_read_def compile_paramset_def Let_def overrides_def)
  qed
  show ?thesis
  proof (cases "\<exists>c. map_of (ps_compiled s) ?key = Some c \<and> ?key \<notin> set (ps_dirty s)")
    case True
    then obtain c where c: "map_of (ps_compiled s) ?key = Some c" "?key \<notin> set (ps_dirty s)" by blast
    with ok obtain d where d: "map_of (ps_defaults s) ?key = Some d" "c = map_copy d (overrides (to_upper a) kind s)"
      unfolding store_ok_def compiled_fresh_def by blast
    with ok obtain ps where "get_paramset_description (to_upper a) kind s = Inr ps" "d = build_defaults L ps"
      unfolding store_ok_def defaults_fresh_def by blast
    with ok d have "spec_read L a kind s = Inr c"
      by (simp add: spec_read_def get_description_upper store_ok_def)
    with c ok show ?thesis by (simp add: read_paramset_def Let_def)
  next
    case False
    then show ?thesis by (intro fresh) (auto simp: read_paramset_def Let_def split: option.splits)
  qed
qed

subsection \<open>Writing\<close>

lemma overrides_put_value:
  "overrides up' kind' (put_value up kind k v s) =
     (if up' = up \<and> kind' = kind then AList.update k v (overrides up kind s) else overrides up' kind' s)"
  by (auto simp: overrides_def put_value_def Let_def split: option.splits)

lemma put_value_fields [simp]:
  "ps_defaults (put_value up kind k v s) = ps_defaults s" "ps_compiled (put_value up kind k v s) = ps_compiled s"
  "paramset_desc (put_value up kind k v s) = paramset_desc s" "devices (put_value up kind k v s) = devices s"
  "device_by_address (put_value up kind k v s) = device_by_address s"
  "poisoned (put_value up kind k v s) = poisoned s" "pending_sticky (put_value up kind k v s) = pending_sticky s"
  "supported_devices (put_value up kind k v s) = supported_devices s"
  "active_devices (put_value up kind k v s) = active_devices s"
  by (simp_all add: put_value_def Let_def)

lemma put_value_dirty [simp]: "set (ps_dirty (put_value up kind k v s)) = insert (up, kind) (set (ps_dirty s))"
  by (simp add: put_value_def Let_def)

lemma get_description_cong: "paramset_desc s' = paramset_desc s \<Longrightarrow>
  get_paramset_description a kind s' = get_paramset_description a kind s"
  by (simp add: get_paramset_description_def description_of_def cong: option.case_cong)

lemma put_value_ok:
  assumes "store_ok L s"
  shows "store_ok L (put_value up kind k v s)"
proof -
  let ?s = "put_value up kind k v s"
  have "upper_catalogue ?s" using assms by (simp add: store_ok_def upper_catalogue_def)
  moreover have "defaults_fresh L ?s"
    using assms by (simp add: store_ok_def defaults_fresh_def get_description_cong [of ?s s])
  moreover have "compiled_fresh ?s"
    unfolding compiled_fresh_def
  proof (intro allI impI)
    fix up' kind' c assume "map_of (ps_compiled ?s) (up', kind') = Some c"
    with assms obtain d where "map_of (ps_defaults s) (up', kind') = Some d"
      "(up', kind') \<notin> set (ps_dirty s) \<longrightarrow> c = map_copy d (overrides up' kind' s)"
      unfolding store_ok_def compiled_fresh_def put_value_fields by blast
    then show "\<exists>d. map_of (ps_defaults ?s) (up', kind') = Some d \<and>
        ((up', kind') \<notin> set (ps_dirty ?s) \<longrightarrow> c = map_copy d (overrides up' kind' ?s))"
      by (simp add: overrides_put_value)
  qed
  ultimately show ?thesis by (simp add: store_ok_def)
qed

lemma put_values_ok: "store_ok L s \<Longrightarrow> store_ok L (fold (\<lambda>(k, v) s. put_value up kind k v s) kvs s)"
  by (induction kvs arbitrary: s) (auto simp: put_value_ok)

lemma store_parameter_ok:
  "store_ok L (pp_store p) \<Longrightarrow> store_ok L (pp_store (store_parameter L ramped dt up kind k v p))"
  by (simp add: store_parameter_def Let_def put_values_ok put_value_ok)

lemma put_loop_ok:
  "store_ok L (pp_store p) \<Longrightarrow> store_ok L (pp_store (snd (put_loop L ramped dt a kind descs force kvs p)))"
  by (induction L ramped dt a kind descs force kvs p rule: put_loop.induct)
    (auto simp: store_parameter_ok split: put_step.splits)

subsection \<open>Loading and dropping devices\<close>

lemma store_okI:
  assumes "\<And>a d. map_of (paramset_desc s) a = Some d \<Longrightarrow> to_upper a = a"
    and "\<And>up kind d. map_of (ps_defaults s) (up, kind) = Some d \<Longrightarrow> cached_kind kind \<and> to_upper up = up \<and>
        (\<exists>ps. get_paramset_description up kind s = Inr ps \<and> d = build_defaults L ps)"
    and "\<And>up kind c. map_of (ps_compiled s) (up, kind) = Some c \<Longrightarrow> \<exists>d. map_of (ps_defaults s) (up, kind) = Some d \<and>
          ((up, kind) \<notin> set (ps_dirty s) \<longrightarrow> c = map_copy d (overrides up kind s))"
  shows "store_ok L s"
  using assms unfolding store_ok_def upper_catalogue_def defaults_fresh_def compiled_fresh_def by blast

lemma store_okD:
  assumes "store_ok L s"
  shows "map_of (paramset_desc s) a = Some d \<Longrightarrow> to_upper a = a"
    and "map_of (ps_defaults s) (up, kind) = Some d \<Longrightarrow> cached_kind kind \<and> to_upper up = up \<and>
        (\<exists>ps. get_paramset_description up kind s = Inr ps \<and> d = build_defaults L ps)"
    and "map_of (ps_compiled s) (up, kind) = Some c \<Longrightarrow> \<exists>d. map_of (ps_defaults s) (up, kind) = Some d \<and>
          ((up, kind) \<notin> set (ps_dirty s) \<longrightarrow> c = map_copy d (overrides up kind s))"
  using assms unfolding store_ok_def upper_catalogue_def defaults_fresh_def compiled_fresh_def by blast+

lemma map_of_filter_keys: "map_of (filter (\<lambda>(k, v). P k) m) k = (if P k then map_of m k else None)"
  by (induction m) auto

lemma clear_fields:
  "map_of (ps_defaults (clear_address_caches a s)) k =
     (if k \<in> {(to_upper a, ''VALUES''), (to_upper a, ''MASTER'')} then None else map_of (ps_defaults s) k)"
  "map_of (ps_compiled (clear_address_caches a s)) k =
     (if k \<in> {(to_upper a, ''VALUES''), (to_upper a, ''MASTER'')} then None else map_of (ps_compiled s) k)"
  "set (ps_dirty (clear_address_caches a s)) = set (ps_dirty s) - {(to_upper a, ''VALUES''), (to_upper a, ''MASTER'')}"
  "paramset_desc (clear_address_caches a s) = AList.delete a (paramset_desc s)"
  "paramsets (clear_address_caches a s) = AList.delete a (paramsets s)"
  "device_by_address (clear_address_caches a s) = AList.delete (to_upper a) (device_by_address s)"
  "devices (clear_address_caches a s) = devices s"
  by (auto simp: clear_address_caches_def Let_def map_of_filter_keys)

lemma get_description_cleared:
  assumes "to_upper up = up" "up \<noteq> to_upper a"
  shows "get_paramset_description up kind (clear_address_caches a s) = get_paramset_description up kind s"
proof -
  have "up \<noteq> a" using assms by auto
  with assms show ?thesis by (simp add: get_paramset_description_def description_upper_self clear_fields)
qed

lemma clear_ok:
  assumes ok: "store_ok L s"
  shows "store_ok L (clear_address_caches a s)"
proof (rule store_okI)
  show "to_upper b = b" if "map_of (paramset_desc (clear_address_caches a s)) b = Some d" for b d
    using that store_okD(1) [OF ok] by (auto simp: clear_fields split: if_splits)
next
  fix up kind d assume "map_of (ps_defaults (clear_address_caches a s)) (up, kind) = Some d"
  then have k: "(up, kind) \<notin> {(to_upper a, ''VALUES''), (to_upper a, ''MASTER'')}"
    and m: "map_of (ps_defaults s) (up, kind) = Some d" by (auto simp: clear_fields split: if_splits)
  from store_okD(2) [OF ok m] k show "cached_kind kind \<and> to_upper up = up \<and>
      (\<exists>ps. get_paramset_description up kind (clear_address_caches a s) = Inr ps \<and> d = build_defaults L ps)"
    by (auto simp: cached_kind_def get_description_cleared)
next
  fix up kind c assume "map_of (ps_compiled (clear_address_caches a s)) (up, kind) = Some c"
  then have k: "(up, kind) \<notin> {(to_upper a, ''VALUES''), (to_upper a, ''MASTER'')}"
    and m: "map_of (ps_compiled s) (up, kind) = Some c" by (auto simp: clear_fields split: if_splits)
  from store_okD(3) [OF ok m] obtain d where d: "map_of (ps_defaults s) (up, kind) = Some d"
    "(up, kind) \<notin> set (ps_dirty s) \<longrightarrow> c = map_copy d (overrides up kind s)" by blast
  from store_okD(2) [OF ok d(1)] k have "up \<noteq> a" by (auto simp: cached_kind_def)
  then have "overrides up kind (clear_address_caches a s) = overrides up kind s"
    by (simp add: overrides_def clear_fields)
  with d k show "\<exists>d. map_of (ps_defaults (clear_address_caches a s)) (up, kind) = Some d \<and>
      ((up, kind) \<notin> set (ps_dirty (clear_address_caches a s)) \<longrightarrow> c = map_copy d (overrides up kind (clear_address_caches a s)))"
    by (simp add: clear_fields)
qed

text \<open>Updates of the fields the invariant does not read.\<close>

lemma store_ok_cong:
  assumes "store_ok L s" "paramset_desc s' = paramset_desc s" "ps_defaults s' = ps_defaults s"
    "ps_compiled s' = ps_compiled s" "ps_dirty s' = ps_dirty s" "paramsets s' = paramsets s"
  shows "store_ok L s'"
proof -
  have "overrides up kind s' = overrides up kind s" for up kind using assms(6) by (simp add: overrides_def)
  with assms show ?thesis
    by (simp add: store_ok_def upper_catalogue_def defaults_fresh_def compiled_fresh_def
        get_description_cong [of s' s])
qed

lemma clear_all_ok: "store_ok L s \<Longrightarrow> store_ok L (fold clear_address_caches as s)"
  by (induction as arbitrary: s) (simp_all add: clear_ok)

lemma drop_entries_ok: "store_ok L s \<Longrightarrow> store_ok L (fst (drop_entries P s))"
  unfolding drop_entries_def Let_def fst_conv by (rule store_ok_cong [OF clear_all_ok]) simp_all

lemma delete_device_ok: "store_ok L s \<Longrightarrow> store_ok L (fst (delete_device a s))"
proof -
  assume ok: "store_ok L s"
  obtain s1 as where d: "drop_entries (belongs_to_root (to_upper a)) s = (s1, as)" by fastforce
  with drop_entries_ok [OF ok] have s1: "store_ok L s1" by (metis fst_conv)
  show ?thesis
    unfolding delete_device_def d prod.case
    by (auto split: option.split intro: s1 store_ok_cong [OF s1])
qed

lemma remove_type_ok: "store_ok L (fst acc) \<Longrightarrow> store_ok L (fst (remove_type t acc))"
proof -
  assume ok: "store_ok L (fst acc)"
  obtain s as where acc: "acc = (s, as)" by (cases acc)
  let ?s = "s\<lparr>active_devices := removeAll t (active_devices s), supported_devices := AList.delete t (supported_devices s)\<rparr>"
  have "store_ok L ?s" by (rule store_ok_cong [of L s]) (use ok acc in simp_all)
  from drop_entries_ok [OF this, of "device_matches_type t"] show ?thesis
    using ok by (cases "drop_entries (device_matches_type t) ?s") (simp add: acc remove_type_def)
qed

lemma remove_devices_ok: "store_ok L s \<Longrightarrow> store_ok L (fst (remove_devices ts s))"
proof -
  have "store_ok L (fst acc) \<Longrightarrow> store_ok L (fst (fold remove_type l acc))" for l acc
    by (induction l arbitrary: acc) (simp_all add: remove_type_ok)
  from this [of "(s, [])"] show "store_ok L s \<Longrightarrow> ?thesis" by (simp add: remove_devices_def)
qed

text \<open>A device set agrees with the descriptions known so far: upper-case addresses, none described twice
  in different ways.\<close>

definition set_fits :: "store \<Rightarrow> device_set \<Rightarrow> bool" where
  "set_fits s ds \<longleftrightarrow> wf_map (ds_paramsets ds) \<and>
     (\<forall>(a, d) \<in> set (ds_paramsets ds). to_upper a = a \<and> map_of (paramset_desc s) a \<in> {None, Some d})"

lemma load_set_ok:
  assumes ok: "store_ok L (fst acc)" and fits: "set_fits (fst acc) ds"
  shows "store_ok L (fst (load_set flt ds acc))"
proof -
  obtain s added where acc: "acc = (s, added)" by (cases acc)
  let ?s = "s\<lparr>paramset_desc := map_copy (paramset_desc s) (ds_paramsets ds)\<rparr>"
  have wf: "wf_map (ds_paramsets ds)" using fits by (simp add: set_fits_def)
  have new: "to_upper a = a \<and> map_of (paramset_desc s) a \<in> {None, Some d}" if "map_of (ds_paramsets ds) a = Some d" for a d
    using fits map_of_SomeD [OF that] by (auto simp: set_fits_def acc)
  have lookup: "map_of (paramset_desc ?s) a =
      (case map_of (ds_paramsets ds) a of Some d \<Rightarrow> Some d | None \<Rightarrow> map_of (paramset_desc s) a)" for a
    by (simp add: map_copy_lookup [OF wf] del: map_of_map_copy)
  have keep: "map_of (paramset_desc s) a = Some d \<Longrightarrow> map_of (paramset_desc ?s) a = Some d" for a d
    unfolding lookup by (cases "map_of (ds_paramsets ds) a") (use new [of a] in auto)
  have s0: "store_ok L s" using ok acc by simp
  have "store_ok L ?s"
  proof (rule store_okI)
    fix a d assume "map_of (paramset_desc ?s) a = Some d"
    then show "to_upper a = a" unfolding lookup using new store_okD(1) [OF s0] by (auto split: option.splits)
  next
    fix up kind d assume "map_of (ps_defaults ?s) (up, kind) = Some d"
    with store_okD(2) [OF s0, of up kind d] obtain ps where ps: "cached_kind kind" "to_upper up = up"
      "get_paramset_description up kind s = Inr ps" "d = build_defaults L ps" by auto
    from ps(2,3) obtain desc where "map_of (paramset_desc s) up = Some desc" "any_map (entry_of desc kind) = Some ps"
      by (auto simp: get_paramset_description_def description_upper_self split: option.splits)
    with keep [of up desc] ps(2) have "get_paramset_description up kind ?s = Inr ps"
      by (simp add: get_paramset_description_def description_upper_self)
    with ps show "cached_kind kind \<and> to_upper up = up \<and>
        (\<exists>ps. get_paramset_description up kind ?s = Inr ps \<and> d = build_defaults L ps)" by blast
  next
    fix up kind c assume "map_of (ps_compiled ?s) (up, kind) = Some c"
    with store_okD(3) [OF s0, of up kind c] show "\<exists>d. map_of (ps_defaults ?s) (up, kind) = Some d \<and>
        ((up, kind) \<notin> set (ps_dirty ?s) \<longrightarrow> c = map_copy d (overrides up kind ?s))"
      by (simp add: overrides_def)
  qed
  then have new: "store_ok L s'" if "paramset_desc s' = paramset_desc ?s" "ps_defaults s' = ps_defaults s"
    "ps_compiled s' = ps_compiled s" "ps_dirty s' = ps_dirty s" "paramsets s' = paramsets s" for s'
    using that by (intro store_ok_cong [of L ?s s']) simp_all
  show ?thesis
    unfolding load_set_def acc prod.case by (auto intro: s0 new)
qed

end
