(* ===== verification/Device_Rpc.thy ===== *)
theory Device_Rpc
  imports Paramset_Store "HOL-Library.List_Lexorder"
begin

text \<open>
  The device simulator \<open>RPCFunctions\<close> of \<^verbatim>\<open>internal/ccu\<close>: \<^verbatim>\<open>rpcfunctions.go\<close> around the store
  of \<open>Paramset_Store\<close>, event delivery (\<^verbatim>\<open>dispatcher.go\<close>), the device state machines
  (\<^verbatim>\<open>reachability.go\<close>, \<^verbatim>\<open>ramps.go\<close>), service messages and the registration of clients.

  A method of the source is a function of the state. What leaves the simulator is appended to the
  trace: notifications of in-process observers, calls of the write hook, and calls of remote
  clients. Whether a remote call fails in transport, and what a client answers, is decided by the
  record \<open>network\<close> from the trace up to and including the call, so any behaviour of the clients is
  covered. Observers and the hook are recorded, not run. A pending timer is an entry of a map; its
  callback is an operation that may happen whenever the entry is there. Every method is one step:
  two methods do not interleave inside.
\<close>

section \<open>State\<close>

record registration =
  reg_interface :: string
  reg_url :: string
  reg_client :: nat

datatype report =
    Observed nat string string string gov
  | Hooked string string gov
  | Called nat string "xvalue list"

record network =
  call_fails :: "report list \<Rightarrow> bool"
  answer :: "report list \<Rightarrow> xvalue option"

record pending_event =
  pe_interface :: string
  pe_address :: string
  pe_key :: string
  pe_value :: gov

record dispatcher =
  d_client :: nat
  d_queue :: "pending_event list"

text \<open>The two callbacks a pending configuration is timed with: the pulse of the default path, which reports
  its end, and the soft flag of a write model, by the address written to.\<close>

datatype pending_timer = Pulse string | Soft string

record config =
  version :: string
  interface_id :: string
  interface_filter :: string
  observers :: nat
  has_hook :: bool
  batch_events :: bool
  service_messages :: bool
  init_semantics :: bool
  ramps_on :: bool
  reachability_on :: bool
  lifecycle_on :: bool
  master_model :: bool
  quirks_on :: bool
  service_messages_fault :: bool

type_synonym link_key = "string \<times> string"

record rpc =
  cfg :: config
  store :: store
  link_paramsets :: "(link_key, val_map) gomap"
  link_info :: "(link_key, string \<times> string) gomap"
  metadata :: "(string, val_map) gomap"
  remotes :: "(string, registration) gomap"
  next_client :: nat
  dispatchers :: "(string, dispatcher) gomap"
  known_devices :: "val_map list"
  suppressed :: "(string, string list) gomap"
  pending_timers :: "(string, pending_timer) gomap"
  ramp_timers :: "(string, string \<times> string) gomap"
  install_until :: "int option"
  install_mode :: int
  install_address :: string
  firmware_timers :: "(string, nat) gomap"
  timers_stopped :: bool
  trace :: "report list"

definition emit :: "report \<Rightarrow> rpc \<Rightarrow> rpc" where
  "emit x r = r\<lparr>trace := trace r @ [x]\<rparr>"

section \<open>Event delivery\<close>

definition dispatch_buffer_size :: nat where "dispatch_buffer_size = 256"

text \<open>A remote call: recorded; in transport it succeeds or not.\<close>

definition call_remote :: "network \<Rightarrow> nat \<Rightarrow> string \<Rightarrow> xvalue list \<Rightarrow> rpc \<Rightarrow> bool \<times> rpc" where
  "call_remote N c meth params r =
     (let r1 = emit (Called c meth params) r in (\<not> call_fails N (trace r1), r1))"

definition event_params :: "pending_event \<Rightarrow> xvalue list" where
  "event_params e = [VStr (pe_interface e), VStr (pe_address e), VStr (pe_key e), from_any (pe_value e)]"

text \<open>A remote that cannot be reached is dropped, unless it registered again in the meantime.\<close>

definition drop_remote :: "string \<Rightarrow> nat \<Rightarrow> rpc \<Rightarrow> rpc" where
  "drop_remote key c r =
     (case map_of (remotes r) key of
        Some reg \<Rightarrow> if reg_client reg = c then r\<lparr>remotes := AList.delete key (remotes r)\<rparr> else r
      | None \<Rightarrow> r)"

text \<open>\<open>enqueue\<close>: a full queue drops the event.\<close>

definition enqueue :: "pending_event \<Rightarrow> dispatcher \<Rightarrow> dispatcher" where
  "enqueue e d = (if length (d_queue d) < dispatch_buffer_size then d\<lparr>d_queue := d_queue d @ [e]\<rparr> else d)"

definition dispatcher_for :: "string \<Rightarrow> nat \<Rightarrow> rpc \<Rightarrow> dispatcher" where
  "dispatcher_for key c r =
     (case map_of (dispatchers r) key of Some d \<Rightarrow> d | None \<Rightarrow> \<lparr>d_client = c, d_queue = []\<rparr>)"

definition send_event :: "network \<Rightarrow> string \<Rightarrow> string \<Rightarrow> gov \<Rightarrow> string \<times> registration \<Rightarrow> rpc \<Rightarrow> rpc" where
  "send_event N up k v e r =
     (let ev = \<lparr>pe_interface = reg_interface (snd e), pe_address = up, pe_key = k, pe_value = v\<rparr> in
      if batch_events (cfg r) then
        r\<lparr>dispatchers := AList.update (fst e) (enqueue ev (dispatcher_for (fst e) (reg_client (snd e)) r)) (dispatchers r)\<rparr>
      else
        (case call_remote N (reg_client (snd e)) ''event'' (event_params ev) r of
           (alive, r1) \<Rightarrow> if alive then r1 else drop_remote (fst e) (reg_client (snd e)) r1))"

definition observe :: "string \<Rightarrow> string \<Rightarrow> string \<Rightarrow> gov \<Rightarrow> rpc \<Rightarrow> rpc" where
  "observe iface up k v r = fold (\<lambda>i. emit (Observed i iface up k v)) [0..<observers (cfg r)] r"

text \<open>\<open>dispatchEvent\<close>; an empty target means every remote.\<close>

definition dispatch_event :: "network \<Rightarrow> string \<Rightarrow> string \<Rightarrow> string \<Rightarrow> string \<Rightarrow> gov \<Rightarrow> rpc \<Rightarrow> rpc" where
  "dispatch_event N target iface a k v r =
     (let receivers = filter (\<lambda>e. target = [] \<or> reg_interface (snd e) = target) (remotes r)
      in fold (send_event N (to_upper a) k v) receivers (observe iface (to_upper a) k v r))"

definition fire_event :: "network \<Rightarrow> string \<Rightarrow> string \<Rightarrow> string \<Rightarrow> gov \<Rightarrow> rpc \<Rightarrow> rpc" where
  "fire_event N iface a k v r = dispatch_event N [] iface a k v r"

text \<open>One batch of a dispatcher: the first \<open>n\<close> queued events, alone or in a multicall.\<close>

definition multicall_entry :: "pending_event \<Rightarrow> xvalue" where
  "multicall_entry e = VStruct [(''methodName'', VStr ''event''), (''params'', VArray (event_params e))]"

definition batch_call :: "pending_event list \<Rightarrow> string \<times> xvalue list" where
  "batch_call es =
     (case es of [e] \<Rightarrow> (''event'', event_params e)
      | _ \<Rightarrow> (''system.multicall'', [VArray (map multicall_entry es)]))"

definition deliver_batch :: "network \<Rightarrow> string \<Rightarrow> nat \<Rightarrow> rpc \<Rightarrow> rpc" where
  "deliver_batch N key n r =
     (case map_of (dispatchers r) key of
        None \<Rightarrow> r
      | Some d \<Rightarrow>
          if n = 0 \<or> dispatch_buffer_size < n \<or> length (d_queue d) < n then r
          else
            (let es = take n (d_queue d);
                 r1 = r\<lparr>dispatchers := AList.update key (d\<lparr>d_queue := drop n (d_queue d)\<rparr>) (dispatchers r)\<rparr>;
                 (meth, params) = batch_call es;
                 (alive, r2) = call_remote N (d_client d) meth params r1
             in if alive then r2
                else (drop_remote key (d_client d) r2)\<lparr>dispatchers := AList.delete key (dispatchers r2)\<rparr>))"

section \<open>Reading\<close>

definition upd_store :: "(store \<Rightarrow> 'a \<times> store) \<Rightarrow> rpc \<Rightarrow> 'a \<times> rpc" where
  "upd_store f r = (case f (store r) of (x, s) \<Rightarrow> (x, r\<lparr>store := s\<rparr>))"

definition link_key_of :: "string \<Rightarrow> string \<Rightarrow> link_key" where
  "link_key_of sender receiver = (to_upper sender, to_upper receiver)"

definition get_link_paramset :: "string \<Rightarrow> string \<Rightarrow> rpc \<Rightarrow> val_map" where
  "get_link_paramset sender peer r =
     (case map_of (link_paramsets r) (link_key_of sender peer) of Some m \<Rightarrow> m | None \<Rightarrow> [])"

definition get_paramset :: "golib \<Rightarrow> string \<Rightarrow> string \<Rightarrow> rpc \<Rightarrow> (rpc_error + val_map) \<times> rpc" where
  "get_paramset L a key r =
     (if key \<noteq> ''MASTER'' \<and> key \<noteq> ''VALUES'' then
        (if key = ''LINK'' then (link_defaults L a (store r), r)
         else if CHR '':'' \<in> set key then (Inr (get_link_paramset a key r), r)
         else (Inl (UnknownParamset a key), r))
      else upd_store (read_paramset L a key) r)"

definition get_value :: "golib \<Rightarrow> string \<Rightarrow> string \<Rightarrow> rpc \<Rightarrow> (rpc_error + gov) \<times> rpc" where
  "get_value L a k r =
     (case get_paramset L a ''VALUES'' r of
        (res, r1) \<Rightarrow>
          (bind_r res (\<lambda>m. case map_of m k of Some v \<Rightarrow> Inr v | None \<Rightarrow> Inl (UnknownParameter a k)), r1))"

definition determine_parameter :: "golib \<Rightarrow> network \<Rightarrow> string \<Rightarrow> string \<Rightarrow> string \<Rightarrow> rpc \<Rightarrow> (rpc_error + bool) \<times> rpc" where
  "determine_parameter L N a kind k r =
     (let p = (if k = [] then kind else k) in
      if p = [] then (Inl ParameterRequired, r)
      else (case get_value L a p r of
              (Inl e, r1) \<Rightarrow> (Inl e, r1)
            | (Inr v, r1) \<Rightarrow> (Inr True, fire_event N (interface_id (cfg r1)) a p v r1)))"

section \<open>Device state machines\<close>

definition maintenance_channel :: "string \<Rightarrow> string" where
  "maintenance_channel a = fst (cut_byte (CHR '':'') a) @ '':0''"

definition set_maintenance_value :: "network \<Rightarrow> string \<Rightarrow> string \<Rightarrow> gov \<Rightarrow> rpc \<Rightarrow> rpc" where
  "set_maintenance_value N channel p v r =
     fire_event N (interface_id (cfg r)) channel p v
       (r\<lparr>store := put_value (to_upper channel) ''VALUES'' p v (store r)\<rparr>)"

definition set_device_unreachable :: "network \<Rightarrow> string \<Rightarrow> bool \<Rightarrow> rpc \<Rightarrow> (rpc_error + unit) \<times> rpc" where
  "set_device_unreachable N a unreach r =
     (let ch = maintenance_channel a in
      case get_device_description ch (store r) of
        Inl e \<Rightarrow> (Inl e, r)
      | Inr d \<Rightarrow>
          (let r1 = set_maintenance_value N ch ''UNREACH'' (GBool unreach) r
           in (Inr (), if unreach then set_maintenance_value N ch ''STICKY_UNREACH'' (GBool True) r1 else r1)))"

text \<open>A MASTER write starts the CONFIG_PENDING pulse, or extends the one that is pending.\<close>

definition notify_config_pending :: "network \<Rightarrow> string \<Rightarrow> rpc \<Rightarrow> rpc" where
  "notify_config_pending N a r =
     (if \<not> reachability_on (cfg r) \<or> timers_stopped r then r
      else (let ch = maintenance_channel a; key = to_upper ch in
        if map_of (pending_timers r) key \<noteq> None then r
        else set_maintenance_value N ch ''CONFIG_PENDING'' (GBool True)
               (r\<lparr>pending_timers := AList.update key (Pulse ch) (pending_timers r)\<rparr>)))"

definition has_values_parameter :: "string \<Rightarrow> string \<Rightarrow> store \<Rightarrow> bool" where
  "has_values_parameter up p s =
     (case map_of (paramset_desc s) up of
        None \<Rightarrow> False
      | Some desc \<Rightarrow>
          (case any_map (entry_of desc ''VALUES'') of Some vals \<Rightarrow> map_of vals p \<noteq> None | None \<Rightarrow> False))"

text \<open>\<open>clearConfigPending\<close>: the pending configuration of a write model ends.\<close>

definition clear_config_pending :: "network \<Rightarrow> string \<Rightarrow> rpc \<Rightarrow> rpc" where
  "clear_config_pending N a r =
     (let ch = maintenance_channel a; key = to_upper ch;
          present = (map_of (pending_sticky (store r)) key \<noteq> None);
          r1 = r\<lparr>store := (store r)\<lparr>pending_sticky := AList.delete key (pending_sticky (store r))\<rparr>,
                 pending_timers := AList.delete key (pending_timers r)\<rparr>
      in if present \<and> has_values_parameter key ''CONFIG_PENDING'' (store r1)
         then set_maintenance_value N ch ''CONFIG_PENDING'' (GBool False) r1 else r1)"

definition config_pending_elapsed :: "network \<Rightarrow> string \<Rightarrow> rpc \<Rightarrow> rpc" where
  "config_pending_elapsed N key r =
     (case map_of (pending_timers r) key of
        None \<Rightarrow> r
      | Some t \<Rightarrow>
          (let r1 = r\<lparr>pending_timers := AList.delete key (pending_timers r)\<rparr>
           in if timers_stopped r1 then r1
              else (case t of
                      Pulse ch \<Rightarrow> set_maintenance_value N ch ''CONFIG_PENDING'' (GBool False) r1
                    | Soft a \<Rightarrow>
                        if map_of (pending_sticky (store r1)) key = Some True then r1
                        else clear_config_pending N a r1)))"

definition set_value_silently :: "string \<Rightarrow> string \<Rightarrow> gov \<Rightarrow> rpc \<Rightarrow> rpc" where
  "set_value_silently a p v r = r\<lparr>store := put_value (to_upper a) ''VALUES'' p v (store r)\<rparr>"

definition report_progress :: "network \<Rightarrow> string \<Rightarrow> string \<Rightarrow> int \<Rightarrow> rpc \<Rightarrow> rpc" where
  "report_progress N a p n r = fire_event N (interface_id (cfg r)) a p (GInt n) (set_value_silently a p (GInt n) r)"

definition notify_ramp :: "network \<Rightarrow> string \<Rightarrow> ramp_write \<Rightarrow> rpc \<Rightarrow> rpc" where
  "notify_ramp N a w r =
     (case map_of ramp_parameters (rw_key w) of
        None \<Rightarrow> r
      | Some progress \<Rightarrow>
          if \<not> ramps_on (cfg r) \<or> timers_stopped r then r
          else (let key = to_upper a @ ''.'' @ progress in
            if map_of (ramp_timers r) key \<noteq> None then r
            else (let previous = (if rw_previous w = GNil then GFloat (Fin 0) else rw_previous w);
                      direction = activity_for_move (rw_target w) previous
                  in if direction = activity_idle then r
                     else report_progress N a progress direction
                            (r\<lparr>ramp_timers := AList.update key (a, progress) (ramp_timers r)\<rparr>))))"

definition ramp_elapsed :: "network \<Rightarrow> string \<Rightarrow> rpc \<Rightarrow> rpc" where
  "ramp_elapsed N key r =
     (case map_of (ramp_timers r) key of
        None \<Rightarrow> r
      | Some (a, progress) \<Rightarrow>
          (let r1 = r\<lparr>ramp_timers := AList.delete key (ramp_timers r)\<rparr>
           in if timers_stopped r1 then r1 else report_progress N a progress activity_idle r1))"

text \<open>Pairing: a deadline in nanoseconds, read against the clock; a CCU rounds the rest up to seconds.\<close>

definition nanos :: int where "nanos = 1000000000"

definition set_install_mode :: "int \<Rightarrow> bool \<Rightarrow> int \<Rightarrow> int \<Rightarrow> string \<Rightarrow> rpc \<Rightarrow> rpc" where
  "set_install_mode now on duration mode a r =
     (if \<not> lifecycle_on (cfg r) then r
      else if \<not> on then r\<lparr>install_until := None\<rparr>
      else r\<lparr>install_until := Some (now + (if duration \<le> 0 then 60 else duration) * nanos),
             install_mode := mode, install_address := to_upper a\<rparr>)"

definition get_install_mode :: "int \<Rightarrow> rpc \<Rightarrow> int \<times> rpc" where
  "get_install_mode now r =
     (case install_until r of
        None \<Rightarrow> (0, r)
      | Some deadline \<Rightarrow>
          if \<not> lifecycle_on (cfg r) then (0, r)
          else if deadline - now \<le> 0 then (0, r\<lparr>install_until := None\<rparr>)
          else ((deadline - now + nanos - 1) div nanos, r))"

text \<open>A firmware update reports its states one after the other, a timer between two; the map holds the
  step that comes next.\<close>

definition firmware_sequence :: "string list" where
  "firmware_sequence = [''DELIVER_FIRMWARE_IMAGE'', ''READY_FOR_UPDATE'', ''PERFORMING_UPDATE'', ''UP_TO_DATE'']"

definition advance_firmware :: "network \<Rightarrow> string \<Rightarrow> nat \<Rightarrow> rpc \<Rightarrow> rpc" where
  "advance_firmware N a i r =
     (if length firmware_sequence \<le> i then r\<lparr>firmware_timers := AList.delete a (firmware_timers r)\<rparr>
      else (let r1 = set_maintenance_value N (maintenance_channel a) ''FIRMWARE_UPDATE_STATE'' (GStr (firmware_sequence ! i)) r
            in if timers_stopped r1 then r1\<lparr>firmware_timers := AList.delete a (firmware_timers r1)\<rparr>
               else r1\<lparr>firmware_timers := AList.update a (Suc i) (firmware_timers r1)\<rparr>))"

definition start_firmware_update :: "network \<Rightarrow> string \<Rightarrow> rpc \<Rightarrow> rpc" where
  "start_firmware_update N a r =
     (if \<not> lifecycle_on (cfg r) \<or> timers_stopped r then r
      else if map_of (firmware_timers r) (to_upper a) \<noteq> None then r
      else advance_firmware N (to_upper a) 0 r)"

definition firmware_elapsed :: "network \<Rightarrow> string \<Rightarrow> rpc \<Rightarrow> rpc" where
  "firmware_elapsed N a r =
     (case map_of (firmware_timers r) a of None \<Rightarrow> r | Some i \<Rightarrow> advance_firmware N a i r)"

definition stop_timers :: "rpc \<Rightarrow> rpc" where
  "stop_timers r = r\<lparr>timers_stopped := True, pending_timers := [], ramp_timers := [], firmware_timers := []\<rparr>"

section \<open>Small queries\<close>

definition get_paramset_id :: "string \<Rightarrow> string \<Rightarrow> store \<Rightarrow> rpc_error + string" where
  "get_paramset_id a kind s =
     (case map_of (device_by_address s) (to_upper a) of
        None \<Rightarrow> Inl (UnknownDevice a)
      | Some d \<Rightarrow> Inr ((if text_of d ''TYPE'' = [] then text_of d ''PARENT_TYPE'' else text_of d ''TYPE'')
                        @ '':'' @ to_upper kind))"

definition simulated_rssi :: int where "simulated_rssi = - 65"

definition rssi_info :: "store \<Rightarrow> val_map" where
  "rssi_info s =
     fold (\<lambda>d out. let a = text_of d ''ADDRESS'' in
        if a = [] \<or> CHR '':'' \<in> set a then out
        else AList.update a (GMap [(''CENTRAL'', GList [GInt simulated_rssi, GInt simulated_rssi])]) out)
       (devices s) []"

definition list_bidcos_interfaces :: "rpc \<Rightarrow> val_map list" where
  "list_bidcos_interfaces r =
     [[(''ADDRESS'', GStr (interface_id (cfg r))), (''DESCRIPTION'', GStr ''eQ-3 Default''), (''DUTY_CYCLE'', GInt 0),
       (''CONNECTED'', GBool True), (''DEFAULT'', GBool True), (''FIRMWARE_VERSION'', GStr ''3.87.1.20250130''),
       (''TYPE'', GStr ''CCU2'')]]"

section \<open>Faults\<close>

text \<open>\<open>faultCodeFor\<close> and \<open>faultFromErr\<close>: the code a client sees for each failure.\<close>

definition fault_code_for :: "bool \<Rightarrow> rpc_error \<Rightarrow> int" where
  "fault_code_for catalogue e =
     (if \<not> catalogue then - 1
      else (case e of
              UnknownDevice a \<Rightarrow> - 2
            | UnknownParamset a k \<Rightarrow> - 3
            | UnknownParameter a p \<Rightarrow> - 5
            | InvalidValue a p \<Rightarrow> - 5
            | _ \<Rightarrow> - 1))"

definition fault_from_err :: "bool \<Rightarrow> rpc_error \<Rightarrow> int" where
  "fault_from_err catalogue e = (case e of WireFault code m \<Rightarrow> code | _ \<Rightarrow> fault_code_for catalogue e)"

section \<open>Writing\<close>

definition hook :: "string \<Rightarrow> string \<Rightarrow> gov \<Rightarrow> rpc \<Rightarrow> rpc" where
  "hook a k v r = (if has_hook (cfg r) then emit (Hooked a k v) r else r)"

definition put_link_paramset :: "string \<Rightarrow> string \<Rightarrow> val_map \<Rightarrow> rpc \<Rightarrow> rpc" where
  "put_link_paramset sender peer ps r =
     r\<lparr>link_paramsets := AList.update (link_key_of sender peer) (map_copy (get_link_paramset sender peer r) ps) (link_paramsets r)\<rparr>"

text \<open>What follows the locked part: the events, the hook, the movements, the pending configuration.\<close>

definition after_put :: "network \<Rightarrow> string \<Rightarrow> string \<Rightarrow> val_map \<Rightarrow> put_progress \<Rightarrow> rpc \<Rightarrow> rpc" where
  "after_put N a kind ps p r =
     (let r1 = fold (\<lambda>(k, v). fire_event N (interface_id (cfg r)) a k v) (pp_fire p) (r\<lparr>store := pp_store p\<rparr>);
          r2 = fold (\<lambda>(k, v). hook a k v) ps r1;
          r3 = fold (notify_ramp N a) (pp_ramped p) r2
      in if kind = ''MASTER'' \<and> ps \<noteq> [] then notify_config_pending N a r3 else r3)"

text \<open>
  \<open>putParamset\<close> without a MASTER write model. The list is the paramset in the order Go iterates it.
  A failing parameter ends the call at once, and what was stored before it stays; an action ends it
  with its own event alone.
\<close>

definition put_paramset :: "golib \<Rightarrow> network \<Rightarrow> string \<Rightarrow> string \<Rightarrow> val_map \<Rightarrow> bool \<Rightarrow> rpc \<Rightarrow> (rpc_error + unit) \<times> rpc" where
  "put_paramset L N a key ps force r =
     (if key \<noteq> ''MASTER'' \<and> key \<noteq> ''VALUES'' \<and> key \<noteq> ''LINK'' then (Inr (), put_link_paramset a key ps r)
      else (case get_paramset_description a key (store r) of
              Inl e \<Rightarrow> (Inl e, r)
            | Inr descs \<Rightarrow>
                (case put_loop L (ramps_on (cfg r)) (device_type_for_address (to_upper a) (store r)) a key descs force ps
                        \<lparr>pp_store = store r, pp_fire = [], pp_ramped = []\<rparr> of
                   (PutFailed e, p) \<Rightarrow> (Inl e, r\<lparr>store := pp_store p\<rparr>)
                 | (PutAction k v, p) \<Rightarrow>
                     (Inr (), hook a k v (fire_event N (interface_id (cfg r)) a k (GBool True) (r\<lparr>store := pp_store p\<rparr>)))
                 | (PutDone, p) \<Rightarrow> (Inr (), after_put N a key ps p r))))"

definition set_value :: "golib \<Rightarrow> network \<Rightarrow> string \<Rightarrow> string \<Rightarrow> gov \<Rightarrow> bool \<Rightarrow> rpc \<Rightarrow> (rpc_error + unit) \<times> rpc" where
  "set_value L N a k v force r =
     (if is_convertable k then
        put_paramset L N a ''VALUES'' (convert_combined L k (case any_str v of Some t \<Rightarrow> t | None \<Rightarrow> [])) force (hook a k v r)
      else put_paramset L N a ''VALUES'' [(k, v)] force r)"

definition simulate_device_event :: "golib \<Rightarrow> network \<Rightarrow> string \<Rightarrow> string \<Rightarrow> gov \<Rightarrow> rpc \<Rightarrow> (rpc_error + unit) \<times> rpc" where
  "simulate_device_event L N a k v r = put_paramset L N a ''VALUES'' [(k, v)] True r"

section \<open>Direct links\<close>

definition add_link :: "golib \<Rightarrow> string \<Rightarrow> string \<Rightarrow> rpc \<Rightarrow> rpc" where
  "add_link L sender receiver r =
     (let lk = link_key_of sender receiver in
      if map_of (link_paramsets r) lk \<noteq> None then r
      else (let defs = (case map_of (paramset_desc (store r)) (fst lk) of
                          None \<Rightarrow> []
                        | Some desc \<Rightarrow> (case any_map (entry_of desc ''LINK'') of Some d \<Rightarrow> build_defaults L d | None \<Rightarrow> []))
            in r\<lparr>link_paramsets := AList.update lk defs (link_paramsets r)\<rparr>))"

definition remove_link :: "string \<Rightarrow> string \<Rightarrow> rpc \<Rightarrow> rpc" where
  "remove_link sender receiver r = r\<lparr>link_paramsets := AList.delete (link_key_of sender receiver) (link_paramsets r)\<rparr>"

definition link_known :: "string \<Rightarrow> string \<Rightarrow> rpc \<Rightarrow> bool" where
  "link_known sender receiver r \<longleftrightarrow> map_of (link_paramsets r) (link_key_of sender receiver) \<noteq> None"

definition get_link_info :: "string \<Rightarrow> string \<Rightarrow> rpc \<Rightarrow> rpc_error + (string \<times> string)" where
  "get_link_info sender receiver r =
     (if link_known sender receiver r
      then Inr (case map_of (link_info r) (link_key_of sender receiver) of Some i \<Rightarrow> i | None \<Rightarrow> ([], []))
      else Inl (NoLink sender receiver))"

definition set_link_info :: "string \<Rightarrow> string \<Rightarrow> string \<Rightarrow> string \<Rightarrow> rpc \<Rightarrow> (rpc_error + bool) \<times> rpc" where
  "set_link_info sender receiver name descr r =
     (if link_known sender receiver r
      then (Inr True, r\<lparr>link_info := AList.update (link_key_of sender receiver) (name, descr) (link_info r)\<rparr>)
      else (Inl (NoLink sender receiver), r))"

definition activate_link_paramset :: "string \<Rightarrow> string \<Rightarrow> rpc \<Rightarrow> rpc_error + bool" where
  "activate_link_paramset a peer r =
     (if link_known a peer r \<or> link_known peer a r then Inr True else Inl (NoLink a peer))"

definition get_link_peers :: "string \<Rightarrow> rpc \<Rightarrow> string list" where
  "get_link_peers a r = map (snd \<circ> fst) (filter (\<lambda>(lk, v). fst lk = to_upper a) (link_paramsets r))"

text \<open>\<open>quirkFamily\<close> and what depends on it.\<close>

definition quirk_family :: "rpc \<Rightarrow> string" where
  "quirk_family r = (if quirks_on (cfg r) then interface_filter (cfg r) else [])"

definition is_bidcos_family :: "string \<Rightarrow> bool" where
  "is_bidcos_family f \<longleftrightarrow> f = ''BidCos-RF'' \<or> f = ''BidCos-Wired''"

definition device_of :: "string \<Rightarrow> string" where
  "device_of a = fst (cut_byte (CHR '':'') a)"

definition link_flags :: "string \<Rightarrow> bool \<Rightarrow> link_key \<Rightarrow> int" where
  "link_flags family unfiltered lk =
     (if family = ''BidCos-RF'' \<and> unfiltered \<and> device_of (fst lk) = device_of (snd lk) then 1 else 0)"

definition link_descriptor :: "string \<Rightarrow> bool \<Rightarrow> link_key \<times> val_map \<Rightarrow> val_map" where
  "link_descriptor family unfiltered e =
     (let d = map_copy [(''SENDER'', GStr (fst (fst e))), (''RECEIVER'', GStr (snd (fst e))),
                        (''NAME'', GStr []), (''DESCRIPTION'', GStr [])] (snd e)
      in if family \<noteq> [] then AList.update ''FLAGS'' (GInt (link_flags family unfiltered (fst e))) d else d)"

definition get_links :: "string \<Rightarrow> rpc \<Rightarrow> val_map list" where
  "get_links a r =
     map (link_descriptor (quirk_family r) (to_upper a = []))
       (filter (\<lambda>(lk, v). to_upper a = [] \<or> fst lk = to_upper a) (link_paramsets r))"

section \<open>Metadata\<close>

definition stored_metadata :: "string \<Rightarrow> rpc \<Rightarrow> val_map" where
  "stored_metadata obj r = (case map_of (metadata r) (to_upper obj) of Some m \<Rightarrow> m | None \<Rightarrow> [])"

definition set_metadata :: "string \<Rightarrow> string \<Rightarrow> gov \<Rightarrow> rpc \<Rightarrow> bool \<times> rpc" where
  "set_metadata obj d v r =
     (if obj = [] \<or> d = [] then (False, r)
      else (True, r\<lparr>metadata := AList.update (to_upper obj) (AList.update d v (stored_metadata obj r)) (metadata r)\<rparr>))"

definition metadata_default :: "string \<Rightarrow> string \<Rightarrow> rpc \<Rightarrow> rpc_error + gov" where
  "metadata_default obj d r =
     (case map_of (device_by_address (store r)) (device_of (to_upper obj)) of
        None \<Rightarrow> Inl (UnknownDevice obj)
      | Some desc \<Rightarrow>
          (case map_of desc d of
             Some v \<Rightarrow> Inr v
           | None \<Rightarrow>
               if d = ''NAME'' then
                 Inr (GStr ((case any_list (entry_of desc ''CHILDREN'') of
                               Some (c # cs) \<Rightarrow> text_of desc ''TYPE'' | _ \<Rightarrow> text_of desc ''PARENT_TYPE'')
                            @ '' '' @ text_of desc ''ADDRESS''))
               else Inr GNil))"

definition failure :: rpc_error where
  "failure = WireFault (- 1) ''Failure''"

definition get_metadata :: "string \<Rightarrow> string \<Rightarrow> rpc \<Rightarrow> rpc_error + gov" where
  "get_metadata obj d r =
     (case map_of (stored_metadata obj r) d of
        Some v \<Rightarrow> Inr v
      | None \<Rightarrow>
          if is_bidcos_family (quirk_family r) then Inl failure
          else if quirk_family r = ''HmIP-RF'' then Inr (GStr [])
          else metadata_default obj d r)"

definition all_metadata :: "string \<Rightarrow> rpc \<Rightarrow> rpc_error + val_map" where
  "all_metadata obj r =
     (if stored_metadata obj r = [] \<and> is_bidcos_family (quirk_family r) then Inl failure else Inr (stored_metadata obj r))"

section \<open>Service messages\<close>

definition service_parameters :: "string list" where
  "service_parameters = [''UNREACH'', ''STICKY_UNREACH'', ''LOWBAT'', ''LOW_BAT'', ''CONFIG_PENDING'',
     ''UPDATE_PENDING'', ''ERROR'', ''ERROR_CODE'']"

fun is_raised :: "gov \<Rightarrow> bool" where
  "is_raised (GBool b) = b"
| "is_raised (GFloat x) = (\<not> is_zero x)"
| "is_raised (GInt n) = (n \<noteq> 0)"
| "is_raised v = False"

definition is_suppressed :: "string \<Rightarrow> string \<Rightarrow> rpc \<Rightarrow> bool" where
  "is_suppressed a p r =
     (case map_of (suppressed r) (to_upper a) of Some ps \<Rightarrow> p \<in> set ps | None \<Rightarrow> False)"

definition channel_states :: "rpc \<Rightarrow> string \<Rightarrow> (string \<times> string \<times> gov) list" where
  "channel_states r a =
     concat (map (\<lambda>p. case map_of (overrides a ''VALUES'' (store r)) p of
         Some v \<Rightarrow> if is_raised v \<and> \<not> is_suppressed a p r then [(a, p, v)] else []
       | None \<Rightarrow> []) service_parameters)"

definition derive_service_states :: "rpc \<Rightarrow> (string \<times> string \<times> gov) list" where
  "derive_service_states r =
     concat (map (channel_states r) (sort (filter (\<lambda>a. suffix '':0'' a) (map fst (paramsets (store r))))))"

definition service_states :: "rpc \<Rightarrow> (string \<times> string \<times> gov) list" where
  "service_states r = (if service_messages (cfg r) then derive_service_states r else [])"

definition suppress_service_message :: "string \<Rightarrow> string \<Rightarrow> bool \<Rightarrow> rpc \<Rightarrow> rpc" where
  "suppress_service_message a p suppress r =
     (let key = to_upper a; old = map_of (suppressed r) key; ps = (case old of Some l \<Rightarrow> l | None \<Rightarrow> []) in
      if old = None \<and> \<not> suppress then r
      else if suppress \<and> p = [] then
        r\<lparr>suppressed := AList.update key (fold List.insert service_parameters ps) (suppressed r)\<rparr>
      else if suppress then r\<lparr>suppressed := AList.update key (List.insert p ps) (suppressed r)\<rparr>
      else if p = [] then r\<lparr>suppressed := AList.delete key (suppressed r)\<rparr>
      else r\<lparr>suppressed := AList.update key (removeAll p ps) (suppressed r)\<rparr>)"

definition suppressed_service_messages :: "string \<Rightarrow> rpc \<Rightarrow> string list" where
  "suppressed_service_messages a r = filter (\<lambda>p. is_suppressed a p r) service_parameters"

text \<open>The answer of getServiceMessages: one example entry, or the raised states under quirks.\<close>

definition service_messages_answer :: "rpc \<Rightarrow> rpc_error + gov" where
  "service_messages_answer r =
     (if service_messages_fault (cfg r) \<and>
         (interface_filter (cfg r) = ''HmIP-RF'' \<or> interface_filter (cfg r) = ''VirtualDevices'')
      then Inl (WireFault (- 1) ''Invalid XML-RPC message'')
      else if quirk_family r = [] then Inr (GList [GList [GStr ''VCU0000001:1'', GStr ''ERROR'', GInt 7]])
      else (let states = derive_service_states r in
        if states = [] \<and> is_bidcos_family (quirk_family r) then Inr (GStr [])
        else Inr (GList (map (\<lambda>(a, p, v). GList [GStr a, GStr p, v]) states))))"

end
