(* ===== verification/Client_Registry.thy ===== *)
theory Client_Registry
  imports Device_Rpc
begin

text \<open>
  Registration of clients and what they are told about the device universe: \<open>Init\<close>, \<open>askDevices\<close>
  and \<open>pushDevices\<close> of \<^verbatim>\<open>rpcfunctions.go\<close>, \<^verbatim>\<open>initsemantics.go\<close>, and the catalogue changes with
  their callbacks. \<open>Init\<close> answers at once and asks the client for its devices in a goroutine: that
  is the operation \<open>ask_devices\<close>, which may run at any later time.
\<close>

section \<open>Registration\<close>

definition drop_dispatcher :: "string \<Rightarrow> rpc \<Rightarrow> rpc" where
  "drop_dispatcher key r = r\<lparr>dispatchers := AList.delete key (dispatchers r)\<rparr>"

definition contains :: "string \<Rightarrow> string \<Rightarrow> bool" where
  "contains s t \<longleftrightarrow> sublist t s"

definition init_client :: "string \<Rightarrow> string \<Rightarrow> rpc \<Rightarrow> rpc" where
  "init_client url iface r =
     (if iface \<noteq> [] then
        (let key = (if init_semantics (cfg r) then url else iface);
             r1 = drop_dispatcher key r
         in r1\<lparr>remotes := AList.update key \<lparr>reg_interface = iface, reg_url = url, reg_client = next_client r\<rparr> (remotes r1),
               next_client := Suc (next_client r)\<rparr>)
      else if init_semantics (cfg r) then
        (case map_of (remotes r) url of
           None \<Rightarrow> r
         | Some reg \<Rightarrow> drop_dispatcher url (r\<lparr>remotes := AList.delete url (remotes r)\<rparr>))
      else
        (case List.find (\<lambda>(k, reg). contains (reg_url reg) url \<or> contains url (reg_url reg)) (remotes r) of
           None \<Rightarrow> r
         | Some (k, reg) \<Rightarrow> drop_dispatcher k (r\<lparr>remotes := AList.delete k (remotes r)\<rparr>)))"

definition forget_clients :: "rpc \<Rightarrow> rpc" where
  "forget_clients r = r\<lparr>remotes := [], dispatchers := []\<rparr>"

definition client_initialized :: "string \<Rightarrow> rpc \<Rightarrow> bool" where
  "client_initialized iface r \<longleftrightarrow> list_ex (\<lambda>(k, reg). reg_interface reg = iface) (remotes r)"

text \<open>\<open>firePong\<close>: to the client that owns the interface named in the caller id, or to all.\<close>

definition pong_target :: "string \<Rightarrow> string" where
  "pong_target caller =
     (case cut_byte (CHR ''#'') caller of (before, _, found) \<Rightarrow> if found \<and> before \<noteq> [] then before else caller)"

definition ping :: "network \<Rightarrow> string \<Rightarrow> rpc \<Rightarrow> bool \<times> rpc" where
  "ping N caller r =
     (if quirk_family r = ''HmIP-RF'' \<or> caller = [] then (True, r)
      else (let t = pong_target caller in
        if list_ex (\<lambda>(k, reg). reg_interface reg = t) (remotes r)
        then (True, dispatch_event N t t ''CENTRAL'' ''PONG'' (GStr caller) r)
        else (True, fire_event N t ''CENTRAL'' ''PONG'' (GStr caller) r)))"

section \<open>Telling a client about devices\<close>

definition address_of :: "val_map \<Rightarrow> string" where
  "address_of d = text_of d ''ADDRESS''"

definition tell :: "network \<Rightarrow> string \<Rightarrow> registration \<Rightarrow> gov \<Rightarrow> rpc \<Rightarrow> rpc" where
  "tell N meth reg v r = snd (call_remote N (reg_client reg) meth [VStr (reg_interface reg), from_any v] r)"

definition tell_new :: "network \<Rightarrow> registration \<Rightarrow> val_map list \<Rightarrow> rpc \<Rightarrow> rpc" where
  "tell_new N reg ds r = (if ds = [] then r else tell N ''newDevices'' reg (GList (map GMap ds)) r)"

definition tell_gone :: "network \<Rightarrow> registration \<Rightarrow> string list \<Rightarrow> rpc \<Rightarrow> rpc" where
  "tell_gone N reg as r = (if as = [] then r else tell N ''deleteDevices'' reg (GList (map GStr as)) r)"

text \<open>The differences \<open>pushDevices\<close> finds: addresses the client should drop, devices it lacks.\<close>

definition push_gone :: "store \<Rightarrow> val_map list \<Rightarrow> string list" where
  "push_gone s known = filter (\<lambda>a. map_of (paramset_desc s) a = None) (map address_of known)"

definition push_new :: "store \<Rightarrow> val_map list \<Rightarrow> val_map list" where
  "push_new s known =
     filter (\<lambda>d. address_of d \<notin> set (filter (\<lambda>a. map_of (paramset_desc s) a \<noteq> None) (map address_of known))) (devices s)"

definition push_devices :: "network \<Rightarrow> registration \<Rightarrow> val_map list \<Rightarrow> rpc \<Rightarrow> rpc" where
  "push_devices N reg known r =
     tell_gone N reg (push_gone (store r) known) (tell_new N reg (push_new (store r) known) r)"

text \<open>The differences of \<open>reconcileDevices\<close>.\<close>

definition device_type_of :: "val_map \<Rightarrow> string" where
  "device_type_of d = (if text_of d ''PARENT_TYPE'' \<noteq> [] then text_of d ''PARENT_TYPE'' else text_of d ''TYPE'')"

definition client_devices :: "val_map list \<Rightarrow> (string, val_map) gomap" where
  "client_devices known =
     fold (\<lambda>d m. if address_of d = [] then m else AList.update (address_of d) d m) known []"

definition resend :: "golib \<Rightarrow> val_map \<Rightarrow> val_map \<Rightarrow> bool" where
  "resend L d copy \<longleftrightarrow> interface_for_type (device_type_of d) = ''HmIP-RF'' \<or>
     sprint L (entry_of d ''VERSION'') \<noteq> sprint L (entry_of copy ''VERSION'')"

definition reconcile_new :: "golib \<Rightarrow> store \<Rightarrow> val_map list \<Rightarrow> val_map list" where
  "reconcile_new L s known =
     filter (\<lambda>d. case map_of (client_devices known) (address_of d) of None \<Rightarrow> True | Some c \<Rightarrow> resend L d c) (devices s)"

definition reconcile_gone :: "golib \<Rightarrow> store \<Rightarrow> val_map list \<Rightarrow> string list" where
  "reconcile_gone L s known =
     map address_of (filter (\<lambda>d. case map_of (client_devices known) (address_of d) of None \<Rightarrow> False | Some c \<Rightarrow> resend L d c) (devices s)) @
     filter (\<lambda>a. a \<notin> set (map address_of (devices s)) \<and> a \<noteq> []) (map address_of known)"

definition reconcile_devices :: "golib \<Rightarrow> network \<Rightarrow> registration \<Rightarrow> val_map list \<Rightarrow> rpc \<Rightarrow> rpc" where
  "reconcile_devices L N reg known r =
     tell_new N reg (reconcile_new L (store r) known) (tell_gone N reg (reconcile_gone L (store r) known) r)"

fun known_of :: "xvalue \<Rightarrow> val_map list" where
  "known_of (VArray es) = concat (map (\<lambda>e. case any_map (to_any e) of Some m \<Rightarrow> [m] | None \<Rightarrow> []) es)"
| "known_of v = []"

definition ask_devices :: "golib \<Rightarrow> network \<Rightarrow> string \<Rightarrow> rpc \<Rightarrow> rpc" where
  "ask_devices L N key r =
     (case map_of (remotes r) key of
        None \<Rightarrow> r
      | Some reg \<Rightarrow>
          (let r1 = snd (call_remote N (reg_client reg) ''listDevices'' [VStr (reg_interface reg)] r) in
           case answer N (trace r1) of
             None \<Rightarrow> r1
           | Some resp \<Rightarrow>
               (let known = known_of resp; r2 = r1\<lparr>known_devices := known\<rparr>
                in if init_semantics (cfg r) then reconcile_devices L N reg known r2 else push_devices N reg known r2)))"

text \<open>\<open>ReannounceClients\<close>: every client is called back as after an init.\<close>

definition reannounce :: "golib \<Rightarrow> network \<Rightarrow> rpc \<Rightarrow> rpc" where
  "reannounce L N r =
     fold (\<lambda>(key, reg) r.
       ask_devices L N key
         (if is_bidcos_family (interface_filter (cfg r))
          then snd (call_remote N (reg_client reg) ''system.listMethods'' [VStr (reg_interface reg)] r) else r)) (remotes r) r"

section \<open>Changes of the catalogue\<close>

definition tell_all :: "network \<Rightarrow> string \<Rightarrow> gov list \<Rightarrow> rpc \<Rightarrow> rpc" where
  "tell_all N meth args r =
     fold (\<lambda>(key, reg) r. snd (call_remote N (reg_client reg) meth (VStr (reg_interface reg) # map from_any args) r)) (remotes r) r"

definition add_devices :: "network \<Rightarrow> device_set list \<Rightarrow> rpc \<Rightarrow> rpc" where
  "add_devices N sets r =
     (case load_devices (interface_filter (cfg r)) sets (store r) of (s, added) \<Rightarrow>
        (let r1 = r\<lparr>store := s\<rparr> in if added = [] then r1 else tell_all N ''newDevices'' [GList (map GMap added)] r1))"

definition delete_device_call :: "network \<Rightarrow> string \<Rightarrow> rpc \<Rightarrow> rpc" where
  "delete_device_call N a r =
     (case delete_device a (store r) of (s, gone) \<Rightarrow>
        (let r1 = r\<lparr>store := s\<rparr> in if gone = [] then r1 else tell_all N ''deleteDevices'' [GList (map GStr gone)] r1))"

definition remove_devices_call :: "network \<Rightarrow> string list option \<Rightarrow> rpc \<Rightarrow> rpc" where
  "remove_devices_call N ts r =
     (case remove_devices ts (store r) of (s, gone) \<Rightarrow> tell_all N ''deleteDevices'' [GList (map GStr gone)] (r\<lparr>store := s\<rparr>))"

definition replace_device :: "network \<Rightarrow> string \<Rightarrow> string \<Rightarrow> rpc \<Rightarrow> rpc" where
  "replace_device N old new r = tell_all N ''replaceDevice'' [GStr old, GStr new] r"

definition readded_device :: "network \<Rightarrow> string list \<Rightarrow> rpc \<Rightarrow> rpc" where
  "readded_device N as r = tell_all N ''readdedDevice'' [GList (map GStr as)] r"

end
