(* ===== verification/Master_Model.thy ===== *)
theory Master_Model
  imports Device_Rpc
begin

text \<open>
  \<^verbatim>\<open>internal/ccu/mastermodel.go\<close>: how the two interface processes take a MASTER write. hmipserver
  stores everything and validates afterwards, so a bad value leaves a sticky CONFIG_PENDING and a
  parameter the channel does not have poisons it; rfd drops, clamps and coerces, and never faults on
  a value. The two regular expressions of the source are written as functions. MASTER values are
  scalars: \<open>reflect.DeepEqual\<close> is equality on them, a NaN being equal to nothing.
\<close>

section \<open>Numbers\<close>

fun integral_type :: "gov \<Rightarrow> int option" where
  "integral_type (GInt n) = Some n"
| "integral_type v = None"

fun integral_value :: "golib \<Rightarrow> gov \<Rightarrow> int option" where
  "integral_value L (GInt n) = Some n"
| "integral_value L (GFloat x) = (if is_integral_float x then Some (go_int L x) else None)"
| "integral_value L v = None"

fun number_value :: "gov \<Rightarrow> f64 option" where
  "number_value (GInt n) = Some (f64_of_int n)"
| "number_value (GFloat x) = (if x = NaN then None else Some x)"
| "number_value v = None"

definition same_value :: "gov \<Rightarrow> gov \<Rightarrow> bool" where
  "same_value a b =
     (case (number_value a, number_value b) of
        (Some x, Some y) \<Rightarrow> f64_eq x y
      | _ \<Rightarrow> a = b \<and> a \<noteq> GFloat NaN)"

text \<open>\<open>math.Round\<close>: to the nearest integer, halves away from zero.\<close>

fun f64_round :: "f64 \<Rightarrow> f64" where
  "f64_round (Fin q) = Fin (of_int (if 0 \<le> q then \<lfloor>q + 1 / 2\<rfloor> else - \<lfloor>1 / 2 - q\<rfloor>))"
| "f64_round x = x"

text \<open>The leading number of a text: \<open>^\s*[+-]?\d+\<close> and \<open>^\s*[+-]?(\d+\.?\d*|\.\d+)([eE][+-]?\d+)?\<close>.\<close>

definition re_space :: "char \<Rightarrow> bool" where
  "re_space c \<longleftrightarrow> c = CHR '' '' \<or> c = CHR 0x09 \<or> c = CHR 0x0A \<or> c = CHR 0x0C \<or> c = CHR 0x0D"

definition decimal_digit :: "char \<Rightarrow> bool" where
  "decimal_digit c \<longleftrightarrow> CHR ''0'' \<le> c \<and> c \<le> CHR ''9''"

definition take_sign :: "string \<Rightarrow> string \<times> string" where
  "take_sign s = (case s of c # cs \<Rightarrow> if c = CHR ''+'' \<or> c = CHR ''-'' then ([c], cs) else ([], s) | [] \<Rightarrow> ([], []))"

definition take_digits :: "string \<Rightarrow> string \<times> string" where
  "take_digits s = (takeWhile decimal_digit s, dropWhile decimal_digit s)"

definition leading_int_text :: "string \<Rightarrow> string" where
  "leading_int_text s =
     (case take_sign (dropWhile re_space s) of (sg, t) \<Rightarrow>
        (case take_digits t of (ds, _) \<Rightarrow> if ds = [] then [] else sg @ ds))"

definition exponent_text :: "string \<Rightarrow> string" where
  "exponent_text s =
     (case s of
        c # cs \<Rightarrow>
          if c = CHR ''e'' \<or> c = CHR ''E'' then
            (case take_sign cs of (sg, t) \<Rightarrow> (case take_digits t of (ds, _) \<Rightarrow> if ds = [] then [] else c # sg @ ds))
          else []
      | [] \<Rightarrow> [])"

definition leading_float_text :: "string \<Rightarrow> string" where
  "leading_float_text s =
     (case take_sign (dropWhile re_space s) of (sg, t) \<Rightarrow>
        (case take_digits t of (ds, t1) \<Rightarrow>
           (case t1 of
              c # t2 \<Rightarrow>
                if c = CHR ''.'' then
                  (case take_digits t2 of (fs, t3) \<Rightarrow>
                     if ds = [] \<and> fs = [] then [] else sg @ ds @ c # fs @ exponent_text t3)
                else if ds = [] then [] else sg @ ds @ exponent_text t1
            | [] \<Rightarrow> if ds = [] then [] else sg @ ds)))"

definition leading_number :: "golib \<Rightarrow> gov \<Rightarrow> bool \<Rightarrow> f64" where
  "leading_number L v integer =
     (case any_str v of
        None \<Rightarrow> Fin 0
      | Some s \<Rightarrow>
          (case parse_float L (if integer then leading_int_text s else leading_float_text s) of
             Some x \<Rightarrow> x | None \<Rightarrow> Fin 0))"

definition clamp_to :: "val_map \<Rightarrow> f64 \<Rightarrow> f64" where
  "clamp_to desc n =
     (let m = (case number_value (entry_of desc ''MIN'') of Some lo \<Rightarrow> if f64_less n lo then lo else n | None \<Rightarrow> n)
      in case number_value (entry_of desc ''MAX'') of Some hi \<Rightarrow> if f64_less hi m then hi else m | None \<Rightarrow> m)"

definition value_list :: "val_map \<Rightarrow> string list" where
  "value_list desc =
     (case any_list (entry_of desc ''VALUE_LIST'') of
        Some vs \<Rightarrow> map (\<lambda>v. case any_str v of Some s \<Rightarrow> s | None \<Rightarrow> []) vs
      | None \<Rightarrow> [])"

fun index_of :: "string list \<Rightarrow> string \<Rightarrow> nat option" where
  "index_of [] s = None"
| "index_of (x # xs) s = (if x = s then Some 0 else map_option Suc (index_of xs s))"

section \<open>What each process stores\<close>

text \<open>hmipserver: the stored value, and whether it is acceptable for the parameter.\<close>

definition hmip_stored_value :: "golib \<Rightarrow> val_map \<Rightarrow> gov \<Rightarrow> gov \<times> bool" where
  "hmip_stored_value L desc raw =
     (let ty = text_of desc ''TYPE'' in
      if ty = ''BOOL'' \<or> ty = ''ACTION'' then
        (case raw of
           GBool b \<Rightarrow> (raw, True)
         | _ \<Rightarrow> (case integral_value L raw of
                   Some n \<Rightarrow> if n = 0 \<or> n = 1 then (GBool (n = 1), True) else (raw, False)
                 | None \<Rightarrow> (raw, False)))
      else if ty = ''INTEGER'' then
        (case integral_value L raw of Some n \<Rightarrow> (GInt n, True) | None \<Rightarrow> (raw, False))
      else if ty = ''FLOAT'' then (raw, number_value raw \<noteq> None)
      else if ty = ''ENUM'' then
        (case any_str raw of
           Some s \<Rightarrow> (case index_of (value_list desc) s of Some i \<Rightarrow> (GInt (int i), True) | None \<Rightarrow> (raw, False))
         | None \<Rightarrow> (case integral_value L raw of
                      Some n \<Rightarrow> if 0 \<le> n \<and> n < int (length (value_list desc)) then (GInt n, True) else (raw, False)
                    | None \<Rightarrow> (raw, False)))
      else if ty = ''STRING'' then (raw, any_str raw \<noteq> None)
      else (raw, True))"

text \<open>rfd: the stored value; none where it ignores the value.\<close>

definition bidcos_stored_value :: "golib \<Rightarrow> val_map \<Rightarrow> gov \<Rightarrow> gov option" where
  "bidcos_stored_value L desc raw =
     (let ty = text_of desc ''TYPE'' in
      if ty = ''BOOL'' \<or> ty = ''ACTION'' then (case raw of GBool b \<Rightarrow> Some raw | _ \<Rightarrow> None)
      else if ty = ''INTEGER'' then
        (let n = (case number_value raw of Some x \<Rightarrow> x | None \<Rightarrow> leading_number L raw True)
         in Some (GInt (go_int L (clamp_to desc (f64_round n)))))
      else if ty = ''FLOAT'' then
        (if integral_type raw \<noteq> None then None
         else Some (GFloat (clamp_to desc (case number_value raw of Some x \<Rightarrow> x | None \<Rightarrow> leading_number L raw False))))
      else if ty = ''ENUM'' then
        (let vs = value_list desc in
         case any_str raw of
           Some s \<Rightarrow> (case index_of vs s of Some i \<Rightarrow> Some (GInt (int i)) | None \<Rightarrow> None)
         | None \<Rightarrow> (case integral_value L raw of
                      None \<Rightarrow> None
                    | Some n \<Rightarrow> Some (GInt (if vs = [] then n else max 0 (min n (int (length vs) - 1))))))
      else if ty = ''STRING'' then (if any_str raw \<noteq> None then Some raw else None)
      else Some raw)"

section \<open>The write\<close>

datatype master_kind = NoModel | HmIPModel | BidCosModel

definition master_model_for :: "string \<Rightarrow> master_kind" where
  "master_model_for dt =
     (let i = interface_for_type dt in
      if i = ''HmIP-RF'' then HmIPModel
      else if i = ''BidCos-RF'' \<or> i = ''BidCos-Wired'' then BidCosModel else NoModel)"

record master_run =
  mr_stored :: val_map
  mr_current :: val_map
  mr_poison :: bool
  mr_changed :: bool
  mr_accepted :: val_map
  mr_rejected :: "(string \<times> gov \<times> string) list"

definition reject :: "string \<Rightarrow> gov \<Rightarrow> string \<Rightarrow> master_run \<Rightarrow> master_run" where
  "reject n v why m = m\<lparr>mr_rejected := mr_rejected m @ [(n, v, why)]\<rparr>"

definition writeable :: "golib \<Rightarrow> val_map \<Rightarrow> bool" where
  "writeable L desc \<longleftrightarrow> (read_int L (entry_of desc ''OPERATIONS'')) AND operation_write \<noteq> 0"

definition keep_value :: "string \<Rightarrow> gov \<Rightarrow> master_run \<Rightarrow> master_run" where
  "keep_value n v m = m\<lparr>mr_stored := AList.update n v (mr_stored m), mr_current := AList.update n v (mr_current m)\<rparr>"

definition hmip_step :: "golib \<Rightarrow> val_map \<Rightarrow> string \<times> gov \<Rightarrow> master_run \<Rightarrow> master_run" where
  "hmip_step L descs e m =
     (case e of (n, v) \<Rightarrow>
        (case any_map (entry_of descs n) of
           None \<Rightarrow> reject n v ''not in the paramset description, stored''
                     (m\<lparr>mr_stored := AList.update n v (mr_stored m), mr_poison := True\<rparr>)
         | Some desc \<Rightarrow>
             if \<not> writeable L desc then reject n v ''not writeable'' m
             else (case hmip_stored_value L desc v of (w, valid) \<Rightarrow>
               let m1 = m\<lparr>mr_changed := (mr_changed m \<or> \<not> same_value (entry_of (mr_current m) n) w)\<rparr>;
                   m2 = keep_value n w (m1\<lparr>mr_accepted := AList.update n w (mr_accepted m1)\<rparr>)
               in if valid then m2 else reject n v ''not valid for this parameter, stored'' m2)))"

definition bidcos_step :: "golib \<Rightarrow> val_map \<Rightarrow> string \<times> gov \<Rightarrow> master_run \<Rightarrow> master_run" where
  "bidcos_step L descs e m =
     (case e of (n, v) \<Rightarrow>
        (case any_map (entry_of descs n) of
           None \<Rightarrow> reject n v ''not in the paramset description, dropped'' m
         | Some desc \<Rightarrow>
             if \<not> writeable L desc then reject n v ''not writeable, dropped'' m
             else (case bidcos_stored_value L desc v of
               None \<Rightarrow> reject n v ''not usable for this parameter, ignored'' m
             | Some w \<Rightarrow>
                 (let m1 = m\<lparr>mr_accepted := AList.update n w (mr_accepted m)\<rparr>
                  in if same_value (entry_of (mr_current m) n) w then m1
                     else (keep_value n w m1)\<lparr>mr_changed := True\<rparr>))))"

text \<open>A stored value the description refuses: what hmipserver cannot transfer.\<close>

definition stored_invalid :: "golib \<Rightarrow> val_map \<Rightarrow> val_map \<Rightarrow> bool" where
  "stored_invalid L descs stored \<longleftrightarrow>
     list_ex (\<lambda>(n, v). case any_map (entry_of descs n) of
        Some desc \<Rightarrow> \<not> snd (hmip_stored_value L desc v) | None \<Rightarrow> False) stored"

definition raise_config_pending :: "network \<Rightarrow> string \<Rightarrow> bool \<Rightarrow> rpc \<Rightarrow> rpc" where
  "raise_config_pending N a sticky r =
     (let ch = maintenance_channel a; key = to_upper ch;
          was = map_of (pending_sticky (store r)) key;
          stays = (sticky \<or> was = Some True);
          timers1 = (if stays then AList.delete key (pending_timers r) else pending_timers r);
          timers2 = (if \<not> stays \<and> \<not> timers_stopped r \<and> map_of timers1 key = None
                     then AList.update key (Soft a) timers1 else timers1);
          r1 = r\<lparr>store := (store r)\<lparr>pending_sticky := AList.update key stays (pending_sticky (store r))\<rparr>,
                 pending_timers := timers2\<rparr>
      in if was = None \<and> has_values_parameter key ''CONFIG_PENDING'' (store r1)
         then set_maintenance_value N ch ''CONFIG_PENDING'' (GBool True) r1 else r1)"

definition master_start :: "golib \<Rightarrow> val_map \<Rightarrow> val_map \<Rightarrow> master_run" where
  "master_start L descs stored =
     \<lparr>mr_stored = stored, mr_current = map_copy (build_defaults L descs) stored, mr_poison = False,
      mr_changed = False, mr_accepted = [], mr_rejected = []\<rparr>"

definition master_loop :: "golib \<Rightarrow> master_kind \<Rightarrow> val_map \<Rightarrow> val_map \<Rightarrow> val_map \<Rightarrow> master_run" where
  "master_loop L model descs stored ps =
     fold (if model = HmIPModel then hmip_step L descs else bidcos_step L descs) (sort_key fst ps)
       (master_start L descs stored)"

definition commit_master :: "string \<Rightarrow> master_run \<Rightarrow> store \<Rightarrow> store" where
  "commit_master up m s =
     (let kinds = (case map_of (paramsets s) up of Some k \<Rightarrow> k | None \<Rightarrow> [])
      in s\<lparr>paramsets := AList.update up (AList.update ''MASTER'' (mr_stored m) kinds) (paramsets s),
           ps_dirty := List.insert (up, ''MASTER'') (ps_dirty s),
           poisoned := (if mr_poison m then List.insert up (poisoned s) else poisoned s)\<rparr>)"

definition put_master :: "golib \<Rightarrow> network \<Rightarrow> master_kind \<Rightarrow> string \<Rightarrow> val_map \<Rightarrow> val_map \<Rightarrow> rpc \<Rightarrow> (rpc_error + unit) \<times> rpc" where
  "put_master L N model a descs ps r =
     (let up = to_upper a;
          m = master_loop L model descs (overrides up ''MASTER'' (store r)) ps;
          r1 = r\<lparr>store := commit_master up m (store r)\<rparr>;
          bad = (model = HmIPModel \<and> stored_invalid L descs (mr_stored m));
          fault = (model = HmIPModel \<and> (bad \<or> up \<in> set (poisoned (store r1))));
          r2 = (if model = HmIPModel then
                  (if bad \<and> mr_changed m then raise_config_pending N a True r1
                   else if \<not> bad then clear_config_pending N a r1 else r1)
                else if mr_changed m then raise_config_pending N a False r1 else r1);
          r3 = fold (\<lambda>(n, v). case map_of (mr_accepted m) n of Some w \<Rightarrow> hook a n w | None \<Rightarrow> id) (sort_key fst ps) r2
      in (if fault then Inl (InvalidValue a ''MASTER'') else Inr (), r3))"

text \<open>\<open>putParamset\<close> in full: the MASTER write of a modelled device goes to its model.\<close>

definition put_paramset_full :: "golib \<Rightarrow> network \<Rightarrow> string \<Rightarrow> string \<Rightarrow> val_map \<Rightarrow> bool \<Rightarrow> rpc \<Rightarrow> (rpc_error + unit) \<times> rpc" where
  "put_paramset_full L N a key ps force r =
     (if key = ''MASTER'' \<and> master_model (cfg r) then
        (case get_paramset_description a key (store r) of
           Inl e \<Rightarrow> (Inl e, r)
         | Inr descs \<Rightarrow>
             (let model = master_model_for (device_type_for_address (to_upper a) (store r))
              in if model = NoModel then put_paramset L N a key ps force r else put_master L N model a descs ps r))
      else put_paramset L N a key ps force r)"

text \<open>\<open>ConfigPending\<close> and \<open>PoisonedChannels\<close>.\<close>

definition config_pending_list :: "rpc \<Rightarrow> (string \<times> bool) list" where
  "config_pending_list r = sort_key fst (pending_sticky (store r))"

definition poisoned_channels :: "rpc \<Rightarrow> string list" where
  "poisoned_channels r = sort (poisoned (store r))"

end
