(* ===== verification/Device_Runs.thy ===== *)
theory Device_Runs
  imports Paramset_Props Client_Registry Master_Model
begin

text \<open>
  The device simulator as a whole: its operations as one datatype, the states they reach, and what
  holds in all of them. Reports and remote calls never touch the paramset store; every write goes
  through \<open>put_value\<close> or the MASTER write models, and every change of the catalogue through the
  embedded device sets.
\<close>

named_theorems frame \<open>what an operation leaves alone\<close>

section \<open>What reporting leaves alone\<close>

lemma emit_frame [simp, frame]:
  "store (emit x r) = store r" "cfg (emit x r) = cfg r" "pending_timers (emit x r) = pending_timers r"
  "timers_stopped (emit x r) = timers_stopped r" "trace (emit x r) = trace r @ [x]"
  "ramp_timers (emit x r) = ramp_timers r" "remotes (emit x r) = remotes r" "dispatchers (emit x r) = dispatchers r"
  by (simp_all add: emit_def)

lemma call_remote_frame [simp, frame]:
  "store (snd (call_remote N c m ps r)) = store r" "cfg (snd (call_remote N c m ps r)) = cfg r"
  "pending_timers (snd (call_remote N c m ps r)) = pending_timers r"
  "timers_stopped (snd (call_remote N c m ps r)) = timers_stopped r"
  "ramp_timers (snd (call_remote N c m ps r)) = ramp_timers r"
  "trace (snd (call_remote N c m ps r)) = trace r @ [Called c m ps]"
  by (simp_all add: call_remote_def Let_def)

lemma drop_remote_frame [simp, frame]:
  "store (drop_remote k c r) = store r" "cfg (drop_remote k c r) = cfg r"
  "pending_timers (drop_remote k c r) = pending_timers r" "timers_stopped (drop_remote k c r) = timers_stopped r"
  "ramp_timers (drop_remote k c r) = ramp_timers r" "trace (drop_remote k c r) = trace r"
  by (simp_all add: drop_remote_def split: option.split)

lemma send_event_frame [simp, frame]:
  "store (send_event N up k v e r) = store r" "cfg (send_event N up k v e r) = cfg r"
  "pending_timers (send_event N up k v e r) = pending_timers r"
  "timers_stopped (send_event N up k v e r) = timers_stopped r"
  "ramp_timers (send_event N up k v e r) = ramp_timers r"
  by (simp_all add: send_event_def Let_def call_remote_def split: prod.split)

lemma fold_frame: "(\<And>x r. f (g x r) = f r) \<Longrightarrow> f (fold g xs r) = f r"
  by (induction xs arbitrary: r) simp_all

lemma observe_frame [simp, frame]:
  "store (observe i up k v r) = store r" "cfg (observe i up k v r) = cfg r"
  "pending_timers (observe i up k v r) = pending_timers r" "timers_stopped (observe i up k v r) = timers_stopped r"
  "ramp_timers (observe i up k v r) = ramp_timers r"
  by (simp_all add: observe_def fold_frame)

lemma fire_event_frame [simp, frame]:
  "store (dispatch_event N t i a k v r) = store r" "cfg (dispatch_event N t i a k v r) = cfg r"
  "pending_timers (dispatch_event N t i a k v r) = pending_timers r"
  "timers_stopped (dispatch_event N t i a k v r) = timers_stopped r"
  "ramp_timers (dispatch_event N t i a k v r) = ramp_timers r"
  "store (fire_event N i a k v r) = store r" "cfg (fire_event N i a k v r) = cfg r"
  "pending_timers (fire_event N i a k v r) = pending_timers r"
  "timers_stopped (fire_event N i a k v r) = timers_stopped r"
  "ramp_timers (fire_event N i a k v r) = ramp_timers r"
  by (simp_all add: fire_event_def dispatch_event_def Let_def fold_frame)

lemma hook_frame [simp, frame]:
  "store (hook a k v r) = store r" "cfg (hook a k v r) = cfg r" "pending_timers (hook a k v r) = pending_timers r"
  "timers_stopped (hook a k v r) = timers_stopped r" "ramp_timers (hook a k v r) = ramp_timers r"
  by (simp_all add: hook_def)

section \<open>The operations\<close>

text \<open>
  One operation: a method of the interface, a timer that fires, or a delivery. Results that leave the
  state alone are not needed here and dropped.
\<close>

datatype call =
    GetParamset string string
  | GetValue string string
  | PutParamset string string val_map bool
  | SetValue string string gov bool
  | DetermineParameter string string string
  | PutLink string string val_map
  | AddLink string string
  | RemoveLink string string
  | SetLinkInfo string string string string
  | SetMetadata string string gov
  | SetUnreachable string bool
  | PendingElapsed string
  | RampElapsed string
  | SetInstallMode int bool int int string
  | GetInstallMode int
  | StartFirmware string
  | FirmwareElapsed string
  | StopTimers
  | Suppress string string bool
  | Init string string
  | ForgetClients
  | AskDevices string
  | Reannounce
  | Ping string
  | DeliverBatch string nat
  | AddDevices "device_set list"
  | DeleteDevice string
  | RemoveDevices "string list option"
  | ReplaceDevice string string
  | ReaddedDevice "string list"

fun apply_call :: "golib \<Rightarrow> network \<Rightarrow> call \<Rightarrow> rpc \<Rightarrow> rpc" where
  "apply_call L N (GetParamset a k) r = snd (get_paramset L a k r)"
| "apply_call L N (GetValue a k) r = snd (get_value L a k r)"
| "apply_call L N (PutParamset a k ps force) r = snd (put_paramset_full L N a k ps force r)"
| "apply_call L N (SetValue a k v force) r = snd (set_value L N a k v force r)"
| "apply_call L N (DetermineParameter a kind k) r = snd (determine_parameter L N a kind k r)"
| "apply_call L N (PutLink s p ps) r = put_link_paramset s p ps r"
| "apply_call L N (AddLink s p) r = add_link L s p r"
| "apply_call L N (RemoveLink s p) r = remove_link s p r"
| "apply_call L N (SetLinkInfo s p n d) r = snd (set_link_info s p n d r)"
| "apply_call L N (SetMetadata obj d v) r = snd (set_metadata obj d v r)"
| "apply_call L N (SetUnreachable a b) r = snd (set_device_unreachable N a b r)"
| "apply_call L N (PendingElapsed key) r = config_pending_elapsed N key r"
| "apply_call L N (RampElapsed key) r = ramp_elapsed N key r"
| "apply_call L N (SetInstallMode now on d m a) r = set_install_mode now on d m a r"
| "apply_call L N (GetInstallMode now) r = snd (get_install_mode now r)"
| "apply_call L N (StartFirmware a) r = start_firmware_update N a r"
| "apply_call L N (FirmwareElapsed a) r = firmware_elapsed N a r"
| "apply_call L N StopTimers r = stop_timers r"
| "apply_call L N (Suppress a p b) r = suppress_service_message a p b r"
| "apply_call L N (Init url iface) r = init_client url iface r"
| "apply_call L N ForgetClients r = forget_clients r"
| "apply_call L N (AskDevices key) r = ask_devices L N key r"
| "apply_call L N Reannounce r = reannounce L N r"
| "apply_call L N (Ping c) r = snd (ping N c r)"
| "apply_call L N (DeliverBatch key n) r = deliver_batch N key n r"
| "apply_call L N (AddDevices sets) r = add_devices N sets r"
| "apply_call L N (DeleteDevice a) r = delete_device_call N a r"
| "apply_call L N (RemoveDevices ts) r = remove_devices_call N ts r"
| "apply_call L N (ReplaceDevice old new) r = replace_device N old new r"
| "apply_call L N (ReaddedDevice as) r = readded_device N as r"

definition start_rpc :: "config \<Rightarrow> rpc" where
  "start_rpc c = \<lparr>cfg = c, store = empty_store, link_paramsets = [], link_info = [], metadata = [], remotes = [],
     next_client = 0, dispatchers = [], known_devices = [], suppressed = [], pending_timers = [], ramp_timers = [],
     install_until = None, install_mode = 0, install_address = [], firmware_timers = [], timers_stopped = False,
     trace = []\<rparr>"

text \<open>
  The embedded catalogue: upper-case channel addresses, and no address described in two ways. The
  simulator only ever loads sets of it.
\<close>

definition catalogue_ok :: "device_set set \<Rightarrow> bool" where
  "catalogue_ok C \<longleftrightarrow>
     (\<forall>ds \<in> C. wf_map (ds_paramsets ds) \<and> (\<forall>(a, d) \<in> set (ds_paramsets ds). to_upper a = a)) \<and>
     (\<forall>ds \<in> C. \<forall>ds' \<in> C. \<forall>a d d'. (a, d) \<in> set (ds_paramsets ds) \<longrightarrow> (a, d') \<in> set (ds_paramsets ds') \<longrightarrow> d = d')"

definition allowed :: "device_set set \<Rightarrow> call \<Rightarrow> bool" where
  "allowed C c = (case c of AddDevices sets \<Rightarrow> set sets \<subseteq> C | _ \<Rightarrow> True)"

inductive simulated :: "device_set set \<Rightarrow> golib \<Rightarrow> network \<Rightarrow> rpc \<Rightarrow> bool" for C L N where
  boot: "simulated C L N (start_rpc c)"
| call: "simulated C L N r \<Longrightarrow> allowed C c \<Longrightarrow> simulated C L N (apply_call L N c r)"

section \<open>Reads never depend on the caches\<close>

definition catalogued :: "device_set set \<Rightarrow> store \<Rightarrow> bool" where
  "catalogued C s \<longleftrightarrow> (\<forall>a d. map_of (paramset_desc s) a = Some d \<longrightarrow> (\<exists>ds \<in> C. (a, d) \<in> set (ds_paramsets ds)))"

definition stored_wf :: "store \<Rightarrow> bool" where
  "stored_wf s \<longleftrightarrow> (\<forall>up kind. wf_map (overrides up kind s))"

definition store_inv :: "device_set set \<Rightarrow> golib \<Rightarrow> store \<Rightarrow> bool" where
  "store_inv C L s \<longleftrightarrow> store_ok L s \<and> catalogued C s \<and> stored_wf s"

lemma store_invI: "store_ok L s' \<Longrightarrow> stored_wf s' \<Longrightarrow> store_inv C L s \<Longrightarrow> paramset_desc s' = paramset_desc s \<Longrightarrow>
   store_inv C L s'"
  by (simp add: store_inv_def catalogued_def)

lemma stored_wf_cong: "stored_wf s \<Longrightarrow> paramsets s' = paramsets s \<Longrightarrow> stored_wf s'"
  by (simp add: stored_wf_def overrides_def)

lemma stored_wf_put: "stored_wf s \<Longrightarrow> stored_wf (put_value up kind k v s)"
  by (simp add: stored_wf_def overrides_put_value)

lemma store_inv_shrink: "store_ok L s' \<Longrightarrow> stored_wf s' \<Longrightarrow> store_inv C L s \<Longrightarrow> map_of (paramset_desc s') \<subseteq>\<^sub>m map_of (paramset_desc s) \<Longrightarrow>
   store_inv C L s'"
  by (auto simp: store_inv_def catalogued_def map_le_def dom_def)

lemma store_inv_put [intro]: "store_inv C L s \<Longrightarrow> store_inv C L (put_value up kind k v s)"
  by (rule store_invI [of L _ C s]) (simp_all add: put_value_ok stored_wf_put store_inv_def)

lemma store_inv_frame:
  "store_inv C L s \<Longrightarrow> store_inv C L (s\<lparr>pending_sticky := x\<rparr>)"
  by (rule store_invI [of L _ C s]) (auto intro: store_ok_cong [of L s] stored_wf_cong [of s] simp: store_inv_def)

lemma read_desc: "paramset_desc (snd (read_paramset L a kind s)) = paramset_desc s"
  by (auto simp: read_paramset_def paramset_defaults_def compile_paramset_def Let_def
      split: option.splits sum.splits)

lemma read_paramsets: "paramsets (snd (read_paramset L a kind s)) = paramsets s"
  by (auto simp: read_paramset_def paramset_defaults_def compile_paramset_def Let_def
      split: option.splits sum.splits)

lemma store_inv_read: "store_inv C L s \<Longrightarrow> cached_kind kind \<Longrightarrow> store_inv C L (snd (read_paramset L a kind s))"
  by (rule store_invI [of L _ C s]) (auto simp: read_paramset_spec read_desc store_inv_def intro: stored_wf_cong [of s] read_paramsets)

abbreviation inv_of :: "device_set set \<Rightarrow> golib \<Rightarrow> rpc \<Rightarrow> bool" where
  "inv_of C L r \<equiv> store_inv C L (store r)"

lemma inv_get_paramset: "inv_of C L r \<Longrightarrow> inv_of C L (snd (get_paramset L a k r))"
  by (auto simp: get_paramset_def upd_store_def cached_kind_def split: prod.split dest: store_inv_read [of C L "store r" k a])

lemma snd_let_pair: "snd (case p of (x, y) \<Rightarrow> (f x, y)) = snd p"
  by (cases p) simp

lemma inv_get_value: "inv_of C L r \<Longrightarrow> inv_of C L (snd (get_value L a k r))"
  by (simp add: get_value_def snd_let_pair inv_get_paramset)

lemma inv_determine: "inv_of C L r \<Longrightarrow> inv_of C L (snd (determine_parameter L N a kind k r))"
  using inv_get_value [of C L r a] by (auto simp: determine_parameter_def Let_def split: prod.splits sum.splits)
    (metis snd_conv)+

lemma store_maintenance: "store (set_maintenance_value N ch p v r) = put_value (to_upper ch) ''VALUES'' p v (store r)"
  by (simp add: set_maintenance_value_def)

lemma inv_maintenance [intro]: "inv_of C L r \<Longrightarrow> inv_of C L (set_maintenance_value N ch p v r)"
  by (simp add: store_maintenance store_inv_put)

lemma inv_progress [intro]: "inv_of C L r \<Longrightarrow> inv_of C L (report_progress N a p n r)"
  by (simp add: report_progress_def set_value_silently_def store_inv_put)

lemma inv_unreachable: "inv_of C L r \<Longrightarrow> inv_of C L (snd (set_device_unreachable N a b r))"
  by (auto simp: set_device_unreachable_def Let_def split: sum.split)

lemma inv_notify_pending: "inv_of C L r \<Longrightarrow> inv_of C L (notify_config_pending N a r)"
  by (auto simp: notify_config_pending_def Let_def intro!: inv_maintenance)

lemma inv_clear_pending: "inv_of C L r \<Longrightarrow> inv_of C L (clear_config_pending N a r)"
  by (auto simp: clear_config_pending_def Let_def store_inv_frame intro!: inv_maintenance)

lemma inv_raise_pending: "inv_of C L r \<Longrightarrow> inv_of C L (raise_config_pending N a b r)"
  by (auto simp: raise_config_pending_def Let_def store_inv_frame intro!: inv_maintenance)

lemma inv_elapsed: "inv_of C L r \<Longrightarrow> inv_of C L (config_pending_elapsed N key r)"
  by (auto simp: config_pending_elapsed_def Let_def split: option.split pending_timer.split
      intro!: inv_maintenance inv_clear_pending)

lemma inv_notify_ramp: "inv_of C L r \<Longrightarrow> inv_of C L (notify_ramp N a w r)"
  by (auto simp: notify_ramp_def Let_def split: option.split intro!: inv_progress)

lemma inv_ramp_elapsed: "inv_of C L r \<Longrightarrow> inv_of C L (ramp_elapsed N key r)"
  by (auto simp: ramp_elapsed_def Let_def split: option.split prod.split intro!: inv_progress)

lemma inv_firmware: "inv_of C L r \<Longrightarrow> inv_of C L (advance_firmware N a i r)"
  using inv_maintenance [of C L r] by (auto simp: advance_firmware_def Let_def)

lemma inv_fold: "(\<And>x r. inv_of C L r \<Longrightarrow> inv_of C L (g x r)) \<Longrightarrow> inv_of C L r \<Longrightarrow> inv_of C L (fold g xs r)"
  by (induction xs arbitrary: r) simp_all

subsection \<open>Writes\<close>

lemma put_values_desc: "paramset_desc (fold (\<lambda>(k, v) s. put_value up kind k v s) kvs s) = paramset_desc s"
  by (rule fold_frame) (simp split: prod.split)

lemma put_loop_desc:
  "paramset_desc (pp_store (snd (put_loop L ramped dt a kind descs force kvs p))) = paramset_desc (pp_store p)"
  by (induction L ramped dt a kind descs force kvs p rule: put_loop.induct)
    (auto simp: store_parameter_def Let_def put_values_desc split: put_step.splits)

lemma put_values_wf: "stored_wf s \<Longrightarrow> stored_wf (fold (\<lambda>(k, v) s. put_value up kind k v s) kvs s)"
  by (induction kvs arbitrary: s) (auto simp: stored_wf_put)

lemma put_loop_wf:
  "stored_wf (pp_store p) \<Longrightarrow> stored_wf (pp_store (snd (put_loop L ramped dt a kind descs force kvs p)))"
  by (induction L ramped dt a kind descs force kvs p rule: put_loop.induct)
    (auto simp: store_parameter_def Let_def put_values_wf stored_wf_put split: put_step.splits)

lemma inv_put_loop:
  "store_inv C L (pp_store p) \<Longrightarrow> store_inv C L (pp_store (snd (put_loop L ramped dt a kind descs force kvs p)))"
  by (rule store_invI [of L _ C "pp_store p"]) (simp_all add: put_loop_ok put_loop_desc put_loop_wf store_inv_def)

lemma after_put_store:
  assumes "store_inv C L (pp_store p)"
  shows "inv_of C L (after_put N a kind ps p r)"
proof -
  let ?r1 = "fold (\<lambda>(k, v). fire_event N (interface_id (cfg r)) a k v) (pp_fire p) (r\<lparr>store := pp_store p\<rparr>)"
  have "inv_of C L ?r1"
    by (rule inv_fold) (use assms in \<open>auto split: prod.splits\<close>)
  then have "inv_of C L (fold (\<lambda>(k, v). hook a k v) ps ?r1)"
    by (rule inv_fold [rotated]) (auto split: prod.splits)
  then have "inv_of C L (fold (notify_ramp N a) (pp_ramped p) (fold (\<lambda>(k, v). hook a k v) ps ?r1))"
    by (rule inv_fold [rotated]) (rule inv_notify_ramp)
  then show ?thesis by (simp add: after_put_def Let_def inv_notify_pending)
qed

lemma inv_put_paramset:
  assumes "inv_of C L r"
  shows "inv_of C L (snd (put_paramset L N a key ps force r))"
proof (cases "key \<noteq> ''MASTER'' \<and> key \<noteq> ''VALUES'' \<and> key \<noteq> ''LINK''")
  case True
  with assms show ?thesis by (simp add: put_paramset_def put_link_paramset_def)
next
  case False
  show ?thesis
  proof (cases "get_paramset_description a key (store r)")
    case (Inl e)
    with False assms show ?thesis by (auto simp: put_paramset_def)
  next
    case (Inr descs)
    obtain out p where l: "put_loop L (ramps_on (cfg r)) (device_type_for_address (to_upper a) (store r)) a key descs force ps
        \<lparr>pp_store = store r, pp_fire = [], pp_ramped = []\<rparr> = (out, p)" by fastforce
    have "store_inv C L (pp_store p)"
      using inv_put_loop [of C L "\<lparr>pp_store = store r, pp_fire = [], pp_ramped = []\<rparr>"] assms l
      by (metis put_progress.select_convs(1) snd_conv)
    with False Inr l show ?thesis
      by (cases out) (auto simp: put_paramset_def after_put_store)
  qed
qed

lemma commit_master_ok:
  assumes "store_ok L s"
  shows "store_ok L (commit_master up m s)"
proof (rule store_okI)
  let ?s = "commit_master up m s"
  have f: "paramset_desc ?s = paramset_desc s" "ps_defaults ?s = ps_defaults s" "ps_compiled ?s = ps_compiled s"
    "set (ps_dirty ?s) = insert (up, ''MASTER'') (set (ps_dirty s))"
    by (simp_all add: commit_master_def Let_def)
  have o: "(up', kind) \<noteq> (up, ''MASTER'') \<Longrightarrow> overrides up' kind ?s = overrides up' kind s" for up' kind
    by (auto simp: overrides_def commit_master_def Let_def split: option.splits)
  show "map_of (paramset_desc ?s) b = Some d \<Longrightarrow> to_upper b = b" for b d
    using store_okD(1) [OF assms] by (simp add: f)
  show "map_of (ps_defaults ?s) (up', kind) = Some d \<Longrightarrow> cached_kind kind \<and> to_upper up' = up' \<and>
      (\<exists>ps. get_paramset_description up' kind ?s = Inr ps \<and> d = build_defaults L ps)" for up' kind d
    using store_okD(2) [OF assms, of up' kind d] by (simp add: f get_description_cong [of ?s s])
  show "map_of (ps_compiled ?s) (up', kind) = Some c \<Longrightarrow> \<exists>d. map_of (ps_defaults ?s) (up', kind) = Some d \<and>
      ((up', kind) \<notin> set (ps_dirty ?s) \<longrightarrow> c = map_copy d (overrides up' kind ?s))" for up' kind c
    using store_okD(3) [OF assms, of up' kind c] o [of up' kind] by (auto simp: f)
qed

lemma commit_master_desc: "paramset_desc (commit_master up m s) = paramset_desc s"
  by (simp add: commit_master_def Let_def)

lemma hmip_step_wf: "wf_map (mr_stored m) \<Longrightarrow> wf_map (mr_stored (hmip_step L descs e m))"
  by (simp add: hmip_step_def reject_def keep_value_def Let_def split: prod.split option.split)

lemma bidcos_step_wf: "wf_map (mr_stored m) \<Longrightarrow> wf_map (mr_stored (bidcos_step L descs e m))"
  by (simp add: bidcos_step_def reject_def keep_value_def Let_def split: prod.split option.split)

lemma master_loop_wf: "wf_map stored \<Longrightarrow> wf_map (mr_stored (master_loop L model descs stored ps))"
proof -
  have "wf_map (mr_stored m) \<Longrightarrow> wf_map (mr_stored (fold (if model = HmIPModel then hmip_step L descs else bidcos_step L descs) es m))"
    for es m by (induction es arbitrary: m) (simp_all add: hmip_step_wf bidcos_step_wf)
  then show "wf_map stored \<Longrightarrow> ?thesis" by (simp add: master_loop_def master_start_def)
qed

lemma commit_overrides: "overrides up' kind (commit_master up m s) =
    (if up' = up \<and> kind = ''MASTER'' then mr_stored m else overrides up' kind s)"
  by (auto simp: overrides_def commit_master_def Let_def split: option.splits)

lemma commit_master_wf: "stored_wf s \<Longrightarrow> wf_map (mr_stored m) \<Longrightarrow> stored_wf (commit_master up m s)"
  by (simp add: stored_wf_def commit_overrides)

lemma inv_put_master:
  assumes "inv_of C L r"
  shows "inv_of C L (snd (put_master L N model a descs ps r))"
proof -
  let ?m = "master_loop L model descs (overrides (to_upper a) ''MASTER'' (store r)) ps"
  have wf: "stored_wf (store r)" using assms by (simp add: store_inv_def)
  have 1: "store_inv C L (commit_master (to_upper a)
      (master_loop L model descs (overrides (to_upper a) ''MASTER'' (store r)) ps) (store r))" for model
    by (rule store_invI [of L _ C "store r"])
      (use assms wf in \<open>simp_all add: commit_master_ok commit_master_desc store_inv_def commit_master_wf
        master_loop_wf [OF wf [unfolded stored_wf_def, rule_format]]\<close>)
  have 2: "inv_of C L (fold (\<lambda>(n, v). case map_of (mr_accepted ?m) n of Some w \<Rightarrow> hook a n w | None \<Rightarrow> id) (sort_key fst ps) r2)"
    if "inv_of C L r2" for r2
    using that by (rule inv_fold [rotated]) (auto split: prod.splits option.splits)
  show ?thesis
    unfolding put_master_def Let_def snd_conv
    by (rule 2) (auto intro!: inv_raise_pending inv_clear_pending simp: 1)
qed

lemma inv_put_full: "inv_of C L r \<Longrightarrow> inv_of C L (snd (put_paramset_full L N a key ps force r))"
  by (auto simp: put_paramset_full_def Let_def inv_put_paramset inv_put_master split: sum.split)

lemma inv_set_value: "inv_of C L r \<Longrightarrow> inv_of C L (snd (set_value L N a k v force r))"
  by (simp add: set_value_def inv_put_paramset)

subsection \<open>Clients and the catalogue\<close>

lemma inv_ask_devices: "inv_of C L r \<Longrightarrow> inv_of C L (ask_devices L N key r)"
  by (simp add: ask_devices_def Let_def reconcile_devices_def push_devices_def tell_new_def tell_gone_def tell_def
      split: option.split)

lemma inv_tell_all: "inv_of C L r \<Longrightarrow> inv_of C L (tell_all N m args r)"
  unfolding tell_all_def by (rule inv_fold) (auto split: prod.splits)

lemma inv_reannounce: "inv_of C L r \<Longrightarrow> inv_of C L (reannounce L N r)"
  unfolding reannounce_def by (rule inv_fold) (auto split: prod.splits intro!: inv_ask_devices)

lemma catalogued_fits:
  assumes "catalogue_ok C" "catalogued C s" "ds \<in> C"
  shows "set_fits s ds"
proof -
  have "map_of (paramset_desc s) a \<in> {None, Some d}" if "(a, d) \<in> set (ds_paramsets ds)" for a d
  proof (cases "map_of (paramset_desc s) a")
    case (Some d')
    with assms(2) obtain ds' where "ds' \<in> C" "(a, d') \<in> set (ds_paramsets ds')" by (auto simp: catalogued_def)
    with assms(1,3) that have "d' = d" unfolding catalogue_ok_def by blast
    with Some show ?thesis by simp
  qed simp
  with assms(1,3) show ?thesis unfolding catalogue_ok_def set_fits_def by blast
qed

lemma inv_load_set:
  assumes "catalogue_ok C" "store_inv C L (fst acc)" "ds \<in> C"
  shows "store_inv C L (fst (load_set flt ds acc))"
proof -
  have "set_fits (fst acc) ds" using catalogued_fits assms by (auto simp: store_inv_def)
  then have ok: "store_ok L (fst (load_set flt ds acc))" using load_set_ok assms(2) by (auto simp: store_inv_def)
  have "\<exists>ds' \<in> C. (a, d) \<in> set (ds_paramsets ds')" if "map_of (paramset_desc (fst (load_set flt ds acc))) a = Some d" for a d
  proof -
    from that have "map_of (paramset_desc (fst acc)) a = Some d \<or> (a, d) \<in> set (ds_paramsets ds)"
      by (auto simp: load_set_def split: prod.splits if_splits dest: map_of_SomeD)
    with assms show ?thesis by (auto simp: store_inv_def catalogued_def)
  qed
  moreover have "stored_wf (fst (load_set flt ds acc))"
    using assms(2) by (auto simp: load_set_def store_inv_def split: prod.splits intro: stored_wf_cong)
  ultimately show ?thesis using ok by (simp add: store_inv_def catalogued_def)
qed

lemma inv_load_devices:
  assumes "catalogue_ok C" "store_inv C L s" "set sets \<subseteq> C"
  shows "store_inv C L (fst (load_devices flt sets s))"
proof -
  have "store_inv C L (fst acc) \<Longrightarrow> store_inv C L (fst (fold (load_set flt) sets acc))" for acc
    using assms(1,3)
  proof (induction sets arbitrary: acc)
    case (Cons ds sets)
    from Cons.prems inv_load_set [of C L acc ds flt] show ?case unfolding fold.simps comp_apply
      by (intro Cons.IH) auto
  qed simp
  with assms(2) show ?thesis by (simp add: load_devices_def)
qed

lemma clear_desc_le: "map_of (paramset_desc (clear_address_caches a s)) \<subseteq>\<^sub>m map_of (paramset_desc s)"
  by (auto simp: clear_fields map_le_def)

lemma clear_all_desc_le: "map_of (paramset_desc (fold clear_address_caches as s)) \<subseteq>\<^sub>m map_of (paramset_desc s)"
  by (induction as arbitrary: s) (auto intro: map_le_trans clear_desc_le)

lemma stored_wf_clear: "stored_wf s \<Longrightarrow> stored_wf (fold clear_address_caches as s)"
proof (induction as arbitrary: s)
  case (Cons a as)
  have "overrides up kind (clear_address_caches a s) = (if up = a then [] else overrides up kind s)" for up kind
    by (simp add: overrides_def clear_fields)
  with Cons.prems have "stored_wf (clear_address_caches a s)" by (simp add: stored_wf_def)
  then show ?case unfolding fold.simps comp_apply by (rule Cons.IH)
qed simp

lemma drop_entries_wf: "stored_wf s \<Longrightarrow> stored_wf (fst (drop_entries P s))"
  unfolding drop_entries_def Let_def fst_conv by (rule stored_wf_cong [OF stored_wf_clear]) simp_all

lemma delete_device_wf: "stored_wf s \<Longrightarrow> stored_wf (fst (delete_device a s))"
  using drop_entries_wf [of s "belongs_to_root (to_upper a)"]
  by (auto simp: delete_device_def split: prod.splits option.splits intro: stored_wf_cong)

lemma remove_devices_wf: "stored_wf s \<Longrightarrow> stored_wf (fst (remove_devices ts s))"
proof -
  have step: "stored_wf (fst (remove_type t acc))" if "stored_wf (fst acc)" for t and acc :: "store \<times> string list"
  proof -
    obtain s as where acc: "acc = (s, as)" by (cases acc)
    with that have "stored_wf (s\<lparr>active_devices := removeAll t (active_devices s),
        supported_devices := AList.delete t (supported_devices s)\<rparr>)" by (auto intro: stored_wf_cong)
    from drop_entries_wf [OF this, of "device_matches_type t"] that show ?thesis
      by (auto simp: remove_type_def acc split: prod.splits)
  qed
  have "stored_wf (fst acc) \<Longrightarrow> stored_wf (fst (fold remove_type l acc))" for l acc
  proof (induction l arbitrary: acc)
    case (Cons t l)
    show ?case unfolding fold.simps comp_apply by (rule Cons.IH [OF step [OF Cons.prems]])
  qed simp
  from this [of "(s, [])"] show "stored_wf s \<Longrightarrow> ?thesis" by (simp add: remove_devices_def)
qed

lemma drop_entries_desc_le: "map_of (paramset_desc (fst (drop_entries P s))) \<subseteq>\<^sub>m map_of (paramset_desc s)"
  by (simp add: drop_entries_def Let_def clear_all_desc_le)

lemma delete_device_desc_le: "map_of (paramset_desc (fst (delete_device a s))) \<subseteq>\<^sub>m map_of (paramset_desc s)"
  using drop_entries_desc_le [of "belongs_to_root (to_upper a)" s]
  by (auto simp: delete_device_def split: prod.splits option.splits)

lemma remove_type_desc_le: "map_of (paramset_desc (fst (remove_type t acc))) \<subseteq>\<^sub>m map_of (paramset_desc (fst acc))"
proof -
  obtain s as where acc: "acc = (s, as)" by (cases acc)
  show ?thesis
    using drop_entries_desc_le [of "device_matches_type t" "s\<lparr>active_devices := removeAll t (active_devices s),
      supported_devices := AList.delete t (supported_devices s)\<rparr>"]
    by (auto simp: remove_type_def acc split: prod.splits)
qed

lemma remove_devices_desc_le: "map_of (paramset_desc (fst (remove_devices ts s))) \<subseteq>\<^sub>m map_of (paramset_desc s)"
proof -
  have "map_of (paramset_desc (fst (fold remove_type l acc))) \<subseteq>\<^sub>m map_of (paramset_desc (fst acc))" for l acc
  proof (induction l arbitrary: acc)
    case (Cons t l)
    show ?case unfolding fold.simps comp_apply by (rule map_le_trans [OF Cons.IH remove_type_desc_le])
  qed simp
  from this [of _ "(s, [])"] show ?thesis by (simp add: remove_devices_def)
qed

lemma inv_delete_device: "inv_of C L r \<Longrightarrow> inv_of C L (delete_device_call N a r)"
  using store_inv_shrink [of L "fst (delete_device a (store r))" C "store r"] delete_device_ok [of L "store r" a] delete_device_wf [of "store r" a]
    delete_device_desc_le [of a "store r"]
  by (auto simp: delete_device_call_def Let_def store_inv_def split: prod.split intro!: inv_tell_all [unfolded store_inv_def])

lemma inv_remove_devices: "inv_of C L r \<Longrightarrow> inv_of C L (remove_devices_call N ts r)"
  using store_inv_shrink [of L "fst (remove_devices ts (store r))" C "store r"] remove_devices_ok [of L "store r" ts] remove_devices_wf [of "store r" ts]
    remove_devices_desc_le [of ts "store r"]
  by (auto simp: remove_devices_call_def Let_def store_inv_def split: prod.split intro!: inv_tell_all [unfolded store_inv_def])

lemma inv_add_devices: "catalogue_ok C \<Longrightarrow> inv_of C L r \<Longrightarrow> set sets \<subseteq> C \<Longrightarrow> inv_of C L (add_devices N sets r)"
  using inv_load_devices [of C L "store r" sets "interface_filter (cfg r)"]
  by (auto simp: add_devices_def Let_def split: prod.splits intro!: inv_tell_all)

subsection \<open>Every operation\<close>

lemmas inv_operations = inv_get_paramset inv_get_value inv_put_full inv_set_value inv_determine inv_unreachable inv_elapsed
  inv_ramp_elapsed inv_firmware inv_ask_devices inv_reannounce inv_tell_all inv_delete_device inv_remove_devices inv_add_devices

lemma inv_deliver: "inv_of C L r \<Longrightarrow> inv_of C L (deliver_batch N key n r)"
  by (auto simp: deliver_batch_def Let_def call_remote_def split: option.split prod.split)

lemma inv_call:
  assumes "catalogue_ok C" "allowed C c" "inv_of C L r"
  shows "inv_of C L (apply_call L N c r)"
proof (cases c)
  case (AddDevices sets)
  with assms show ?thesis by (simp add: allowed_def inv_add_devices)
qed (use assms(3) in \<open>auto simp: inv_operations inv_deliver put_link_paramset_def add_link_def Let_def remove_link_def
    set_link_info_def set_metadata_def set_install_mode_def get_install_mode_def start_firmware_update_def
    firmware_elapsed_def stop_timers_def suppress_service_message_def init_client_def drop_dispatcher_def
    forget_clients_def ping_def replace_device_def readded_device_def split: option.split\<close>)

lemma simulated_inv: "simulated C L N r \<Longrightarrow> catalogue_ok C \<Longrightarrow> inv_of C L r"
proof (induction rule: simulated.induct)
  case (boot c)
  show ?case by (simp add: start_rpc_def empty_store_def store_inv_def catalogued_def store_ok_def upper_catalogue_def stored_wf_def overrides_def
      defaults_fresh_def compiled_fresh_def)
next
  case (call r c)
  then show ?case by (simp add: inv_call)
qed

lemma reads_spec:
  assumes "simulated C L N r" "catalogue_ok C" "kind = ''VALUES'' \<or> kind = ''MASTER''"
  shows "fst (get_paramset L a kind r) = spec_read L a kind (store r)"
proof -
  have "store_ok L (store r)" using simulated_inv [OF assms(1,2)] by (simp add: store_inv_def)
  with assms(3) have "fst (read_paramset L a kind (store r)) = spec_read L a kind (store r)"
    by (simp add: read_paramset_spec cached_kind_def)
  with assms(3) show ?thesis by (auto simp: get_paramset_def upd_store_def split: prod.split)
qed

text \<open>C22. In every state the simulator reaches, a VALUES or MASTER paramset reads as the described defaults
  under the stored values: the two caches and their invalidation never show.\<close>

theorem reads_ignore_caches:
  assumes "simulated C L N r" "catalogue_ok C" "kind = ''VALUES'' \<or> kind = ''MASTER''"
  shows "fst (get_paramset L a kind r) = spec_read L a kind (store r)"
  using assms by (rule reads_spec)

section \<open>A concrete simulator\<close>

text \<open>One dimmer with a maintenance channel, loaded into a simulator that one observer watches.\<close>

definition demo_lib :: golib where
  "demo_lib = \<lparr>scan_float = \<lambda>s. None, parse_float = \<lambda>s. None, sprint = \<lambda>v. [], wide_int = \<lambda>x. 0, iter_order = \<lambda>m. m\<rparr>"

definition demo_net :: network where
  "demo_net = \<lparr>call_fails = \<lambda>t. False, answer = \<lambda>t. None\<rparr>"

definition demo_config :: config where
  "demo_config = \<lparr>version = [], interface_id = ''HmIP-RF'', interface_filter = [], observers = 1, has_hook = True,
     batch_events = False, service_messages = False, init_semantics = False, ramps_on = True, reachability_on = True,
     lifecycle_on = True, master_model = True, quirks_on = False, service_messages_fault = False\<rparr>"

definition demo_level :: val_map where
  "demo_level = [(''TYPE'', GStr ''FLOAT''), (''OPERATIONS'', GInt 7), (''FLAGS'', GInt 1), (''MIN'', GFloat (Fin 0)),
     (''MAX'', GFloat (Fin 1)), (''DEFAULT'', GFloat (Fin 0))]"

definition demo_flag :: val_map where
  "demo_flag = [(''TYPE'', GStr ''BOOL''), (''OPERATIONS'', GInt 5), (''FLAGS'', GInt 1), (''DEFAULT'', GBool False)]"

definition demo_set :: device_set where
  "demo_set = \<lparr>ds_devices =
       [[(''ADDRESS'', GStr ''VCU1''), (''TYPE'', GStr ''HmIP-BDT''), (''CHILDREN'', GList [GStr ''VCU1:0'', GStr ''VCU1:1''])],
        [(''ADDRESS'', GStr ''VCU1:0''), (''TYPE'', GStr ''MAINTENANCE''), (''PARENT_TYPE'', GStr ''HmIP-BDT'')],
        [(''ADDRESS'', GStr ''VCU1:1''), (''TYPE'', GStr ''DIMMER''), (''PARENT_TYPE'', GStr ''HmIP-BDT'')]],
     ds_paramsets =
       [(''VCU1:0'', [(''VALUES'', GMap [(''CONFIG_PENDING'', GMap demo_flag)])]),
        (''VCU1:1'', [(''VALUES'', GMap [(''LEVEL'', GMap demo_level)]), (''MASTER'', GMap [(''RAMP'', GMap demo_level)])])],
     ds_root = ''VCU1'', ds_type = ''HmIP-BDT''\<rparr>"

definition demo_rpc :: rpc where
  "demo_rpc = apply_call demo_lib demo_net (AddDevices [demo_set]) (start_rpc demo_config)"

lemma demo_catalogue: "catalogue_ok {demo_set}"
  by (simp add: catalogue_ok_def demo_set_def wf_map_def to_upper_def up_char_def)

lemma demo_simulated: "simulated {demo_set} demo_lib demo_net demo_rpc"
  unfolding demo_rpc_def by (intro simulated.intros) (simp add: allowed_def)

lemma demo_iteration: "iter_order demo_lib m = m"
  by (simp add: demo_lib_def)

lemmas upper_eval = to_upper_def up_char_def char_of_eq_iff

definition demo_store :: store where
  "demo_store = empty_store\<lparr>devices := ds_devices demo_set,
     device_by_address := zip [''VCU1'', ''VCU1:0'', ''VCU1:1''] (ds_devices demo_set),
     paramset_desc := ds_paramsets demo_set, supported_devices := [(''HmIP-BDT'', ''VCU1'')], active_devices := [''HmIP-BDT'']\<rparr>"

lemma demo_rpc_eq: "demo_rpc = (start_rpc demo_config)\<lparr>store := demo_store\<rparr>"
  by (simp add: demo_rpc_def demo_store_def add_devices_def load_devices_def load_set_def start_rpc_def tell_all_def
      demo_config_def demo_set_def upper_eval Let_def map_copy_def interface_for_type_def index_device_def text_of_def entry_of_def
      empty_store_def)

lemmas demo_values = demo_rpc_eq demo_store_def demo_set_def demo_config_def start_rpc_def empty_store_def text_of_def entry_of_def

lemma demo_upper:
  "to_upper ''vcu1:1'' = ''VCU1:1''" "to_upper ''VCU1:1'' = ''VCU1:1''" "to_upper ''vcu1'' = ''VCU1''" "to_upper ''VCU1'' = ''VCU1''"
  "to_upper ''VCU1:0'' = ''VCU1:0''"
  by (simp_all add: upper_eval)

lemma demo_description:
  "get_paramset_description ''VCU1:1'' ''VALUES'' (store demo_rpc) = Inr [(''LEVEL'', GMap demo_level)]"
  by (simp add: demo_values get_paramset_description_def description_of_def demo_upper)

lemma demo_description_lower:
  "get_paramset_description ''vcu1:1'' ''VALUES'' (store demo_rpc) = Inr [(''LEVEL'', GMap demo_level)]"
  by (simp add: demo_values get_paramset_description_def description_of_def demo_upper)

lemma reads_ignore_caches_witness:
  "fst (get_paramset demo_lib ''vcu1:1'' ''VALUES'' (snd (get_value demo_lib ''VCU1:1'' ''LEVEL'' demo_rpc))) =
     Inr [(''LEVEL'', GFloat (Fin 0))]"
proof -
  let ?r = "snd (get_value demo_lib ''VCU1:1'' ''LEVEL'' demo_rpc)"
  have "simulated {demo_set} demo_lib demo_net ?r"
    using simulated.call [OF demo_simulated, of "GetValue ''VCU1:1'' ''LEVEL''"] by (simp add: allowed_def)
  from reads_ignore_caches [OF this demo_catalogue, of "''VALUES''" "''vcu1:1''"]
  have "fst (get_paramset demo_lib ''vcu1:1'' ''VALUES'' ?r) = spec_read demo_lib ''vcu1:1'' ''VALUES'' (store ?r)" by simp
  also have "store ?r = snd (read_paramset demo_lib ''VCU1:1'' ''VALUES'' (store demo_rpc))"
    by (simp add: get_value_def get_paramset_def upd_store_def case_prod_unfold)
  also have "spec_read demo_lib ''vcu1:1'' ''VALUES'' \<dots> = Inr [(''LEVEL'', GFloat (Fin 0))]"
    by (simp add: spec_read_def overrides_def read_paramsets get_description_cong [OF read_desc] demo_upper demo_description_lower)
      (simp add: demo_values build_defaults_def default_of_def demo_level_def map_copy_def flag_internal_def Let_def)
  finally show ?thesis .
qed

end
