(* ===== verification/Write_Props.thy ===== *)
theory Write_Props
  imports Device_Runs
begin

text \<open>
  What a write does: the value its parameter accepts is read back and nothing on other channels
  changes, accepted values obey the description, a write that fails says why, and the writes of the
  two MASTER models.
\<close>

section \<open>One parameter\<close>

text \<open>Go iterates a map in some order: the entries are the same.\<close>

definition iteration_ok :: "golib \<Rightarrow> bool" where
  "iteration_ok L \<longleftrightarrow> (\<forall>m. mset (iter_order L m) = mset m)"

lemma fold_put_overrides:
  "overrides up' kind' (fold (\<lambda>(k, v) s. put_value up kind k v s) kvs s) =
     (if up' = up \<and> kind' = kind then map_copy (overrides up kind s) kvs else overrides up' kind' s)"
  by (induction kvs arbitrary: s) (auto simp: overrides_put_value map_copy_def)

lemma map_copy_keeps:
  "map_of dst k = Some v \<Longrightarrow> (\<And>v'. (k, v') \<in> set src \<Longrightarrow> v' = v) \<Longrightarrow> map_of (map_copy dst src) k = Some v"
  by (induction src arbitrary: dst) (auto simp: map_copy_def split: if_splits)

lemma follow_ups_trigger:
  assumes "iteration_ok L" "(k, v') \<in> set (follow_ups L ramped dt k v current)"
  shows "v' = v"
proof -
  let ?r = "compute_events dt k v current"
  have t: "wf_map ?r" "map_of ?r k \<in> {None, Some v}"
    using compute_events_trigger [of k dt v current] by (simp_all add: keeps_trigger_def)
  have "set (iter_order L m) = set m" for m
    using assms(1) unfolding iteration_ok_def by (metis set_mset_mset)
  with assms(2) have "(k, v') \<in> set ?r"
    by (auto simp: follow_ups_def Let_def AList.delete_eq split: if_splits option.splits)
  with t show ?thesis by (auto simp: wf_map_def)
qed

lemma store_parameter_overrides:
  assumes "iteration_ok L"
  shows "map_of (overrides up kind (pp_store (store_parameter L ramped dt up kind k v p))) k = Some v"
    and "(up', kind') \<noteq> (up, kind) \<Longrightarrow>
      overrides up' kind' (pp_store (store_parameter L ramped dt up kind k v p)) = overrides up' kind' (pp_store p)"
  by (auto simp: store_parameter_def Let_def fold_put_overrides overrides_put_value simp del: map_of_map_copy
      intro!: map_copy_keeps dest: follow_ups_trigger [OF assms])

lemma ramp_progress: "map_of ramp_parameters k = Some p \<Longrightarrow> p = ''ACTIVITY_STATE'' \<and> k \<noteq> p"
  by (auto simp: ramp_parameters_def split: if_splits)

lemma notify_ramp_overrides:
  "k = rw_key w \<Longrightarrow> map_of (overrides up kind (store (notify_ramp N a w r))) k = map_of (overrides up kind (store r)) k"
  "(up, kind) \<noteq> (to_upper a, ''VALUES'') \<Longrightarrow> overrides up kind (store (notify_ramp N a w r)) = overrides up kind (store r)"
  by (auto simp: notify_ramp_def Let_def report_progress_def set_value_silently_def overrides_put_value
      split: option.split dest!: ramp_progress)

lemma fold_store_frame: "(\<And>x r. store (g x r) = store r) \<Longrightarrow> store (fold g xs r) = store r"
  by (rule fold_frame)

lemma after_put_overrides:
  assumes "kind = ''VALUES''" "pp_ramped p = [w]" "k = rw_key w"
  shows "map_of (overrides up kind' (store (after_put N a kind ps p r))) k = map_of (overrides up kind' (pp_store p)) k"
    and "(up, kind') \<noteq> (to_upper a, ''VALUES'') \<Longrightarrow>
      overrides up kind' (store (after_put N a kind ps p r)) = overrides up kind' (pp_store p)"
  using assms
  by (auto simp: after_put_def Let_def notify_ramp_overrides fold_store_frame split: prod.split)

lemma store_parameter_desc: "paramset_desc (pp_store (store_parameter L ramped dt up kind k v p)) = paramset_desc (pp_store p)"
  by (simp add: store_parameter_def Let_def put_values_desc)

lemma after_put_desc: "paramset_desc (store (after_put N a ''VALUES'' ps p r)) = paramset_desc (pp_store p)"
proof -
  have "paramset_desc (store (notify_ramp N a w r)) = paramset_desc (store r)" for w r
    by (simp add: notify_ramp_def Let_def report_progress_def set_value_silently_def split: option.split)
  then have "paramset_desc (store (fold (notify_ramp N a) ws r)) = paramset_desc (store r)" for ws r
    by (rule fold_frame)
  then show ?thesis by (simp add: after_put_def Let_def fold_store_frame split: prod.split)
qed

lemma single_write:
  assumes "get_paramset_description a ''VALUES'' (store r) = Inr descs" "put_decision L a descs force k v = StepStored w"
    "iteration_ok L"
  shows "fst (put_paramset L N a ''VALUES'' [(k, v)] force r) = Inr ()"
    and "map_of (overrides (to_upper a) ''VALUES'' (store (snd (put_paramset L N a ''VALUES'' [(k, v)] force r)))) k = Some w"
    and "(up, kind) \<noteq> (to_upper a, ''VALUES'') \<Longrightarrow>
      overrides up kind (store (snd (put_paramset L N a ''VALUES'' [(k, v)] force r))) = overrides up kind (store r)"
    and "paramset_desc (store (snd (put_paramset L N a ''VALUES'' [(k, v)] force r))) = paramset_desc (store r)"
proof -
  let ?dt = "device_type_for_address (to_upper a) (store r)"
  let ?p = "store_parameter L (ramps_on (cfg r)) ?dt (to_upper a) ''VALUES'' k w \<lparr>pp_store = store r, pp_fire = [], pp_ramped = []\<rparr>"
  have put: "put_paramset L N a ''VALUES'' [(k, v)] force r = (Inr (), after_put N a ''VALUES'' [(k, v)] ?p r)"
    using assms(1,2) by (simp add: put_paramset_def)
  obtain q where q: "pp_ramped ?p = [q]" "rw_key q = k" by (auto simp: store_parameter_def Let_def)
  note after = after_put_overrides [OF refl q(1) q(2) [symmetric]]
  show "fst (put_paramset L N a ''VALUES'' [(k, v)] force r) = Inr ()" by (simp add: put)
  show "map_of (overrides (to_upper a) ''VALUES'' (store (snd (put_paramset L N a ''VALUES'' [(k, v)] force r)))) k = Some w"
    by (simp add: put after store_parameter_overrides [OF assms(3)])
  show "(up, kind) \<noteq> (to_upper a, ''VALUES'') \<Longrightarrow>
      overrides up kind (store (snd (put_paramset L N a ''VALUES'' [(k, v)] force r))) = overrides up kind (store r)"
    by (simp add: put after store_parameter_overrides [OF assms(3)])
  show "paramset_desc (store (snd (put_paramset L N a ''VALUES'' [(k, v)] force r))) = paramset_desc (store r)"
    by (simp add: put after_put_desc store_parameter_desc)
qed

lemma get_value_spec:
  assumes "simulated C L N r" "catalogue_ok C" "get_paramset_description a ''VALUES'' (store r) = Inr ps"
    "map_of (overrides (to_upper a) ''VALUES'' (store r)) k = Some w"
  shows "fst (get_value L a k r) = Inr w"
proof -
  have "wf_map (overrides (to_upper a) ''VALUES'' (store r))"
    using simulated_inv [OF assms(1,2)] by (simp add: store_inv_def stored_wf_def)
  with reads_spec [OF assms(1,2), of "''VALUES''" a] assms(3,4) show ?thesis
    by (cases "get_paramset L a ''VALUES'' r") (simp add: get_value_def spec_read_def map_copy_lookup del: map_of_map_copy)
qed

text \<open>C23. Writing one value of a channel: where its parameter accepts it, every later read of it, in whatever
  case the address is written, gives the accepted value, and no other channel or paramset changes.\<close>

theorem write_read_back:
  assumes run: "simulated C L N r" "catalogue_ok C" "iteration_ok L" and plain: "\<not> is_convertable k"
    and descs: "get_paramset_description a ''VALUES'' (store r) = Inr descs"
    and accepted: "put_decision L a descs force k v = StepStored w"
    and r': "set_value L N a k v force r = (res, r')"
  shows "res = Inr () \<and>
    (\<forall>b. to_upper b = to_upper a \<longrightarrow> fst (get_value L b k r') = Inr w) \<and>
    (\<forall>b kind. (to_upper b, kind) \<noteq> (to_upper a, ''VALUES'') \<and> (kind = ''VALUES'' \<or> kind = ''MASTER'') \<longrightarrow>
      fst (get_paramset L b kind r') = fst (get_paramset L b kind r))"
proof -
  note w = single_write [OF descs accepted run(3), where N = N]
  have put: "res = fst (put_paramset L N a ''VALUES'' [(k, v)] force r)" "r' = snd (put_paramset L N a ''VALUES'' [(k, v)] force r)"
    using r' plain by (simp_all add: set_value_def)
  have sim: "simulated C L N r'"
    using simulated.call [OF run(1), of "SetValue a k v force"] r' by (simp add: allowed_def)
  have up: "upper_catalogue (store r)" using simulated_inv [OF run(1,2)] by (simp add: store_inv_def store_ok_def)
  have desc: "get_paramset_description b kind (store r') = get_paramset_description b kind (store r)" for b kind
    by (rule get_description_cong) (simp add: put w)
  have read: "fst (get_value L b k r') = Inr w" if "to_upper b = to_upper a" for b
  proof (rule get_value_spec [OF sim run(2)])
    show "get_paramset_description b ''VALUES'' (store r') = Inr descs"
      using descs that get_description_upper [OF up, of a] get_description_upper [OF up, of b] by (simp add: desc)
    show "map_of (overrides (to_upper b) ''VALUES'' (store r')) k = Some w" by (simp add: that put w)
  qed
  have other: "fst (get_paramset L b kind r') = fst (get_paramset L b kind r)"
    if "(to_upper b, kind) \<noteq> (to_upper a, ''VALUES'')" "kind = ''VALUES'' \<or> kind = ''MASTER''" for b kind
    unfolding reads_spec [OF sim run(2) that(2)] reads_spec [OF run(1,2) that(2)] spec_read_def desc
    by (simp add: put w(3) [OF that(1)])
  show ?thesis using read other by (auto simp: put w)
qed

lemma write_read_back_witness:
  "fst (get_value demo_lib ''vcu1:1'' ''LEVEL''
     (snd (set_value demo_lib demo_net ''VCU1:1'' ''LEVEL'' (GFloat (Fin 2)) False demo_rpc))) = Inr (GFloat (Fin 1))"
proof -
  have "put_decision demo_lib ''VCU1:1'' [(''LEVEL'', GMap demo_level)] False ''LEVEL'' (GFloat (Fin 2)) =
      StepStored (GFloat (Fin 1))"
    by (simp add: put_decision_def accepted_value_def convert_param_value_def clamp_numeric_def clamp_range_def special_values_def
        demo_level_def entry_of_def text_of_def operation_write_def Let_def)
  from write_read_back [OF demo_simulated demo_catalogue _ _ demo_description this prod.collapse [symmetric]]
  show ?thesis using demo_upper by (simp add: iteration_ok_def demo_iteration is_convertable_def convertable_parameters_def)
qed

section \<open>Accepted values\<close>


lemma f64_of_int_small: "\<bar>n\<bar> < 2 ^ 53 \<Longrightarrow> f64_of_int n = Fin (of_int n)"
  unfolding f64_of_int_def by (intro round_representable representable_intI [of _ n 0]) simp_all








text \<open>A parameter with the bounds the catalogue gives it, float64 numbers.\<close>

definition demo_steps :: val_map where
  "demo_steps = [(''TYPE'', GStr ''INTEGER''), (''MIN'', GFloat (Fin 5)), (''MAX'', GFloat (Fin 30)), (''OPERATIONS'', GInt 7)]"

definition demo_mode :: val_map where
  "demo_mode = [(''TYPE'', GStr ''ENUM''), (''MIN'', GFloat (Fin 0)), (''MAX'', GFloat (Fin 1)), (''OPERATIONS'', GInt 5)]"

definition demo_channel :: rpc where
  "demo_channel = demo_rpc\<lparr>store := (store demo_rpc)\<lparr>paramset_desc :=
     [(''VCU1:1'', [(''VALUES'', GMap [(''STEPS'', GMap demo_steps), (''MODE'', GMap demo_mode)])])]\<rparr>\<rparr>"

lemma demo_channel_descs:
  "get_paramset_description ''VCU1:1'' ''VALUES'' (store demo_channel) = Inr [(''STEPS'', GMap demo_steps), (''MODE'', GMap demo_mode)]"
  by (simp add: demo_channel_def get_paramset_description_def description_of_def demo_upper entry_of_def)


section \<open>A write that fails\<close>

text \<open>The index an ENUM write means: of a label, or the number itself.\<close>

definition enum_choice :: "golib \<Rightarrow> val_map \<Rightarrow> gov \<Rightarrow> int option" where
  "enum_choice L desc v =
     (case any_str v of
        Some s \<Rightarrow> map_option (\<lambda>i. go_int L (f64_of_int (int i))) (enum_label_index s desc)
      | None \<Rightarrow> Some (go_int L (to_float L v)))"

definition enum_refused :: "golib \<Rightarrow> val_map \<Rightarrow> gov \<Rightarrow> bool" where
  "enum_refused L desc v \<longleftrightarrow>
     text_of desc ''TYPE'' = ''ENUM'' \<and>
     (case enum_choice L desc v of None \<Rightarrow> True | Some i \<Rightarrow> \<not> enum_in_bounds L (GInt i) desc)"

lemma accepted_fails_iff: "accepted_value L a k desc v = Inl e \<longleftrightarrow> enum_refused L desc v \<and> e = InvalidValue a k"
  by (auto simp: accepted_value_def enum_refused_def enum_choice_def convert_param_value_def Let_def split: option.splits)

lemma step_error_iff: "(case x of Inl e \<Rightarrow> StepError e | Inr c \<Rightarrow> StepStored c) = StepError e \<longleftrightarrow> x = Inl e"
  by (cases x) auto

lemma decision_fails_iff:
  "put_decision L a descs force k v = StepError e \<longleftrightarrow>
     any_map (entry_of descs k) = None \<and> e = NotDescribed a k \<or>
     (\<exists>desc. any_map (entry_of descs k) = Some desc \<and>
       (\<not> force \<and> \<not> writeable L desc \<and> e = WriteNotAllowed a k \<or>
        (force \<or> writeable L desc) \<and> enum_refused L desc v \<and> e = InvalidValue a k))"
  by (auto simp: put_decision_def writeable_def step_error_iff accepted_fails_iff split: option.splits)
    (auto simp: enum_refused_def)

text \<open>Every way a write of one value can fail; and then nothing has happened.\<close>

lemma set_value_fails_iff:
  assumes "\<not> is_convertable k"
  shows "fst (set_value L N a k v force r) = Inl e \<longleftrightarrow>
      description_of (store r) a = None \<and> e = UnknownDevice a \<or>
      (\<exists>d. description_of (store r) a = Some d \<and> any_map (entry_of d ''VALUES'') = None \<and> e = UnknownParamset a ''VALUES'') \<or>
      (\<exists>descs. get_paramset_description a ''VALUES'' (store r) = Inr descs \<and> put_decision L a descs force k v = StepError e)"
    and "fst (set_value L N a k v force r) = Inl e \<Longrightarrow> snd (set_value L N a k v force r) = r"
  using assms
  by (auto simp: set_value_def put_paramset_def get_paramset_description_def split: option.splits put_step.splits)

text \<open>C25. With the fault catalogue on, a write to a parameter that is described and writeable, or forced,
  fails exactly when the device is unknown (fault \<open>-2\<close>), the channel has no such paramset (\<open>-3\<close>) or an
  ENUM cannot take the value (\<open>-5\<close>); a forced write is never refused for being read-only. A write that
  fails has done nothing: no value, event or call.\<close>

theorem write_failures:
  assumes "\<not> is_convertable k"
    and "\<And>descs. get_paramset_description a ''VALUES'' (store r) = Inr descs \<Longrightarrow>
      \<exists>desc. any_map (entry_of descs k) = Some desc \<and> (force \<or> writeable L desc)"
  shows "(fst (set_value L N a k v force r) = Inl e \<longleftrightarrow>
      description_of (store r) a = None \<and> e = UnknownDevice a \<and> fault_from_err True e = - 2 \<or>
      (\<exists>d. description_of (store r) a = Some d \<and> any_map (entry_of d ''VALUES'') = None \<and>
         e = UnknownParamset a ''VALUES'' \<and> fault_from_err True e = - 3) \<or>
      (\<exists>descs desc. get_paramset_description a ''VALUES'' (store r) = Inr descs \<and> any_map (entry_of descs k) = Some desc \<and>
         enum_refused L desc v \<and> e = InvalidValue a k \<and> fault_from_err True e = - 5)) \<and>
    (fst (set_value L N a k v force r) = Inl e \<longrightarrow> snd (set_value L N a k v force r) = r)"
proof -
  have "put_decision L a descs force k v = StepError e \<longleftrightarrow>
      (\<exists>desc. any_map (entry_of descs k) = Some desc \<and> enum_refused L desc v) \<and> e = InvalidValue a k"
    if "get_paramset_description a ''VALUES'' (store r) = Inr descs" for descs
    using assms(2) [OF that] unfolding decision_fails_iff by auto
  then show ?thesis
    using set_value_fails_iff [OF assms(1), of L N a v force r e]
    by (auto simp: fault_from_err_def fault_code_for_def)
qed

lemma write_failures_witness:
  "fst (set_value demo_lib demo_net ''VCU1:1'' ''MODE'' (GInt 7) True demo_channel) = Inl (InvalidValue ''VCU1:1'' ''MODE'') \<and>
   fst (set_value demo_lib demo_net ''VCU9:1'' ''MODE'' (GInt 0) True demo_channel) = Inl (UnknownDevice ''VCU9:1'')"
proof -
  have none: "description_of (store demo_channel) ''VCU9:1'' = None"
    by (simp add: description_of_def demo_channel_def upper_eval)
  have refused: "enum_refused demo_lib demo_mode (GInt 7)"
    by (simp add: enum_refused_def enum_choice_def enum_in_bounds_def demo_mode_def text_of_def entry_of_def
        f64_of_int_small trunc_rat_def in_int64_def)
  have plain: "\<not> is_convertable ''MODE''" by (simp add: is_convertable_def convertable_parameters_def)
  have mode: "any_map (entry_of [(''STEPS'', GMap demo_steps), (''MODE'', GMap demo_mode)] ''MODE'') = Some demo_mode"
    by (simp add: entry_of_def)
  have "fst (set_value demo_lib demo_net ''VCU1:1'' ''MODE'' (GInt 7) True demo_channel) = Inl (InvalidValue ''VCU1:1'' ''MODE'')"
    using write_failures [OF plain, of "''VCU1:1''" demo_channel True demo_lib demo_net "GInt 7" "InvalidValue ''VCU1:1'' ''MODE''"]
      refused mode by (simp add: demo_channel_descs fault_from_err_def fault_code_for_def)
  moreover have "fst (set_value demo_lib demo_net ''VCU9:1'' ''MODE'' (GInt 0) True demo_channel) = Inl (UnknownDevice ''VCU9:1'')"
    using write_failures [OF plain, of "''VCU9:1''" demo_channel True demo_lib demo_net "GInt 0" "UnknownDevice ''VCU9:1''"]
      none by (simp add: get_paramset_description_def fault_from_err_def fault_code_for_def)
  ultimately show ?thesis ..
qed

text \<open>With several parameters the part before the failing one is stored, and no event reports it.\<close>

lemma partial_write_stays:
  "case put_paramset demo_lib demo_net ''VCU1:1'' ''VALUES'' [(''LEVEL'', GFloat (Fin 1)), (''NOPE'', GInt 1)] False demo_rpc of
     (res, r) \<Rightarrow> res = Inl (NotDescribed ''VCU1:1'' ''NOPE'') \<and>
       fst (get_value demo_lib ''VCU1:1'' ''LEVEL'' r) = Inr (GFloat (Fin 1)) \<and> trace r = trace demo_rpc"
proof -
  let ?ps = "[(''LEVEL'', GFloat (Fin 1)), (''NOPE'', GInt 1)]"
  define p where "p = store_parameter demo_lib (ramps_on (cfg demo_rpc)) (device_type_for_address ''VCU1:1'' (store demo_rpc)) ''VCU1:1''
    ''VALUES'' ''LEVEL'' (GFloat (Fin 1)) \<lparr>pp_store = store demo_rpc, pp_fire = [], pp_ramped = []\<rparr>"
  let ?r = "demo_rpc\<lparr>store := pp_store p\<rparr>"
  have "put_decision demo_lib ''VCU1:1'' [(''LEVEL'', GMap demo_level)] False ''LEVEL'' (GFloat (Fin 1)) = StepStored (GFloat (Fin 1))"
    and "put_decision demo_lib ''VCU1:1'' [(''LEVEL'', GMap demo_level)] False ''NOPE'' (GInt 1) = StepError (NotDescribed ''VCU1:1'' ''NOPE'')"
    by (simp_all add: put_decision_def accepted_value_def convert_param_value_def clamp_numeric_def clamp_range_def special_values_def
        demo_level_def entry_of_def text_of_def operation_write_def Let_def)
  then have put: "put_paramset demo_lib demo_net ''VCU1:1'' ''VALUES'' ?ps False demo_rpc = (Inl (NotDescribed ''VCU1:1'' ''NOPE''), ?r)"
    by (simp add: put_paramset_def demo_description demo_upper p_def)
  have sim: "simulated {demo_set} demo_lib demo_net ?r"
    using simulated.call [OF demo_simulated, of "PutParamset ''VCU1:1'' ''VALUES'' ?ps False"] put
    by (simp add: allowed_def put_paramset_full_def)
  have "get_paramset_description ''VCU1:1'' ''VALUES'' (store ?r) = Inr [(''LEVEL'', GMap demo_level)]"
    using demo_description get_description_cong [of "pp_store p" "store demo_rpc"] by (simp add: p_def store_parameter_desc)
  moreover have "map_of (overrides (to_upper ''VCU1:1'') ''VALUES'' (store ?r)) ''LEVEL'' = Some (GFloat (Fin 1))"
    by (simp add: demo_upper p_def store_parameter_overrides iteration_ok_def demo_iteration)
  ultimately show ?thesis
    using get_value_spec [OF sim demo_catalogue] by (simp add: put)
qed

end
