(* ===== verification/Pending_Props.thy ===== *)
theory Pending_Props
  imports Device_Runs
begin

text \<open>
  CONFIG_PENDING and the MASTER write models. The pulse of the default path and the flag of a write model
  report edges that alternate on every channel, and what was last reported is what a client reads; an
  hmipserver write fails exactly on a stored value it cannot transfer or a poisoned channel, an rfd write never.
\<close>

section \<open>Edges\<close>

definition pending_key :: "string \<Rightarrow> string" where
  "pending_key a = to_upper (maintenance_channel a)"

text \<open>What the first observer saw of CONFIG_PENDING on a channel.\<close>

fun edge_of :: "string \<Rightarrow> report \<Rightarrow> gov list" where
  "edge_of key (Observed i iface up k v) = (if i = 0 \<and> up = key \<and> k = ''CONFIG_PENDING'' then [v] else [])"
| "edge_of key x = []"

definition edges :: "string \<Rightarrow> rpc \<Rightarrow> gov list" where
  "edges key r = concat (map (edge_of key) (trace r))"

fun alternates :: "bool \<Rightarrow> gov list \<Rightarrow> bool" where
  "alternates b [] = True"
| "alternates b (v # vs) = (v = GBool b \<and> alternates (\<not> b) vs)"

definition raised :: "gov list \<Rightarrow> bool" where
  "raised vs \<longleftrightarrow> vs \<noteq> [] \<and> last vs = GBool True"

lemma alternates_snoc: "alternates b (vs @ [v]) \<longleftrightarrow> alternates b vs \<and> v = GBool (if even (length vs) then b else \<not> b)"
  by (induction b vs rule: alternates.induct) auto

lemma alternates_raised: "alternates True vs \<Longrightarrow> raised vs \<longleftrightarrow> odd (length vs)"
  by (cases vs rule: rev_cases) (auto simp: alternates_snoc raised_def)

lemma edges_call [simp]: "edges key (snd (call_remote N c m ps r)) = edges key r"
  by (simp add: edges_def)

lemma edges_frame: "trace r' = trace r \<Longrightarrow> edges key r' = edges key r"
  by (simp add: edges_def)

lemma edges_drop [simp]: "edges key (drop_remote k c r) = edges key r"
  by (simp add: edges_def)

lemma edges_send: "edges key (send_event N up k v e r) = edges key r"
proof (cases "batch_events (cfg r)")
  case True
  then show ?thesis by (simp add: send_event_def Let_def edges_def)
next
  case False
  obtain ok r1 where c: "call_remote N (reg_client (snd e)) ''event''
      (event_params \<lparr>pe_interface = reg_interface (snd e), pe_address = up, pe_key = k, pe_value = v\<rparr>) r = (ok, r1)"
    by fastforce
  then have "edges key r1 = edges key r" by (metis edges_call snd_conv)
  with False c show ?thesis by (simp add: send_event_def Let_def)
qed

lemma edges_observe:
  "edges key (observe iface up k v r) =
     edges key r @ (if up = key \<and> k = ''CONFIG_PENDING'' \<and> 0 < observers (cfg r) then [v] else [])"
proof -
  have "edges key (fold (\<lambda>i. emit (Observed i iface up k v)) [0..<n] r) =
      edges key r @ (if up = key \<and> k = ''CONFIG_PENDING'' \<and> 0 < n then [v] else [])" for n
    by (induction n) (auto simp: edges_def)
  then show ?thesis by (simp add: observe_def)
qed

lemma edges_event:
  "edges key (fire_event N iface a k v r) =
     edges key r @ (if to_upper a = key \<and> k = ''CONFIG_PENDING'' \<and> 0 < observers (cfg r) then [v] else [])"
  by (simp add: fire_event_def dispatch_event_def Let_def edges_observe fold_frame [of "edges key", OF edges_send])

lemma edges_maintenance:
  "0 < observers (cfg r) \<Longrightarrow>
   edges key (set_maintenance_value N ch ''CONFIG_PENDING'' v r) = edges key r @ (if to_upper ch = key then [v] else [])"
  by (simp add: set_maintenance_value_def edges_event) (simp add: edges_def)

section \<open>The steps of a pending configuration\<close>

text \<open>
  A write through the default path, a write model that raises or clears the flag, a timer that fires, the end
  of all timers.
\<close>

datatype pending_op = Written string | Raised string bool | Cleared string | Elapsed string | Stopped

fun pending_step :: "network \<Rightarrow> pending_op \<Rightarrow> rpc \<Rightarrow> rpc" where
  "pending_step N (Written a) r = notify_config_pending N a r"
| "pending_step N (Raised a sticky) r = raise_config_pending N a sticky r"
| "pending_step N (Cleared a) r = clear_config_pending N a r"
| "pending_step N (Elapsed key) r = config_pending_elapsed N key r"
| "pending_step N Stopped r = stop_timers r"

text \<open>The type of a device decides whether a write model looks after its maintenance channel.\<close>

fun managed :: "(string \<Rightarrow> bool) \<Rightarrow> pending_op \<Rightarrow> bool" where
  "managed M (Written a) = (\<not> M (pending_key a))"
| "managed M (Raised a sticky) = M (pending_key a)"
| "managed M (Cleared a) = M (pending_key a)"
| "managed M op = True"

definition timer_fits :: "(string \<Rightarrow> bool) \<Rightarrow> string \<Rightarrow> pending_timer \<Rightarrow> bool" where
  "timer_fits M key t \<longleftrightarrow>
     (case t of Pulse ch \<Rightarrow> \<not> M key \<and> to_upper ch = key | Soft a \<Rightarrow> M key \<and> pending_key a = key)"

definition edge_inv :: "(string \<Rightarrow> bool) \<Rightarrow> string \<Rightarrow> rpc \<Rightarrow> bool" where
  "edge_inv M key r \<longleftrightarrow>
     alternates True (edges key r) \<and>
     (edges key r \<noteq> [] \<longrightarrow> map_of (overrides key ''VALUES'' (store r)) ''CONFIG_PENDING'' = Some (last (edges key r))) \<and>
     (if M key then (if has_values_parameter key ''CONFIG_PENDING'' (store r)
                     then raised (edges key r) \<longleftrightarrow> map_of (pending_sticky (store r)) key \<noteq> None else edges key r = [])
      else timers_stopped r \<or> (raised (edges key r) \<longleftrightarrow> map_of (pending_timers r) key \<noteq> None))"

definition pending_inv :: "(string \<Rightarrow> bool) \<Rightarrow> rpc \<Rightarrow> bool" where
  "pending_inv M r \<longleftrightarrow> 0 < observers (cfg r) \<and>
     (\<forall>key t. map_of (pending_timers r) key = Some t \<longrightarrow> timer_fits M key t) \<and> (\<forall>key. edge_inv M key r)"

lemma maintenance_fields [simp]:
  "cfg (set_maintenance_value N ch p v r) = cfg r" "pending_timers (set_maintenance_value N ch p v r) = pending_timers r"
  "timers_stopped (set_maintenance_value N ch p v r) = timers_stopped r"
  "pending_sticky (store (set_maintenance_value N ch p v r)) = pending_sticky (store r)"
  "has_values_parameter up q (store (set_maintenance_value N ch p v r)) = has_values_parameter up q (store r)"
  by (simp_all add: set_maintenance_value_def has_values_parameter_def cong: option.case_cong)

text \<open>One edge on one channel.\<close>

lemma edge_report:
  assumes "0 < observers (cfg r)" "alternates True (edges key r)" "b = (\<not> raised (edges key r))" "to_upper ch = key"
  shows "alternates True (edges key (set_maintenance_value N ch ''CONFIG_PENDING'' (GBool b) r))"
    and "raised (edges key (set_maintenance_value N ch ''CONFIG_PENDING'' (GBool b) r)) \<longleftrightarrow> b"
    and "map_of (overrides key ''VALUES'' (store (set_maintenance_value N ch ''CONFIG_PENDING'' (GBool b) r))) ''CONFIG_PENDING''
        = Some (last (edges key (set_maintenance_value N ch ''CONFIG_PENDING'' (GBool b) r)))"
  using assms alternates_raised [OF assms(2)]
  by (auto simp: edges_maintenance alternates_snoc raised_def store_maintenance overrides_put_value)

lemma edge_other:
  assumes "0 < observers (cfg r)" "to_upper ch \<noteq> key"
  shows "edges key (set_maintenance_value N ch ''CONFIG_PENDING'' v r) = edges key r"
    and "overrides key ''VALUES'' (store (set_maintenance_value N ch ''CONFIG_PENDING'' v r)) = overrides key ''VALUES'' (store r)"
  using assms by (auto simp: edges_maintenance store_maintenance overrides_put_value)

text \<open>A step changes the timers and flags of one channel and reports at most one edge there.\<close>

definition with_edge :: "network \<Rightarrow> string \<Rightarrow> bool option \<Rightarrow> rpc \<Rightarrow> rpc" where
  "with_edge N ch b r = (case b of None \<Rightarrow> r | Some b \<Rightarrow> set_maintenance_value N ch ''CONFIG_PENDING'' (GBool b) r)"

lemma with_edge_fields [simp]:
  "cfg (with_edge N ch b r) = cfg r" "pending_timers (with_edge N ch b r) = pending_timers r"
  "timers_stopped (with_edge N ch b r) = timers_stopped r"
  "pending_sticky (store (with_edge N ch b r)) = pending_sticky (store r)"
  "has_values_parameter up q (store (with_edge N ch b r)) = has_values_parameter up q (store r)"
  by (simp_all add: with_edge_def split: option.split)

lemma edge_step:
  assumes inv: "edge_inv M key r" and watched: "0 < observers (cfg r)"
    and same: "trace r1 = trace r" "cfg r1 = cfg r" "paramsets (store r1) = paramsets (store r)"
      "paramset_desc (store r1) = paramset_desc (store r)" "timers_stopped r \<Longrightarrow> timers_stopped r1"
    and off: "to_upper ch \<noteq> key \<Longrightarrow>
      (timers_stopped r1 \<or> map_of (pending_timers r1) key = map_of (pending_timers r) key) \<and>
      map_of (pending_sticky (store r1)) key = map_of (pending_sticky (store r)) key"
    and edge: "\<And>v. b = Some v \<Longrightarrow> to_upper ch = key \<Longrightarrow>
      v = (\<not> raised (edges key r)) \<and> (M key \<longrightarrow> has_values_parameter key ''CONFIG_PENDING'' (store r))"
    and new: "to_upper ch = key \<Longrightarrow>
      (if M key then has_values_parameter key ''CONFIG_PENDING'' (store r) \<longrightarrow>
         (case b of Some v \<Rightarrow> v | None \<Rightarrow> raised (edges key r)) = (map_of (pending_sticky (store r1)) key \<noteq> None)
       else timers_stopped r1 \<or>
         (case b of Some v \<Rightarrow> v | None \<Rightarrow> raised (edges key r)) = (map_of (pending_timers r1) key \<noteq> None))"
  shows "edge_inv M key (with_edge N ch b r1)"
proof -
  have e1: "edges key r1 = edges key r" by (rule edges_frame [OF same(1)])
  have o1: "overrides key ''VALUES'' (store r1) = overrides key ''VALUES'' (store r)"
    by (simp add: overrides_def same(3))
  have h1: "has_values_parameter up q (store r1) = has_values_parameter up q (store r)" for up q
    by (simp add: has_values_parameter_def same(4) cong: option.case_cong)
  have w1: "0 < observers (cfg r1)" using watched by (simp add: same(2))
  have alt: "alternates True (edges key r1)" using inv by (simp add: e1 edge_inv_def)
  show ?thesis
  proof (cases "to_upper ch = key")
    case False
    then have "edges key (with_edge N ch b r1) = edges key r"
      "overrides key ''VALUES'' (store (with_edge N ch b r1)) = overrides key ''VALUES'' (store r)"
      using edge_other [OF w1 False] by (simp_all add: with_edge_def e1 o1 split: option.split)
    with inv off [OF False] same(5) show ?thesis by (auto simp: edge_inv_def h1)
  next
    case True
    show ?thesis
    proof (cases b)
      case None
      with inv new [OF True] show ?thesis by (auto simp: with_edge_def edge_inv_def e1 o1 h1)
    next
      case (Some v)
      note v = edge [OF Some True]
      have "v = (\<not> raised (edges key r1))" using v by (simp add: e1)
      note report = edge_report [OF w1 alt this True, where N = N]
      have "if M key then v = (map_of (pending_sticky (store r1)) key \<noteq> None)
          else timers_stopped r1 \<or> v = (map_of (pending_timers r1) key \<noteq> None)"
        using new [OF True] v by (auto simp: Some split: if_splits)
      with report v show ?thesis
        by (auto simp: with_edge_def edge_inv_def h1 Some split: if_splits)
    qed
  qed
qed

lemma pending_invI:
  assumes "pending_inv M r" "cfg r1 = cfg r"
    and "\<And>key t. map_of (pending_timers r1) key = Some t \<Longrightarrow> map_of (pending_timers r) key = Some t \<or> timer_fits M key t"
    and "\<And>key. edge_inv M key (with_edge N ch b r1)"
  shows "pending_inv M (with_edge N ch b r1)"
  using assms unfolding pending_inv_def with_edge_fields by metis

lemma pending_inv_written:
  assumes inv: "pending_inv M r" and m: "\<not> M (pending_key a)"
  shows "pending_inv M (notify_config_pending N a r)"
proof (cases "reachability_on (cfg r) \<and> \<not> timers_stopped r \<and> map_of (pending_timers r) (pending_key a) = None")
  case False
  then have "notify_config_pending N a r = r" by (auto simp: notify_config_pending_def pending_key_def Let_def)
  with inv show ?thesis by simp
next
  case True
  let ?r1 = "r\<lparr>pending_timers := AList.update (pending_key a) (Pulse (maintenance_channel a)) (pending_timers r)\<rparr>"
  have r': "notify_config_pending N a r = with_edge N (maintenance_channel a) (Some True) ?r1"
    using True by (simp add: notify_config_pending_def pending_key_def Let_def with_edge_def)
  show ?thesis unfolding r'
  proof (rule pending_invI [OF inv])
    fix key
    have e: "edge_inv M key r" and w: "0 < observers (cfg r)" using inv by (simp_all add: pending_inv_def)
    show "edge_inv M key (with_edge N (maintenance_channel a) (Some True) ?r1)"
      by (rule edge_step [OF e w]) (use e True m in \<open>auto simp: pending_key_def edge_inv_def\<close>)
  qed (use m in \<open>auto simp: timer_fits_def pending_key_def split: if_splits\<close>)
qed

lemma pending_inv_raised:
  assumes inv: "pending_inv M r" and m: "M (pending_key a)"
  shows "pending_inv M (raise_config_pending N a sticky r)"
proof -
  let ?key = "pending_key a"
  let ?was = "map_of (pending_sticky (store r)) ?key"
  let ?stays = "sticky \<or> ?was = Some True"
  define timers1 where "timers1 = (if ?stays then AList.delete ?key (pending_timers r) else pending_timers r)"
  define timers2 where "timers2 = (if \<not> ?stays \<and> \<not> timers_stopped r \<and> map_of timers1 ?key = None
                     then AList.update ?key (Soft a) timers1 else timers1)"
  let ?r1 = "r\<lparr>store := (store r)\<lparr>pending_sticky := AList.update ?key ?stays (pending_sticky (store r))\<rparr>,
                 pending_timers := timers2\<rparr>"
  let ?b = "if ?was = None \<and> has_values_parameter ?key ''CONFIG_PENDING'' (store r) then Some True else None"
  have has: "has_values_parameter up q (store ?r1) = has_values_parameter up q (store r)" for up q
    by (simp add: has_values_parameter_def cong: option.case_cong)
  have r': "raise_config_pending N a sticky r = with_edge N (maintenance_channel a) ?b ?r1"
    unfolding raise_config_pending_def Let_def pending_key_def [symmetric] timers1_def [symmetric] timers2_def [symmetric] has
      with_edge_def by (simp only: if_distrib [of "case_option _ _"] option.case)
  have timers: "key \<noteq> ?key \<Longrightarrow> map_of timers2 key = map_of (pending_timers r) key"
    "map_of timers2 ?key = Some t \<Longrightarrow> map_of (pending_timers r) ?key = Some t \<or> t = Soft a" for key t
    by (auto simp: timers2_def timers1_def split: if_splits)
  show ?thesis unfolding r'
  proof (rule pending_invI [OF inv])
    fix key
    have e: "edge_inv M key r" and w: "0 < observers (cfg r)" using inv by (simp_all add: pending_inv_def)
    show "edge_inv M key (with_edge N (maintenance_channel a) ?b ?r1)"
    proof (rule edge_step [OF e w])
      assume "to_upper (maintenance_channel a) \<noteq> key"
      then show "(timers_stopped ?r1 \<or> map_of (pending_timers ?r1) key = map_of (pending_timers r) key) \<and>
          map_of (pending_sticky (store ?r1)) key = map_of (pending_sticky (store r)) key"
        using timers(1) [of key] by (simp add: pending_key_def)
    next
      fix v assume "?b = Some v" "to_upper (maintenance_channel a) = key"
      with e m show "v = (\<not> raised (edges key r)) \<and> (M key \<longrightarrow> has_values_parameter key ''CONFIG_PENDING'' (store r))"
        by (simp add: edge_inv_def pending_key_def split: if_splits)
    next
      assume "to_upper (maintenance_channel a) = key"
      with e m show "if M key then has_values_parameter key ''CONFIG_PENDING'' (store r) \<longrightarrow>
           (case ?b of Some v \<Rightarrow> v | None \<Rightarrow> raised (edges key r)) = (map_of (pending_sticky (store ?r1)) key \<noteq> None)
         else timers_stopped ?r1 \<or>
           (case ?b of Some v \<Rightarrow> v | None \<Rightarrow> raised (edges key r)) = (map_of (pending_timers ?r1) key \<noteq> None)"
        by (simp add: edge_inv_def pending_key_def)
    qed simp_all
  next
    fix key t assume "map_of (pending_timers ?r1) key = Some t"
    then show "map_of (pending_timers r) key = Some t \<or> timer_fits M key t"
      using timers(1) [of key] timers(2) [of t] m by (cases "key = ?key") (auto simp: timer_fits_def)
  qed simp
qed

lemma pending_inv_cleared:
  assumes inv: "pending_inv M r" and m: "M (pending_key a)"
  shows "pending_inv M (clear_config_pending N a r)"
proof -
  let ?key = "pending_key a"
  let ?present = "map_of (pending_sticky (store r)) ?key \<noteq> None"
  let ?r1 = "r\<lparr>store := (store r)\<lparr>pending_sticky := AList.delete ?key (pending_sticky (store r))\<rparr>,
                 pending_timers := AList.delete ?key (pending_timers r)\<rparr>"
  let ?b = "if ?present \<and> has_values_parameter ?key ''CONFIG_PENDING'' (store r) then Some False else None"
  have has: "has_values_parameter up q (store ?r1) = has_values_parameter up q (store r)" for up q
    by (simp add: has_values_parameter_def cong: option.case_cong)
  have r': "clear_config_pending N a r = with_edge N (maintenance_channel a) ?b ?r1"
    unfolding clear_config_pending_def Let_def pending_key_def [symmetric] has with_edge_def
    by (simp only: if_distrib [of "case_option _ _"] option.case)
  show ?thesis unfolding r'
  proof (rule pending_invI [OF inv])
    fix key
    have e: "edge_inv M key r" and w: "0 < observers (cfg r)" using inv by (simp_all add: pending_inv_def)
    show "edge_inv M key (with_edge N (maintenance_channel a) ?b ?r1)"
    proof (rule edge_step [OF e w])
      fix v assume "?b = Some v" "to_upper (maintenance_channel a) = key"
      with e m show "v = (\<not> raised (edges key r)) \<and> (M key \<longrightarrow> has_values_parameter key ''CONFIG_PENDING'' (store r))"
        by (simp add: edge_inv_def pending_key_def split: if_splits)
    next
      assume "to_upper (maintenance_channel a) = key"
      with e m show "if M key then has_values_parameter key ''CONFIG_PENDING'' (store r) \<longrightarrow>
           (case ?b of Some v \<Rightarrow> v | None \<Rightarrow> raised (edges key r)) = (map_of (pending_sticky (store ?r1)) key \<noteq> None)
         else timers_stopped ?r1 \<or>
           (case ?b of Some v \<Rightarrow> v | None \<Rightarrow> raised (edges key r)) = (map_of (pending_timers ?r1) key \<noteq> None)"
        by (simp add: edge_inv_def pending_key_def)
    qed (simp_all add: pending_key_def)
  qed (simp_all split: if_splits)
qed

text \<open>Timers that go without a report: of a managed channel, or all of them at once.\<close>

lemma pending_inv_quiet:
  assumes inv: "pending_inv M r" and r1: "r1 = r\<lparr>pending_timers := ts, timers_stopped := st\<rparr>"
    and timers: "\<And>key t. map_of ts key = Some t \<Longrightarrow> map_of (pending_timers r) key = Some t"
    and st: "\<And>key. M key \<or> st \<or> map_of ts key = map_of (pending_timers r) key" "timers_stopped r \<Longrightarrow> st"
  shows "pending_inv M r1"
proof -
  have "pending_inv M (with_edge N [] None r1)" for N
  proof (rule pending_invI [OF inv])
    fix key
    have "edge_inv M key r" using inv by (simp add: pending_inv_def)
    then show "edge_inv M key (with_edge N [] None r1)"
      using st(1) [of key] st(2) by (auto simp: with_edge_def edge_inv_def r1 edges_def split: if_splits)
  qed (use timers in \<open>simp_all add: r1\<close>)
  then show ?thesis by (simp add: with_edge_def)
qed

lemma pending_inv_elapsed:
  assumes inv: "pending_inv M r"
  shows "pending_inv M (config_pending_elapsed N key r)"
proof (cases "map_of (pending_timers r) key")
  case None
  with inv show ?thesis by (simp add: config_pending_elapsed_def)
next
  case (Some t)
  let ?r1 = "r\<lparr>pending_timers := AList.delete key (pending_timers r)\<rparr>"
  have fits: "timer_fits M key t" using inv Some by (simp add: pending_inv_def)
  show ?thesis
  proof (cases t)
    case (Pulse ch)
    with fits have ch: "to_upper ch = key" "\<not> M key" by (simp_all add: timer_fits_def)
    let ?b = "if timers_stopped r then None else Some False"
    have r': "config_pending_elapsed N key r = with_edge N ch ?b ?r1"
      using Some Pulse by (simp add: config_pending_elapsed_def with_edge_def Let_def)
    show ?thesis unfolding r'
    proof (rule pending_invI [OF inv])
      fix key'
      have e: "edge_inv M key' r" and w: "0 < observers (cfg r)" using inv by (simp_all add: pending_inv_def)
      show "edge_inv M key' (with_edge N ch ?b ?r1)"
        by (rule edge_step [OF e w]) (use e ch Some in \<open>auto simp: edge_inv_def split: if_splits\<close>)
    qed (simp_all split: if_splits)
  next
    case (Soft a)
    with fits have a: "pending_key a = key" "M key" by (simp_all add: timer_fits_def)
    have q: "pending_inv M ?r1"
      by (rule pending_inv_quiet [OF inv, where ts = "AList.delete key (pending_timers r)" and st = "timers_stopped r"])
        (use a in \<open>auto split: if_splits\<close>)
    with pending_inv_cleared [OF q, of a N] a Some Soft show ?thesis
      by (simp add: config_pending_elapsed_def Let_def)
  qed
qed

lemma pending_inv_step: "pending_inv M r \<Longrightarrow> managed M op \<Longrightarrow> pending_inv M (pending_step N op r)"
proof (cases op)
  case Stopped
  assume inv: "pending_inv M r"
  have "stop_timers r = (r\<lparr>pending_timers := [], timers_stopped := True\<rparr>)\<lparr>ramp_timers := [], firmware_timers := []\<rparr>"
    by (simp add: stop_timers_def)
  moreover have "pending_inv M (r\<lparr>pending_timers := [], timers_stopped := True\<rparr>)"
    by (rule pending_inv_quiet [OF inv, where ts = "[]" and st = True]) auto
  ultimately show ?thesis using Stopped
    by (simp add: pending_inv_def edge_inv_def edges_def cong: if_cong)
qed (auto simp: pending_inv_written pending_inv_raised pending_inv_cleared pending_inv_elapsed)

lemma pending_inv_run:
  "pending_inv M r \<Longrightarrow> list_all (managed M) ops \<Longrightarrow> pending_inv M (fold (pending_step N) ops r)"
  by (induction ops arbitrary: r) (simp_all add: pending_inv_step)

text \<open>Whatever writes, timers and clears come in whatever order: on every channel the CONFIG_PENDING an
  observer sees goes up first and then alternates, and the value a client reads is the one last reported.\<close>

lemma pending_edges_alternate:
  assumes "0 < observers (cfg r)" "trace r = []" "pending_timers r = []" "pending_sticky (store r) = []"
    and "list_all (managed M) ops"
  shows "alternates True (edges key (fold (pending_step N) ops r)) \<and>
    (edges key (fold (pending_step N) ops r) \<noteq> [] \<longrightarrow>
      map_of (overrides key ''VALUES'' (store (fold (pending_step N) ops r))) ''CONFIG_PENDING'' =
        Some (last (edges key (fold (pending_step N) ops r))))"
proof -
  have "pending_inv M r" using assms by (simp add: pending_inv_def edge_inv_def edges_def raised_def)
  from pending_inv_run [OF this assms(5), of N] show ?thesis by (simp add: pending_inv_def edge_inv_def)
qed

section \<open>The MASTER write models\<close>

lemma with_edge_overrides:
  "overrides up ''MASTER'' (store (with_edge N ch b r)) = overrides up ''MASTER'' (store r)"
  "poisoned (store (with_edge N ch b r)) = poisoned (store r)"
  by (simp_all add: with_edge_def store_maintenance overrides_put_value split: option.split)

lemma flag_overrides:
  "overrides up ''MASTER'' (store (raise_config_pending N a b r)) = overrides up ''MASTER'' (store r)"
  "overrides up ''MASTER'' (store (clear_config_pending N a r)) = overrides up ''MASTER'' (store r)"
  "poisoned (store (raise_config_pending N a b r)) = poisoned (store r)"
  "poisoned (store (clear_config_pending N a r)) = poisoned (store r)"
  by (simp_all add: raise_config_pending_def clear_config_pending_def Let_def store_maintenance overrides_put_value)
    (simp_all add: overrides_def)

text \<open>A parameter the description does not know.\<close>

definition unknown_parameter :: "val_map \<Rightarrow> string \<Rightarrow> bool" where
  "unknown_parameter descs n \<longleftrightarrow> any_map (entry_of descs n) = None"

lemma hmip_step_poison:
  "mr_poison (hmip_step L descs e m) \<longleftrightarrow> mr_poison m \<or> unknown_parameter descs (fst e)"
  by (auto simp: hmip_step_def unknown_parameter_def reject_def keep_value_def Let_def split: prod.splits option.splits)

lemma hmip_loop_poison:
  "mr_poison (master_loop L HmIPModel descs stored ps) \<longleftrightarrow> (\<exists>(n, v) \<in> set ps. unknown_parameter descs n)"
proof -
  have "mr_poison (fold (hmip_step L descs) es m) \<longleftrightarrow> mr_poison m \<or> (\<exists>e \<in> set es. unknown_parameter descs (fst e))" for es m
    by (induction es arbitrary: m) (auto simp: hmip_step_poison)
  from this [of "sort_key fst ps"] show ?thesis by (fastforce simp: master_loop_def master_start_def)
qed

lemma put_master_store:
  fixes L N model a descs ps r
  defines "m \<equiv> master_loop L model descs (overrides (to_upper a) ''MASTER'' (store r)) ps"
    and "r' \<equiv> snd (put_master L N model a descs ps r)"
  shows "overrides (to_upper a) ''MASTER'' (store r') = mr_stored m"
    and "poisoned (store r') = (if mr_poison m then List.insert (to_upper a) (poisoned (store r)) else poisoned (store r))"
proof -
  have h: "store (fold (\<lambda>(n, v). case map_of (mr_accepted m) n of Some w \<Rightarrow> hook a n w | None \<Rightarrow> id) es r2) = store r2" for es r2
    by (rule fold_frame) (auto split: option.split)
  have c: "overrides (to_upper a) ''MASTER'' (commit_master (to_upper a) m (store r)) = mr_stored m"
    "poisoned (commit_master (to_upper a) m (store r)) =
       (if mr_poison m then List.insert (to_upper a) (poisoned (store r)) else poisoned (store r))"
    by (simp add: commit_overrides, simp add: commit_master_def Let_def)
  show "overrides (to_upper a) ''MASTER'' (store r') = mr_stored m"
    "poisoned (store r') = (if mr_poison m then List.insert (to_upper a) (poisoned (store r)) else poisoned (store r))"
    unfolding r'_def put_master_def Let_def snd_conv m_def [symmetric] h
    by (auto simp: flag_overrides c)
qed

lemma bidcos_keys:
  "fst ` set (mr_stored (bidcos_step L descs e m)) \<subseteq> fst ` set (mr_stored m) \<union> {n. \<not> unknown_parameter descs n}"
  by (auto simp: bidcos_step_def unknown_parameter_def reject_def keep_value_def Let_def dom_update
      split: prod.splits option.splits)

lemma bidcos_poison: "mr_poison (bidcos_step L descs e m) = mr_poison m"
  by (simp add: bidcos_step_def reject_def keep_value_def Let_def split: prod.split option.split)

lemma bidcos_loop:
  "fst ` set (mr_stored (master_loop L BidCosModel descs stored ps)) \<subseteq> fst ` set stored \<union> {n. \<not> unknown_parameter descs n}"
  "\<not> mr_poison (master_loop L BidCosModel descs stored ps)"
proof -
  have "fst ` set (mr_stored (fold (bidcos_step L descs) es m)) \<subseteq> fst ` set (mr_stored m) \<union> {n. \<not> unknown_parameter descs n}
      \<and> mr_poison (fold (bidcos_step L descs) es m) = mr_poison m" for es m
  proof (induction es arbitrary: m)
    case (Cons e es)
    from Cons [of "bidcos_step L descs e m"] bidcos_keys [of L descs e m] show ?case
      unfolding fold.simps comp_apply bidcos_poison by blast
  qed simp
  from this [of "sort_key fst ps" "master_start L descs stored"]
  show "fst ` set (mr_stored (master_loop L BidCosModel descs stored ps)) \<subseteq> fst ` set stored \<union> {n. \<not> unknown_parameter descs n}"
    "\<not> mr_poison (master_loop L BidCosModel descs stored ps)"
    by (simp_all add: master_loop_def master_start_def)
qed

text \<open>C26. hmipserver fails a MASTER write exactly when the channel is poisoned or a value it now stores is not one
  its parameter can take; a name outside the description poisons the channel, and nothing else changes that. rfd never
  fails a write, never poisons, and keeps nothing under a name outside the description.\<close>

theorem master_models:
  "case (put_master L N HmIPModel a descs ps r, put_master L N BidCosModel a descs ps r) of ((hm_res, hm), (bc_res, bc)) \<Rightarrow>
     (hm_res = Inl e \<longleftrightarrow> e = InvalidValue a ''MASTER'' \<and>
        (to_upper a \<in> set (poisoned (store hm)) \<or> stored_invalid L descs (overrides (to_upper a) ''MASTER'' (store hm)))) \<and>
     set (poisoned (store hm)) = set (poisoned (store r)) \<union>
        (if \<exists>(n, v) \<in> set ps. unknown_parameter descs n then {to_upper a} else {}) \<and>
     bc_res = Inr () \<and> poisoned (store bc) = poisoned (store r) \<and>
     set (map fst (overrides (to_upper a) ''MASTER'' (store bc))) \<subseteq>
        set (map fst (overrides (to_upper a) ''MASTER'' (store r))) \<union> {n. \<not> unknown_parameter descs n}"
proof -
  define hm where "hm = put_master L N HmIPModel a descs ps r"
  define bc where "bc = put_master L N BidCosModel a descs ps r"
  have bad: "stored_invalid L descs (overrides (to_upper a) ''MASTER'' (store (snd hm))) =
      stored_invalid L descs (mr_stored (master_loop L HmIPModel descs (overrides (to_upper a) ''MASTER'' (store r)) ps))"
    by (simp add: hm_def put_master_store)
  have poisoned: "set (poisoned (store (snd hm))) = set (poisoned (store r)) \<union>
      (if \<exists>(n, v) \<in> set ps. unknown_parameter descs n then {to_upper a} else {})"
    by (simp add: hm_def put_master_store hmip_loop_poison)
  have "fst hm = Inl e \<longleftrightarrow> e = InvalidValue a ''MASTER'' \<and>
      (to_upper a \<in> set (poisoned (store (snd hm))) \<or>
       stored_invalid L descs (overrides (to_upper a) ''MASTER'' (store (snd hm))))"
    unfolding bad poisoned by (auto simp: hm_def put_master_def Let_def commit_master_def hmip_loop_poison)
  moreover have "fst bc = Inr ()" "poisoned (store (snd bc)) = poisoned (store r)"
    by (simp add: bc_def put_master_def Let_def, simp add: bc_def put_master_store bidcos_loop)
  moreover have "set (map fst (overrides (to_upper a) ''MASTER'' (store (snd bc)))) \<subseteq>
      set (map fst (overrides (to_upper a) ''MASTER'' (store r))) \<union> {n. \<not> unknown_parameter descs n}"
    using bidcos_loop(1) by (simp add: bc_def put_master_store)
  moreover obtain hr h br b where "hm = (hr, h)" "bc = (br, b)" by (meson surj_pair)
  ultimately show ?thesis using poisoned
    unfolding hm_def [symmetric] bc_def [symmetric] by (simp only: prod.case fst_conv snd_conv)
qed

end
