(* ===== verification/Client_Props.thy ===== *)
theory Client_Props
  imports Device_Runs
begin

text \<open>
  What clients are promised: after a registration a client knows exactly the devices of the simulator,
  batched events arrive in order and once, and a deleted device takes its own entries with it and no others.
\<close>

section \<open>Devices on the wire\<close>

lemma any_str_wire: "any_str (to_any (from_any v)) = any_str v"
  by (cases v) (auto split: option.split)

lemma sorted_lookup:
  assumes "distinct (map fst m)"
  shows "map_of (sort_key fst m) = map_of m"
  using distinct_fst_sort [OF assms] assms by (intro map_of_eqI) (auto dest: map_of_is_SomeI)

lemma wire_entry:
  assumes "wf_map d"
  shows "\<exists>d'. to_any (from_any (GMap d)) = GMap d' \<and> (\<forall>k. any_str (entry_of d' k) = any_str (entry_of d k))"
proof -
  let ?f = "\<lambda>(k, v). (k, from_any v)" and ?g = "\<lambda>(k, v). (k, to_any v)"
  let ?d = "map ?g (sort_key fst (map ?f d))"
  have fsts: "map fst (map ?f xs) = map fst xs" "map fst (map ?g ys) = map fst ys" for xs ys
    by (simp_all add: comp_def case_prod_unfold)
  have dist: "distinct (map fst (map ?f d))" using assms by (simp only: fsts wf_map_def)
  from distinct_fst_sort [OF this] have "distinct (map fst ?d)" by (simp only: fsts)
  then have w: "to_any (from_any (GMap d)) = GMap ?d" by (simp add: members_map_distinct)
  have "map_of ?d k = map_option (to_any \<circ> from_any) (map_of d k)" for k
    unfolding map_of_map sorted_lookup [OF dist] by (simp add: option.map_comp comp_def)
  then have "any_str (entry_of ?d k) = any_str (entry_of d k)" for k
    by (cases "map_of d k") (simp_all add: entry_of_def any_str_wire)
  with w show ?thesis by blast
qed

definition addresses :: "val_map list \<Rightarrow> string set" where
  "addresses ds = set (map address_of ds)"

text \<open>What a client makes of a call: it adds the devices it is told, and drops the addresses it is told.\<close>

fun told_strings :: "xvalue \<Rightarrow> string set" where
  "told_strings (VArray vs) = {s. VStr s \<in> set vs}"
| "told_strings v = {}"

fun client_step :: "nat \<Rightarrow> report \<Rightarrow> string set \<Rightarrow> string set" where
  "client_step c (Called c' m [i, v]) A =
     (if c' \<noteq> c then A
      else if m = ''newDevices'' then A \<union> addresses (known_of v)
      else if m = ''deleteDevices'' then A - told_strings v else A)"
| "client_step c x A = A"

lemma known_new:
  assumes "\<forall>d \<in> set ds. wf_map d"
  shows "addresses (known_of (from_any (GList (map GMap ds)))) = addresses ds"
  using assms
proof (induction ds)
  case (Cons d ds)
  obtain d' where d': "to_any (from_any (GMap d)) = GMap d'" "\<And>k. any_str (entry_of d' k) = any_str (entry_of d k)"
    using wire_entry [of d] Cons.prems by auto
  from Cons d' show ?case
    by (simp add: addresses_def address_of_def text_of_def comp_def del: from_any.simps(9))
qed (simp add: addresses_def)

lemma told_gone: "told_strings (from_any (GList (map GStr as))) = set as"
  by (auto simp: image_iff)

lemma client_new:
  assumes "\<forall>d \<in> set ds. wf_map d"
  shows "\<exists>t. trace (tell_new N reg ds r) = trace r @ t \<and> (\<forall>A. fold (client_step (reg_client reg)) t A = A \<union> addresses ds)"
proof (cases "ds = []")
  case True
  then show ?thesis by (intro exI [of _ "[]"]) (simp add: tell_new_def addresses_def)
next
  case False
  with known_new [OF assms] show ?thesis
    by (intro exI [of _ "[Called (reg_client reg) ''newDevices'' [VStr (reg_interface reg), from_any (GList (map GMap ds))]]"])
      (simp add: tell_new_def tell_def del: from_any.simps known_of.simps)
qed

lemma client_gone:
  "\<exists>t. trace (tell_gone N reg as r) = trace r @ t \<and> (\<forall>A. fold (client_step (reg_client reg)) t A = A - set as)"
proof (cases "as = []")
  case True
  then show ?thesis by (intro exI [of _ "[]"]) (simp add: tell_gone_def)
next
  case False
  then show ?thesis
    by (intro exI [of _ "[Called (reg_client reg) ''deleteDevices'' [VStr (reg_interface reg), from_any (GList (map GStr as))]]"])
      (simp add: tell_gone_def tell_def told_gone del: from_any.simps)
qed

lemma told_then:
  assumes "\<exists>t. trace r1 = trace r @ t \<and> (\<forall>A. fold (client_step c) t A = f A)"
    and "\<exists>t. trace r2 = trace r1 @ t \<and> (\<forall>A. fold (client_step c) t A = g A)"
  shows "\<exists>t. trace r2 = trace r @ t \<and> (\<forall>A. fold (client_step c) t A = g (f A))"
proof -
  from assms obtain t u where "trace r1 = trace r @ t" "\<forall>A. fold (client_step c) t A = f A"
    "trace r2 = trace r1 @ u" "\<forall>A. fold (client_step c) u A = g A" by blast
  then show ?thesis by (intro exI [of _ "t @ u"]) simp
qed

section \<open>The two device diffs\<close>

text \<open>The described addresses are those of the devices.\<close>

definition described :: "store \<Rightarrow> bool" where
  "described s \<longleftrightarrow> dom (map_of (paramset_desc s)) = addresses (devices s)"

lemma push_result:
  assumes "described s"
  shows "(addresses known \<union> addresses (push_new s known)) - set (push_gone s known) = addresses (devices s)"
proof -
  have d: "map_of (paramset_desc s) a = None \<longleftrightarrow> a \<notin> addresses (devices s)" for a
    using assms unfolding described_def by blast
  have gone: "set (push_gone s known) = addresses known - addresses (devices s)"
    unfolding push_gone_def d by (auto simp: addresses_def)
  have new: "addresses (push_new s known) = addresses (devices s) - addresses known"
    unfolding push_new_def d by (auto simp: addresses_def)
  show ?thesis unfolding gone new by blast
qed

lemma client_devices_lookup:
  "map_of (client_devices known) a = None \<longleftrightarrow> a = [] \<or> a \<notin> addresses known"
proof -
  have "map_of (fold (\<lambda>d m. if address_of d = [] then m else AList.update (address_of d) d m) known m) a = None \<longleftrightarrow>
      map_of m a = None \<and> (a = [] \<or> a \<notin> addresses known)" if "map_of m [] = None" for m
    using that by (induction known arbitrary: m) (auto simp: addresses_def)
  from this [of "[]"] show ?thesis by (simp add: client_devices_def)
qed

lemma reconcile_result:
  "((addresses known - set (reconcile_gone L s known)) \<union> addresses (reconcile_new L s known)) - {[]} = addresses (devices s) - {[]}"
proof -
  let ?changed = "{address_of d | d c. d \<in> set (devices s) \<and> map_of (client_devices known) (address_of d) = Some c \<and> resend L d c}"
  have gone: "set (reconcile_gone L s known) = ?changed \<union> (addresses known - addresses (devices s) - {[]})"
    by (auto simp: reconcile_gone_def addresses_def split: option.splits)
  have new: "addresses (reconcile_new L s known) =
      ?changed \<union> {address_of d | d. d \<in> set (devices s) \<and> map_of (client_devices known) (address_of d) = None}"
    by (auto simp: reconcile_new_def addresses_def split: option.splits)
  have "a \<in> addresses (reconcile_new L s known) \<or> a \<in> addresses known - set (reconcile_gone L s known) \<longleftrightarrow>
      a \<in> addresses (devices s)" if "a \<noteq> []" for a
  proof -
    have "(\<exists>d. a = address_of d \<and> d \<in> set (devices s) \<and> map_of (client_devices known) (address_of d) = None) \<longleftrightarrow>
        a \<in> addresses (devices s) \<and> a \<notin> addresses known"
      using that by (auto simp: client_devices_lookup addresses_def)
    moreover have "?changed \<subseteq> addresses (devices s)" by (auto simp: addresses_def)
    ultimately show ?thesis unfolding gone new using that by blast
  qed
  then show ?thesis by blast
qed

lemma asked_first:
  assumes "trace r1 = trace r @ [x]" "trace r2 = trace r1 @ t"
  shows "trace r2 = trace r @ x # t"
  using assms by simp

text \<open>The default mode pushes by the described addresses: the client ends with the devices if these are the same.\<close>

lemma push_sync:
  assumes "map_of (remotes r) key = Some reg"
    and "answer N (trace r @ [Called (reg_client reg) ''listDevices'' [VStr (reg_interface reg)]]) = Some resp"
    and "\<forall>d \<in> set (devices (store r)). wf_map d" and "\<not> init_semantics (cfg r)" and "described (store r)"
  shows "\<exists>t. trace (ask_devices L N key r) =
      trace r @ Called (reg_client reg) ''listDevices'' [VStr (reg_interface reg)] # t \<and>
    fold (client_step (reg_client reg)) t (addresses (known_of resp)) = addresses (devices (store r))"
proof -
  let ?c = "reg_client reg" and ?known = "known_of resp"
  let ?r1 = "snd (call_remote N ?c ''listDevices'' [VStr (reg_interface reg)] r)\<lparr>known_devices := ?known\<rparr>"
  have r1: "trace ?r1 = trace r @ [Called ?c ''listDevices'' [VStr (reg_interface reg)]]" "store ?r1 = store r" by simp_all
  have ask: "ask_devices L N key r = push_devices N reg ?known ?r1"
    using assms(1,2,4) by (simp add: ask_devices_def Let_def)
  have wf: "\<forall>d \<in> set (push_new (store r) ?known). wf_map d" using assms(3) by (simp add: push_new_def)
  from told_then [OF client_new [OF wf, of N reg ?r1] client_gone] push_result [OF assms(5), of ?known]
  show ?thesis unfolding ask push_devices_def r1(2) using asked_first [OF r1(1)] by metis
qed

text \<open>C27. Under init semantics (as on a real CCU), after a registration, once the client has answered
  \<open>listDevices\<close> with the devices it knows, whatever they are, and has done what it was told, it knows
  exactly the addresses of the simulator: what was missing or changed is sent, what is gone is taken back.\<close>

theorem sync_after_init:
  assumes "map_of (remotes r) key = Some reg"
    and "answer N (trace r @ [Called (reg_client reg) ''listDevices'' [VStr (reg_interface reg)]]) = Some resp"
    and "\<forall>d \<in> set (devices (store r)). wf_map d"
    and "init_semantics (cfg r)"
  shows "\<exists>t. trace (ask_devices L N key r) =
      trace r @ Called (reg_client reg) ''listDevices'' [VStr (reg_interface reg)] # t \<and>
    fold (client_step (reg_client reg)) t (addresses (known_of resp)) - {[]} = addresses (devices (store r)) - {[]}"
proof -
  let ?c = "reg_client reg" and ?known = "known_of resp"
  let ?r1 = "snd (call_remote N ?c ''listDevices'' [VStr (reg_interface reg)] r)\<lparr>known_devices := ?known\<rparr>"
  have r1: "trace ?r1 = trace r @ [Called ?c ''listDevices'' [VStr (reg_interface reg)]]" "store ?r1 = store r" by simp_all
  have ask: "ask_devices L N key r = reconcile_devices L N reg ?known ?r1"
    using assms(1,2,4) by (simp add: ask_devices_def Let_def)
  have wf: "\<forall>d \<in> set (reconcile_new L (store r) ?known). wf_map d" using assms(3) by (simp add: reconcile_new_def)
  from told_then [OF client_gone [of N reg "reconcile_gone L (store r) ?known" ?r1] client_new [OF wf]]
    reconcile_result [of ?known L "store r"]
  show ?thesis unfolding ask reconcile_devices_def r1(2) using asked_first [OF r1(1)] by metis
qed

definition demo_client :: registration where
  "demo_client = \<lparr>reg_interface = ''HmIP-RF'', reg_url = ''http://c'', reg_client = 0\<rparr>"

definition demo_registered :: rpc where
  "demo_registered = demo_rpc\<lparr>cfg := demo_config\<lparr>init_semantics := True\<rparr>, remotes := [(''http://c'', demo_client)]\<rparr>"

definition demo_answer :: xvalue where
  "demo_answer = VArray [VStruct [(''ADDRESS'', VStr ''OLD1'')]]"

definition demo_client_net :: network where
  "demo_client_net = \<lparr>call_fails = \<lambda>t. False, answer = \<lambda>t. Some demo_answer\<rparr>"

lemma sync_after_init_witness:
  "\<exists>t. trace (ask_devices demo_lib demo_client_net ''http://c'' demo_registered) =
      trace demo_registered @ Called 0 ''listDevices'' [VStr ''HmIP-RF''] # t \<and>
    fold (client_step 0) t {''OLD1''} - {[]} = {''VCU1'', ''VCU1:0'', ''VCU1:1''}"
proof -
  have facts: "addresses (known_of demo_answer) = {''OLD1''}" "reg_client demo_client = 0" "reg_interface demo_client = ''HmIP-RF''"
    "addresses (devices (store demo_registered)) - {[]} = {''VCU1'', ''VCU1:0'', ''VCU1:1''}"
    "map_of (remotes demo_registered) ''http://c'' = Some demo_client" "init_semantics (cfg demo_registered)"
    "\<forall>d \<in> set (devices (store demo_registered)). wf_map d"
    by (simp_all add: addresses_def address_of_def demo_answer_def demo_client_def demo_registered_def demo_values wf_map_def insert_commute
        members_map_def)
  have "answer demo_client_net t = Some demo_answer" for t by (simp add: demo_client_net_def)
  from sync_after_init [OF facts(5) this facts(7) facts(6), of demo_lib]
  show ?thesis unfolding facts(1-4) .
qed

section \<open>Batched events\<close>

text \<open>Events for one client, and the batches its dispatcher delivers.\<close>

datatype batch_op = Event string string gov | Batch nat

fun batch_step :: "network \<Rightarrow> string \<times> registration \<Rightarrow> batch_op \<Rightarrow> rpc \<Rightarrow> rpc" where
  "batch_step N e (Event up k v) r = send_event N up k v e r"
| "batch_step N e (Batch n) r = deliver_batch N (fst e) n r"

text \<open>The specification: a queue of at most 256 events, in which a further event is lost.\<close>

record fifo =
  f_done :: "pending_event list"
  f_waiting :: "pending_event list"

fun fifo_step :: "registration \<Rightarrow> batch_op \<Rightarrow> fifo \<Rightarrow> fifo" where
  "fifo_step reg (Event up k v) q =
     (if length (f_waiting q) < 256
      then q\<lparr>f_waiting := f_waiting q @ [\<lparr>pe_interface = reg_interface reg, pe_address = up, pe_key = k, pe_value = v\<rparr>]\<rparr> else q)"
| "fifo_step reg (Batch n) q =
     (if n \<le> 256 \<and> n \<le> length (f_waiting q)
      then \<lparr>f_done = f_done q @ take n (f_waiting q), f_waiting = drop n (f_waiting q)\<rparr> else q)"

text \<open>The events a client was handed, whether alone or in a multicall.\<close>

fun entry_params :: "xvalue \<Rightarrow> xvalue list list" where
  "entry_params (VStruct [m, (p, VArray ps)]) = [ps]"
| "entry_params v = []"

fun handed_by :: "nat \<Rightarrow> report \<Rightarrow> xvalue list list" where
  "handed_by c (Called c' m ps) =
     (if c' \<noteq> c then []
      else if m = ''event'' then [ps]
      else if m = ''system.multicall'' then (case ps of [VArray es] \<Rightarrow> concat (map entry_params es) | _ \<Rightarrow> []) else [])"
| "handed_by c x = []"

definition handed :: "nat \<Rightarrow> report list \<Rightarrow> xvalue list list" where
  "handed c tr = concat (map (handed_by c) tr)"

lemma handed_batch: "handed_by c (Called c (fst (batch_call es)) (snd (batch_call es))) = map event_params es"
proof (cases "\<exists>e. es = [e]")
  case False
  have "concat (map entry_params (map multicall_entry es)) = map event_params es" for es
    by (induction es) (simp_all add: multicall_entry_def)
  moreover have "batch_call es = (''system.multicall'', [VArray (map multicall_entry es)])"
    using False by (auto simp: batch_call_def split: list.split)
  ultimately show ?thesis by simp
qed (auto simp: batch_call_def)

definition batch_rel :: "report list \<Rightarrow> string \<times> registration \<Rightarrow> rpc \<Rightarrow> fifo \<Rightarrow> bool" where
  "batch_rel tr0 e r q \<longleftrightarrow> batch_events (cfg r) \<and> length (f_waiting q) \<le> 256 \<and>
     handed (reg_client (snd e)) (trace r) = handed (reg_client (snd e)) tr0 @ map event_params (f_done q) \<and>
     (case map_of (dispatchers r) (fst e) of
        None \<Rightarrow> f_waiting q = [] | Some d \<Rightarrow> d_client d = reg_client (snd e) \<and> d_queue d = f_waiting q)"

lemma batch_rel_step:
  assumes rel: "batch_rel tr0 e r q" and up: "\<And>t. \<not> call_fails N t"
  shows "batch_rel tr0 e (batch_step N e op r) (fifo_step (snd e) op q)"
proof (cases op)
  case (Event u k v)
  then show ?thesis using rel
    by (cases "map_of (dispatchers r) (fst e)")
      (auto simp: batch_rel_def send_event_def Let_def enqueue_def dispatcher_for_def dispatch_buffer_size_def)
next
  case (Batch n)
  show ?thesis
  proof (cases "map_of (dispatchers r) (fst e)")
    case None
    with rel Batch show ?thesis by (auto simp: batch_rel_def deliver_batch_def)
  next
    case (Some d)
    then have d: "d_client d = reg_client (snd e)" "d_queue d = f_waiting q" using rel by (auto simp: batch_rel_def)
    show ?thesis
    proof (cases "n = 0 \<or> 256 < n \<or> length (f_waiting q) < n")
      case True
      with rel Some d Batch show ?thesis by (auto simp: batch_rel_def deliver_batch_def dispatch_buffer_size_def)
    next
      case False
      let ?es = "take n (f_waiting q)"
      let ?r1 = "r\<lparr>dispatchers := AList.update (fst e) (d\<lparr>d_queue := drop n (f_waiting q)\<rparr>) (dispatchers r)\<rparr>"
      have r': "deliver_batch N (fst e) n r =
          snd (call_remote N (reg_client (snd e)) (fst (batch_call ?es)) (snd (batch_call ?es)) ?r1)"
        using False Some d up
        by (simp add: deliver_batch_def dispatch_buffer_size_def Let_def call_remote_def split: prod.split)
      have disp: "dispatchers (snd (call_remote N c m ps r)) = dispatchers r" for c m ps r
        by (simp add: call_remote_def Let_def)
      show ?thesis using rel False Batch d
        by (auto simp: batch_rel_def r' disp handed_def handed_batch simp del: handed_by.simps)
    qed
  qed
qed

text \<open>C28. With batching, a client that can be reached is handed its events in the order they were fired and each
  exactly once, however they are cut into batches; what is lost is what finds 256 events waiting.\<close>

theorem batches_refine_fifo:
  assumes "batch_events (cfg r)" "map_of (dispatchers r) key = None" "\<forall>t. \<not> call_fails N t"
    and "q = fold (fifo_step reg) ops \<lparr>f_done = [], f_waiting = []\<rparr>"
  shows "handed (reg_client reg) (trace (fold (batch_step N (key, reg)) ops r)) =
      handed (reg_client reg) (trace r) @ map event_params (f_done q)"
proof -
  have "batch_rel (trace r) (key, reg) r \<lparr>f_done = [], f_waiting = []\<rparr>"
    using assms by (simp add: batch_rel_def)
  moreover have "batch_rel tr0 e r' q' \<Longrightarrow> batch_rel tr0 e (fold (batch_step N e) ops r') (fold (fifo_step (snd e)) ops q')"
    for tr0 e r' q' using assms(3) by (induction ops arbitrary: r' q') (simp_all add: batch_rel_step)
  ultimately show ?thesis using assms(4) by (fastforce simp: batch_rel_def)
qed

lemma batches_refine_fifo_witness:
  "length (handed 0 (trace (fold (batch_step demo_net (''HmIP-RF'', \<lparr>reg_interface = ''HmIP-RF'', reg_url = [], reg_client = 0\<rparr>))
     [Event ''VCU1:1'' ''LEVEL'' (GInt 1), Event ''VCU1:1'' ''LEVEL'' (GInt 0), Event ''VCU1:1'' ''STATE'' (GInt 0), Batch 2]
     (demo_rpc\<lparr>cfg := demo_config\<lparr>batch_events := True\<rparr>\<rparr>)))) = 2"
proof -
  let ?reg = "\<lparr>reg_interface = ''HmIP-RF'', reg_url = [], reg_client = 0\<rparr>"
  let ?ops = "[Event ''VCU1:1'' ''LEVEL'' (GInt 1), Event ''VCU1:1'' ''LEVEL'' (GInt 0), Event ''VCU1:1'' ''STATE'' (GInt 0), Batch 2]"
  have start: "trace demo_rpc = []" "dispatchers demo_rpc = []" by (simp_all add: demo_values)
  from batches_refine_fifo [OF _ _ _ refl, of "demo_rpc\<lparr>cfg := demo_config\<lparr>batch_events := True\<rparr>\<rparr>" "''HmIP-RF''" demo_net ?reg ?ops]
  show ?thesis by (simp add: start demo_net_def handed_def)
qed

section \<open>Deleting a device\<close>

lemma delete_fields:
  assumes "delete_device a s = (s', gone)"
  shows "device_by_address s' = device_by_address (fold clear_address_caches gone s)"
    "paramset_desc s' = paramset_desc (fold clear_address_caches gone s)"
    "paramsets s' = paramsets (fold clear_address_caches gone s)"
    "devices s' = filter (\<lambda>d. \<not> belongs_to_root (to_upper a) d) (devices s)"
    "gone = filter (\<lambda>b. b \<noteq> []) (map (\<lambda>d. text_of d ''ADDRESS'') (filter (belongs_to_root (to_upper a)) (devices s)))"
proof -
  obtain s1 as where d: "drop_entries (belongs_to_root (to_upper a)) s = (s1, as)"
    by (cases "drop_entries (belongs_to_root (to_upper a)) s")
  have "as = gone" "device_by_address s' = device_by_address s1" "paramset_desc s' = paramset_desc s1" "paramsets s' = paramsets s1"
    "devices s' = devices s1"
    using assms by (auto simp: delete_device_def d split: option.splits)
  note same = this
  let ?kept = "filter (\<lambda>d. \<not> belongs_to_root (to_upper a) d) (devices s)"
  let ?gone = "filter (\<lambda>b. b \<noteq> []) (map (\<lambda>d. text_of d ''ADDRESS'') (filter (belongs_to_root (to_upper a)) (devices s)))"
  have "(fold clear_address_caches ?gone s)\<lparr>devices := ?kept\<rparr> = s1 \<and> ?gone = gone"
    using d unfolding drop_entries_def Let_def prod.inject same(1) .
  then have gone: "gone = ?gone" and s1: "s1 = (fold clear_address_caches gone s)\<lparr>devices := ?kept\<rparr>" by blast+
  show "gone = ?gone" by (rule gone)
  show "device_by_address s' = device_by_address (fold clear_address_caches gone s)"
    "paramset_desc s' = paramset_desc (fold clear_address_caches gone s)"
    "paramsets s' = paramsets (fold clear_address_caches gone s)" "devices s' = ?kept"
    unfolding same(2-5) s1 by simp_all
qed

lemma cleared_lookup:
  "map_of (device_by_address (fold clear_address_caches as s)) b =
     (if b \<in> to_upper ` set as then None else map_of (device_by_address s) b)"
  "map_of (paramset_desc (fold clear_address_caches as s)) b = (if b \<in> set as then None else map_of (paramset_desc s) b)"
  "map_of (paramsets (fold clear_address_caches as s)) b = (if b \<in> set as then None else map_of (paramsets s) b)"
  by (induction as arbitrary: s) (auto simp: clear_fields)

definition under_root :: "string \<Rightarrow> string \<Rightarrow> bool" where
  "under_root a b \<longleftrightarrow> to_upper b = to_upper a \<or> prefix (to_upper a @ '':'') (to_upper b)"

lemma delete_device_store:
  assumes "delete_device a s = (s', gone)"
  shows "devices s' = filter (\<lambda>d. \<not> under_root a (address_of d)) (devices s) \<and>
    (\<forall>b. \<not> under_root a b \<longrightarrow>
       get_device_description b s' = get_device_description b s \<and> description_of s' b = description_of s b \<and>
       (\<forall>kind. overrides (to_upper b) kind s' = overrides (to_upper b) kind s)) \<and>
    (\<forall>d \<in> set (devices s). under_root a (address_of d) \<and> address_of d \<noteq> [] \<and> to_upper (address_of d) = address_of d \<longrightarrow>
       get_device_description (address_of d) s' = Inl (UnknownDevice (address_of d)) \<and>
       description_of s' (address_of d) = None \<and> (\<forall>kind. overrides (address_of d) kind s' = []))"
proof -
  note f = delete_fields [OF assms]
  have root: "belongs_to_root (to_upper a) d \<longleftrightarrow> under_root a (address_of d)" for d
    by (simp add: belongs_to_root_def under_root_def address_of_def)
  have gone: "set gone = {address_of d | d. d \<in> set (devices s) \<and> under_root a (address_of d) \<and> address_of d \<noteq> []}"
    by (auto simp: f(5) root address_of_def)
  have other: "to_upper b \<notin> to_upper ` set gone" "to_upper b \<notin> set gone" "b \<notin> set gone" if "\<not> under_root a b" for b
  proof -
    show 1: "to_upper b \<notin> to_upper ` set gone" using that by (auto simp: gone under_root_def)
    from 1 show "to_upper b \<notin> set gone" by (metis image_eqI to_upper_idem)
    from 1 show "b \<notin> set gone" by blast
  qed
  have "get_device_description b s' = get_device_description b s \<and> description_of s' b = description_of s b \<and>
      (\<forall>kind. overrides (to_upper b) kind s' = overrides (to_upper b) kind s)" if "\<not> under_root a b" for b
    using other [OF that] by (simp add: get_device_description_def description_of_def overrides_def f(1,2,3) cleared_lookup
        cong: option.case_cong)
  moreover have "get_device_description b s' = Inl (UnknownDevice b) \<and> description_of s' b = None \<and> (\<forall>kind. overrides b kind s' = [])"
    if "b \<in> set gone" "to_upper b = b" for b
  proof -
    from that have "b \<in> to_upper ` set gone" by (metis image_eqI)
    with that show ?thesis
      by (simp add: get_device_description_def description_of_def overrides_def f(1,2,3) cleared_lookup)
  qed
  ultimately show ?thesis unfolding f(4) root gone by blast
qed

lemma tell_all_effect:
  "trace (tell_all N m args r) =
     trace r @ map (\<lambda>(key, reg). Called (reg_client reg) m (VStr (reg_interface reg) # map from_any args)) (remotes r)"
  "(tell_all N m args r)\<lparr>trace := t\<rparr> = r\<lparr>trace := t\<rparr>"
proof -
  have "trace (fold (\<lambda>(key, reg) r. snd (call_remote N (reg_client reg) m (VStr (reg_interface reg) # map from_any args) r)) es r) =
      trace r @ map (\<lambda>(key, reg). Called (reg_client reg) m (VStr (reg_interface reg) # map from_any args)) es" for es
    by (induction es arbitrary: r) (auto simp: call_remote_def Let_def emit_def)
  then show "trace (tell_all N m args r) =
      trace r @ map (\<lambda>(key, reg). Called (reg_client reg) m (VStr (reg_interface reg) # map from_any args)) (remotes r)"
    by (simp add: tell_all_def)
  have "(fold (\<lambda>(key, reg) r. snd (call_remote N (reg_client reg) m (VStr (reg_interface reg) # map from_any args) r)) es r)\<lparr>trace := t\<rparr> =
      r\<lparr>trace := t\<rparr>" for es
    by (induction es arbitrary: r) (auto simp: call_remote_def Let_def emit_def)
  then show "(tell_all N m args r)\<lparr>trace := t\<rparr> = r\<lparr>trace := t\<rparr>" by (simp add: tell_all_def)
qed

text \<open>C29. Deleting a device takes away the entries, descriptions and values of the device and its channels
  (whose addresses the catalogue writes in upper case), and nothing else: every other address is
  described and valued as before, links, link paramsets, metadata, suppressions, registrations and
  timers of the simulator stay as they are (those of the deleted device too), and every registered
  client is told exactly the addresses that went, or nothing when there were none.\<close>

theorem delete_device_exact:
  assumes "r' = delete_device_call N a r"
    and "gone = filter (\<lambda>b. b \<noteq> [] \<and> under_root a b) (map address_of (devices (store r)))"
  shows "devices (store r') = filter (\<lambda>d. \<not> under_root a (address_of d)) (devices (store r)) \<and>
    (\<forall>b. \<not> under_root a b \<longrightarrow>
       get_device_description b (store r') = get_device_description b (store r) \<and>
       description_of (store r') b = description_of (store r) b \<and>
       (\<forall>kind. overrides (to_upper b) kind (store r') = overrides (to_upper b) kind (store r))) \<and>
    (\<forall>b \<in> set gone. to_upper b = b \<longrightarrow>
       get_device_description b (store r') = Inl (UnknownDevice b) \<and>
       description_of (store r') b = None \<and> (\<forall>kind. overrides b kind (store r') = [])) \<and>
    r'\<lparr>store := store r, trace := trace r\<rparr> = r \<and>
    trace r' = trace r @ (if gone = [] then [] else
      map (\<lambda>(key, reg). Called (reg_client reg) ''deleteDevices''
        [VStr (reg_interface reg), from_any (GList (map GStr gone))]) (remotes r))"
proof -
  obtain s' told where d: "delete_device a (store r) = (s', told)" by (cases "delete_device a (store r)")
  have told: "told = gone"
    using delete_fields(5) [OF d] assms(2)
    by (simp add: belongs_to_root_def under_root_def address_of_def filter_map comp_def conj_commute)
  have r': "r' = (if gone = [] then r\<lparr>store := s'\<rparr> else tell_all N ''deleteDevices'' [GList (map GStr gone)] (r\<lparr>store := s'\<rparr>))"
    using assms(1) by (simp add: delete_device_call_def d told Let_def)
  note all = tell_all_effect [where N = N and m = "''deleteDevices''" and args = "[GList (map GStr gone)]" and r = "r\<lparr>store := s'\<rparr>"]
  have strip: "r'\<lparr>trace := trace r\<rparr> = r\<lparr>store := s'\<rparr>"
    using all(2) [where t = "trace r"] by (simp add: r')
  then have s': "store r' = s'" by (metis rpc.select_convs(2) rpc.surjective rpc.update_convs(2,18))
  have "r'\<lparr>store := store r, trace := trace r\<rparr> = (r'\<lparr>trace := trace r\<rparr>)\<lparr>store := store r\<rparr>" by simp
  also have "\<dots> = r" by (simp add: strip)
  finally have frame: "r'\<lparr>store := store r, trace := trace r\<rparr> = r" .
  have tr: "trace r' = trace r @ (if gone = [] then [] else
      map (\<lambda>(key, reg). Called (reg_client reg) ''deleteDevices''
        [VStr (reg_interface reg), from_any (GList (map GStr gone))]) (remotes r))"
    using all(1) by (simp add: r')
  note eff = delete_device_store [OF d]
  have own: "\<forall>b \<in> set gone. to_upper b = b \<longrightarrow>
      get_device_description b s' = Inl (UnknownDevice b) \<and> description_of s' b = None \<and> (\<forall>kind. overrides b kind s' = [])"
    using eff unfolding assms(2) by fastforce
  show ?thesis unfolding s'
    by (intro conjI own frame tr; rule conjunct1 [OF eff] conjunct1 [OF conjunct2 [OF eff]])
qed

lemma delete_device_exact_witness:
  "description_of (store (delete_device_call demo_net ''vcu1'' demo_rpc)) ''VCU1:1'' = None"
proof -
  let ?gone = "filter (\<lambda>b. b \<noteq> [] \<and> under_root ''vcu1'' b) (map address_of (devices (store demo_rpc)))"
  have "''VCU1:1'' \<in> set ?gone" "to_upper ''VCU1:1'' = ''VCU1:1''"
    by (simp_all add: demo_values address_of_def under_root_def demo_upper)
  with delete_device_exact [OF refl refl, of demo_net "''vcu1''" demo_rpc] show ?thesis by fastforce
qed

end
