(* ===== verification/Rega_Value.thy ===== *)
theory Rega_Value
  imports Rega_Parser Go_Any Latin1
begin

text \<open>
  Runtime values of HomeMatic script (\<^verbatim>\<open>internal/regavm/value.go\<close>) and the methods of scalars
  (\<open>stringMethod\<close>, \<open>substr\<close>, \<open>valueByIndex\<close>, \<open>uriEncode\<close> of \<^verbatim>\<open>internal/regavm/interp.go\<close>). A node
  of the object model is a fresh pointer each time it is resolved, and two objects are equal when they are one
  pointer: a node carries the number of its allocation. The null object is a value of its own. Case folding and
  trimming are those of ASCII.
\<close>

section \<open>Values\<close>

datatype node_kind =
    NodeUnknown | NodeDevice | NodeChannel | NodeDatapoint | NodeProgram | NodeSysvar | NodeRoom | NodeFunction
  | NodeService | NodeCollection

record rega_node =
  n_ref :: nat
  n_kind :: node_kind
  n_id :: string
  n_parent :: string

text \<open>The objects: nodes, and the interfaces, which are plain strings and compare as such.\<close>

datatype robject = Node rega_node | Interface string

datatype rvalue =
    RStr string
  | RNum f64
  | RBool bool
  | RNull
  | RObj robject
  | RList "rvalue list"

text \<open>The zero value: an empty text.\<close>

definition no_value :: rvalue where
  "no_value = RStr []"

text \<open>\<open>formatNumber\<close>, given the text \<open>FormatFloat(f, 'f', -1, 64)\<close> makes of the other numbers.\<close>

fun format_number :: "(f64 \<Rightarrow> string) \<Rightarrow> f64 \<Rightarrow> string" where
  "format_number ff NegZero = format_int 0"
| "format_number ff (Fin q) =
     (if q = of_int (trunc_rat q) \<and> \<bar>q\<bar> < 10 ^ 15 then format_int (trunc_rat q) else ff (Fin q))"
| "format_number ff x = ff x"

definition bool_text :: "bool \<Rightarrow> string" where
  "bool_text b = (if b then ''true'' else ''false'')"

fun join_with :: "char \<Rightarrow> string list \<Rightarrow> string" where
  "join_with c [] = []"
| "join_with c [s] = s"
| "join_with c (s # t # ss) = s @ c # join_with c (t # ss)"

definition tab :: char where "tab = CHR 0x09"

text \<open>\<open>String\<close>, given the text of other numbers and the display names of objects.\<close>

fun value_text :: "(f64 \<Rightarrow> string) \<Rightarrow> (robject \<Rightarrow> string) \<Rightarrow> rvalue \<Rightarrow> string" where
  "value_text ff nm (RStr s) = s"
| "value_text ff nm (RNum x) = format_number ff x"
| "value_text ff nm (RBool b) = bool_text b"
| "value_text ff nm RNull = []"
| "value_text ff nm (RObj obj) = nm obj"
| "value_text ff nm (RList vs) = join_with tab (map (value_text ff nm) vs)"

text \<open>\<open>Number\<close>, \<open>numeric\<close>, \<open>Bool\<close>, \<open>List\<close>.\<close>

definition text_number :: "golib \<Rightarrow> string \<Rightarrow> f64 option" where
  "text_number L s = parse_float L (trim_space s)"

fun value_number :: "golib \<Rightarrow> rvalue \<Rightarrow> f64" where
  "value_number L (RNum x) = x"
| "value_number L (RBool b) = Fin (if b then 1 else 0)"
| "value_number L (RStr s) = (case text_number L s of Some x \<Rightarrow> x | None \<Rightarrow> Fin 0)"
| "value_number L (RList vs) = f64_of_int (int (length vs))"
| "value_number L v = Fin 0"

fun is_numeric :: "golib \<Rightarrow> rvalue \<Rightarrow> bool" where
  "is_numeric L (RNum x) = True"
| "is_numeric L (RBool b) = True"
| "is_numeric L (RStr s) = (text_number L s \<noteq> None)"
| "is_numeric L v = False"

fun truthy :: "rvalue \<Rightarrow> bool" where
  "truthy (RBool b) = b"
| "truthy (RNum x) = (\<not> is_zero x)"
| "truthy (RStr s) = (s \<noteq> [] \<and> \<not> equal_fold s ''false'')"
| "truthy RNull = False"
| "truthy (RObj obj) = True"
| "truthy (RList vs) = (vs \<noteq> [])"

fun value_items :: "rvalue \<Rightarrow> rvalue list" where
  "value_items (RList vs) = vs"
| "value_items (RStr s) = (if s = [] then [] else map RStr (filter (\<lambda>p. p \<noteq> []) (split_byte tab s)))"
| "value_items v = []"

text \<open>\<open>equals\<close>: the object behind a value is nil for everything that is no object.\<close>

fun is_object :: "rvalue \<Rightarrow> bool" where
  "is_object RNull = True"
| "is_object (RObj obj) = True"
| "is_object v = False"

fun object_of :: "rvalue \<Rightarrow> robject option" where
  "object_of (RObj obj) = Some obj"
| "object_of v = None"

fun is_bool :: "rvalue \<Rightarrow> bool" where
  "is_bool (RBool b) = True"
| "is_bool v = False"

definition value_equals :: "golib \<Rightarrow> (f64 \<Rightarrow> string) \<Rightarrow> (robject \<Rightarrow> string) \<Rightarrow> rvalue \<Rightarrow> rvalue \<Rightarrow> bool" where
  "value_equals L ff nm v w =
     (if is_object v \<or> is_object w then object_of v = object_of w
      else if is_bool v \<or> is_bool w then truthy v = truthy w
      else if is_numeric L v \<and> is_numeric L w then f64_eq (value_number L v) (value_number L w)
      else value_text ff nm v = value_text ff nm w)"

section \<open>Texts\<close>

text \<open>\<open>strings.Index\<close>, \<open>Contains\<close>.\<close>

fun index_of_text :: "string \<Rightarrow> string \<Rightarrow> nat option" where
  "index_of_text pat [] = (if pat = [] then Some 0 else None)"
| "index_of_text pat (c # cs) = (if prefix pat (c # cs) then Some 0 else map_option Suc (index_of_text pat cs))"

text \<open>The pieces Go cuts a string into where the separator is empty: one UTF-8 sequence each.\<close>

definition sequence_length :: "string \<Rightarrow> nat" where
  "sequence_length s =
     (case map of_char s of [] \<Rightarrow> 0 | b # bs \<Rightarrow> Suc (snd (decode_rune b bs)))"

function explode_text :: "string \<Rightarrow> string list" where
  "explode_text [] = []"
| "explode_text (c # cs) =
     take (sequence_length (c # cs)) (c # cs) # explode_text (drop (sequence_length (c # cs)) (c # cs))"
  by pat_completeness auto
termination
  by (relation "measure length") (auto simp: sequence_length_def)

function split_nonempty :: "string \<Rightarrow> string \<Rightarrow> string \<Rightarrow> string list" where
  "split_nonempty sep acc s =
     (if sep = [] \<or> s = [] then [rev acc]
      else if prefix sep s then rev acc # split_nonempty sep [] (drop (length sep) s)
      else split_nonempty sep (hd s # acc) (tl s))"
  by pat_completeness auto
termination
  by (relation "measure (\<lambda>(sep, acc, s). length s)") auto

declare split_nonempty.simps [simp del]

definition split_text :: "string \<Rightarrow> string \<Rightarrow> string list" where
  "split_text s sep = (if sep = [] then explode_text s else split_nonempty sep [] s)"

text \<open>\<open>strings.ReplaceAll\<close>: an empty pattern matches before every sequence and at the end.\<close>

fun join_text :: "string \<Rightarrow> string list \<Rightarrow> string" where
  "join_text sep [] = []"
| "join_text sep [s] = s"
| "join_text sep (s # t # ss) = s @ sep @ join_text sep (t # ss)"

definition replace_all :: "string \<Rightarrow> string \<Rightarrow> string \<Rightarrow> string" where
  "replace_all s old new =
     (if old = [] then new @ concat (map (\<lambda>p. p @ new) (explode_text s)) else join_text new (split_nonempty old [] s))"

definition low_char :: "char \<Rightarrow> char" where
  "low_char c = (if CHR ''A'' \<le> c \<and> c \<le> CHR ''Z'' then char_of (of_char c + 32 :: nat) else c)"

definition to_lower :: "string \<Rightarrow> string" where
  "to_lower s = map low_char s"

text \<open>\<open>strconv.Atoi\<close> with its error dropped: 0 for what is no number, the nearest bound out of range.\<close>

definition atoi_or_bound :: "string \<Rightarrow> int" where
  "atoi_or_bound s =
     (let (neg, ds) = (case s of c # cs \<Rightarrow> if c = CHR ''-'' then (True, cs) else if c = CHR ''+'' then (False, cs) else (False, s)
                                | [] \<Rightarrow> (False, []))
      in if ds = [] then 0
         else (case digits_val 10 0 ds of
                 None \<Rightarrow> 0
               | Some n \<Rightarrow> if neg then max (- (2 ^ 63)) (- int n) else min (2 ^ 63 - 1) (int n)))"

text \<open>\<open>uriEncode\<close>: everything but letters, digits and four marks becomes a percent and two digits.\<close>

definition unreserved :: "char \<Rightarrow> bool" where
  "unreserved c \<longleftrightarrow> (CHR ''a'' \<le> c \<and> c \<le> CHR ''z'') \<or> (CHR ''A'' \<le> c \<and> c \<le> CHR ''Z'') \<or>
     (CHR ''0'' \<le> c \<and> c \<le> CHR ''9'') \<or> c = CHR ''-'' \<or> c = CHR ''_'' \<or> c = CHR ''.'' \<or> c = CHR ''~''"

definition upper_hex :: "nat \<Rightarrow> char" where
  "upper_hex n = (if n < 10 then char_of (48 + n) else char_of (55 + n))"

definition query_escape :: "string \<Rightarrow> string" where
  "query_escape s =
     concat (map (\<lambda>c. if unreserved c then [c] else if c = CHR '' '' then ''+''
        else [CHR ''%'', upper_hex (of_char c div 16), upper_hex (of_char c mod 16)]) s)"

definition uri_encode :: "string \<Rightarrow> string" where
  "uri_encode s = replace_all (query_escape s) ''+'' ''%20''"

section \<open>Methods of scalars\<close>

text \<open>\<open>int(f)\<close> and the addition of two ints, which wraps.\<close>

definition wrap64 :: "int \<Rightarrow> int" where
  "wrap64 n = (n + 2 ^ 63) mod 2 ^ 64 - 2 ^ 63"

definition substr :: "golib \<Rightarrow> string \<Rightarrow> rvalue list \<Rightarrow> string" where
  "substr L s args =
     (case args of
        [] \<Rightarrow> s
      | a # rest \<Rightarrow>
          (let offset = max (go_int L (value_number L a)) 0; len = int (length s) in
           if len \<le> offset then []
           else (case rest of
                   [] \<Rightarrow> drop (nat offset) s
                 | b # _ \<Rightarrow>
                     (let end = min (wrap64 (offset + go_int L (value_number L b))) len in
                      if end \<le> offset then [] else take (nat (end - offset)) (drop (nat offset) s)))))"

definition value_by_index :: "golib \<Rightarrow> string \<Rightarrow> string \<Rightarrow> rvalue \<Rightarrow> string" where
  "value_by_index L s sep index =
     (let parts = split_text s sep; i = go_int L (value_number L index) in
      if i < 0 \<or> int (length parts) \<le> i then [] else parts ! nat i)"

fun var_type :: "rvalue \<Rightarrow> int" where
  "var_type (RBool b) = 6"
| "var_type (RNum x) = (case x of NaN \<Rightarrow> 4 | Fin q \<Rightarrow> if q = of_int (trunc_rat q) then 2 else 4 | _ \<Rightarrow> 2)"
| "var_type v = 20"

definition string_method ::
  "golib \<Rightarrow> (f64 \<Rightarrow> string) \<Rightarrow> (robject \<Rightarrow> string) \<Rightarrow> rvalue \<Rightarrow> string \<Rightarrow> rvalue list \<Rightarrow> rvalue" where
  "string_method L ff nm v meth args =
     (let s = value_text ff nm v; arg = (\<lambda>i. value_text ff nm (args ! i)) in
      if meth = ''UriEncode'' then RStr (uri_encode s)
      else if meth = ''Trim'' then RStr (trim_space s)
      else if meth = ''ToString'' then RStr s
      else if meth = ''ToInteger'' then RNum (f64_of_int (atoi_or_bound (trim_space s)))
      else if meth = ''ToFloat'' \<or> meth = ''ToReal'' then RNum (value_number L v)
      else if meth = ''Length'' then RNum (f64_of_int (int (length s)))
      else if meth = ''Contains'' then RBool (args \<noteq> [] \<and> index_of_text (arg 0) s \<noteq> None)
      else if meth = ''Find'' then
        RNum (f64_of_int (if args = [] then - 1 else (case index_of_text (arg 0) s of Some i \<Rightarrow> int i | None \<Rightarrow> - 1)))
      else if meth = ''Substr'' then RStr (substr L s args)
      else if meth = ''Replace'' then RStr (if length args < 2 then s else replace_all s (arg 0) (arg 1))
      else if meth = ''StrValueByIndex'' then
        RStr (if length args < 2 then [] else value_by_index L s (arg 0) (args ! 1))
      else if meth = ''ToUpper'' then RStr (to_upper s)
      else if meth = ''ToLower'' then RStr (to_lower s)
      else if meth = ''VarType'' then RNum (f64_of_int (var_type v))
      else no_value)"

end
