(* ===== verification/Rega_Interp.thy ===== *)
theory Rega_Interp
  imports Rega_Value
begin

text \<open>
  The object model and the interpreter of HomeMatic script: \<^verbatim>\<open>internal/regavm/dom.go\<close> and
  \<^verbatim>\<open>internal/regavm/interp.go\<close>. The data source behind the object model is an argument, a record of
  functions on its state; so are the clock, the command runner and the text of numbers that are no small integers.
  A run keeps one flat map of variables, the text written so far, the state of the data source, and the number
  of nodes allocated. An error ends the run and keeps what was written. Reading a display name is taken to
  leave the data source alone, which holds of the one the program has. The interpreter is given a root, as the
  program always does.
\<close>

unbundle bit_operations_syntax

section \<open>The data source\<close>

text \<open>A field of an object: a Go value, or a list of strings, which Go keeps apart from a list of values.\<close>

datatype field = FAny gov | FStrings "string list"

type_synonym ('w, 'a) access = "'w \<Rightarrow> 'a \<times> 'w"

record 'w source =
  src_devices :: "('w, string list) access"
  src_channels :: "string \<Rightarrow> ('w, string list) access"
  src_device_field :: "string \<Rightarrow> string \<Rightarrow> ('w, field option) access"
  src_datapoints :: "string \<Rightarrow> ('w, string list) access"
  src_datapoint_value :: "string \<Rightarrow> string \<Rightarrow> ('w, field option) access"
  src_datapoint_timestamp :: "string \<Rightarrow> string \<Rightarrow> ('w, int) access"
  src_programs :: "('w, string list) access"
  src_program_field :: "string \<Rightarrow> string \<Rightarrow> ('w, field option) access"
  src_set_program_active :: "string \<Rightarrow> bool \<Rightarrow> ('w, bool) access"
  src_system_variables :: "('w, string list) access"
  src_sysvar_field :: "string \<Rightarrow> string \<Rightarrow> ('w, field option) access"
  src_set_sysvar_value :: "string \<Rightarrow> gov \<Rightarrow> ('w, bool) access"
  src_rooms :: "('w, string list) access"
  src_functions :: "('w, string list) access"
  src_group_field :: "string \<Rightarrow> string \<Rightarrow> string \<Rightarrow> ('w, field option) access"
  src_service_messages :: "('w, string list) access"
  src_service_field :: "string \<Rightarrow> string \<Rightarrow> ('w, field option) access"
  src_receipt :: "string \<Rightarrow> ('w, bool) access"
  src_resolve :: "string \<Rightarrow> ('w, (node_kind \<times> string) option) access"

record civil =
  c_year :: nat
  c_month :: nat
  c_day :: nat
  c_hour :: nat
  c_minute :: nat
  c_second :: nat
  c_unix :: int

record 'w env =
  lib :: golib
  number_text :: "f64 \<Rightarrow> string"
  source :: "'w source"
  interfaces :: "string list"
  serial_no :: string
  exec_command :: "(string \<Rightarrow> ('w, string \<times> bool) access) option"
  clock :: "'w \<Rightarrow> civil"

section \<open>Runs\<close>

datatype run_error =
    ParseFailed parse_error
  | LoopLimit string
  | UnknownOperator string
  | UnknownFunction string

record 'w istate =
  vars :: "(string, rvalue) gomap"
  out :: string
  world :: 'w
  next_ref :: nat

type_synonym ('w, 'a) run = "'w istate \<Rightarrow> (run_error + 'a) \<times> 'w istate"

definition return_m :: "'a \<Rightarrow> ('w, 'a) run" where
  "return_m x st = (Inr x, st)"

definition fail_m :: "run_error \<Rightarrow> ('w, 'a) run" where
  "fail_m e st = (Inl e, st)"

definition bind_m :: "('w, 'a) run \<Rightarrow> ('a \<Rightarrow> ('w, 'b) run) \<Rightarrow> ('w, 'b) run" where
  "bind_m m f st = (case m st of (Inl e, st1) \<Rightarrow> (Inl e, st1) | (Inr x, st1) \<Rightarrow> f x st1)"

definition access_m :: "('w, 'a) access \<Rightarrow> ('w, 'a) run" where
  "access_m f st = (case f (world st) of (x, w) \<Rightarrow> (Inr x, st\<lparr>world := w\<rparr>))"

definition state_m :: "('w istate \<Rightarrow> ('w, 'a) run) \<Rightarrow> ('w, 'a) run" where
  "state_m f st = f st st"

definition write_m :: "string \<Rightarrow> ('w, unit) run" where
  "write_m s st = (Inr (), st\<lparr>out := out st @ s\<rparr>)"

definition set_var :: "string \<Rightarrow> rvalue \<Rightarrow> ('w, unit) run" where
  "set_var x v st = (Inr (), st\<lparr>vars := AList.update x v (vars st)\<rparr>)"

definition fresh_node :: "node_kind \<Rightarrow> string \<Rightarrow> ('w, rvalue) run" where
  "fresh_node kind i st =
     (Inr (RObj (Node \<lparr>n_ref = next_ref st, n_kind = kind, n_id = i, n_parent = []\<rparr>)), st\<lparr>next_ref := Suc (next_ref st)\<rparr>)"

section \<open>The object model\<close>

fun field_text :: "(f64 \<Rightarrow> string) \<Rightarrow> field \<Rightarrow> string" where
  "field_text ff (FStrings ss) = join_with tab ss"
| "field_text ff (FAny (GStr s)) = s"
| "field_text ff (FAny (GBool b)) = bool_text b"
| "field_text ff (FAny (GInt n)) = format_int n"
| "field_text ff (FAny (GFloat x)) = format_number ff x"
| "field_text ff (FAny v) = []"

definition id_list :: "string list \<Rightarrow> rvalue" where
  "id_list ss = RList (map RStr ss)"

fun field_value :: "field \<Rightarrow> rvalue" where
  "field_value (FStrings ss) = id_list ss"
| "field_value (FAny (GStr s)) = RStr s"
| "field_value (FAny (GBool b)) = RBool b"
| "field_value (FAny (GInt n)) = RNum (f64_of_int n)"
| "field_value (FAny (GFloat x)) = RNum x"
| "field_value (FAny v) = RStr []"

text \<open>A field that is not there reads as nil.\<close>

definition field_or_nil :: "field option \<Rightarrow> rvalue" where
  "field_or_nil f = (case f of Some v \<Rightarrow> field_value v | None \<Rightarrow> no_value)"

definition node_field :: "'w source \<Rightarrow> rega_node \<Rightarrow> string \<Rightarrow> ('w, field option) access" where
  "node_field S n f =
     (case n_kind n of
        NodeDevice \<Rightarrow> src_device_field S (n_id n) f
      | NodeChannel \<Rightarrow> src_device_field S (n_id n) f
      | NodeDatapoint \<Rightarrow>
          if f = ''Value'' then src_datapoint_value S (n_parent n) (n_id n)
          else if f = ''Timestamp'' \<or> f = ''LastTimestamp'' then
            (\<lambda>w. case src_datapoint_timestamp S (n_parent n) (n_id n) w of (t, w') \<Rightarrow> (Some (FAny (GInt t)), w'))
          else src_device_field S (n_id n) f
      | NodeProgram \<Rightarrow> src_program_field S (n_id n) f
      | NodeSysvar \<Rightarrow> src_sysvar_field S (n_id n) f
      | NodeRoom \<Rightarrow> src_group_field S ''room'' (n_id n) f
      | NodeFunction \<Rightarrow> src_group_field S ''function'' (n_id n) f
      | NodeService \<Rightarrow> src_service_field S (n_id n) f
      | _ \<Rightarrow> Pair None)"

definition object_name :: "'w env \<Rightarrow> 'w \<Rightarrow> robject \<Rightarrow> string" where
  "object_name E w obj =
     (case obj of
        Interface s \<Rightarrow> s
      | Node n \<Rightarrow> (case fst (node_field (source E) n ''Name'' w) of Some f \<Rightarrow> field_text (number_text E) f | None \<Rightarrow> []))"

definition text_in :: "'w env \<Rightarrow> 'w istate \<Rightarrow> rvalue \<Rightarrow> string" where
  "text_in E st v = value_text (number_text E) (object_name E (world st)) v"

text \<open>\<open>valueToGo\<close>\<close>

definition value_to_go :: "'w env \<Rightarrow> 'w istate \<Rightarrow> rvalue \<Rightarrow> gov" where
  "value_to_go E st v = (case v of RBool b \<Rightarrow> GBool b | RNum x \<Rightarrow> GFloat x | _ \<Rightarrow> GStr (text_in E st v))"

definition collections :: "string list" where
  "collections = [''ID_DEVICES'', ''ID_CHANNELS'', ''ID_DATAPOINTS'', ''ID_PROGRAMS'', ''ID_SYSTEM_VARIABLES'',
     ''ID_ROOMS'', ''ID_FUNCTIONS'', ''ID_SERVICES'']"

text \<open>The channels of several devices, one device after the other.\<close>

fun all_channels :: "'w source \<Rightarrow> string list \<Rightarrow> ('w, string list) access" where
  "all_channels S [] w = ([], w)"
| "all_channels S (d # ds) w =
     (case src_channels S d w of (cs, w1) \<Rightarrow> (case all_channels S ds w1 of (rest, w2) \<Rightarrow> (cs @ rest, w2)))"

definition enumerate_collection :: "'w source \<Rightarrow> string \<Rightarrow> ('w, rvalue) run" where
  "enumerate_collection S i =
     (let ids = (\<lambda>f. bind_m (access_m f) (\<lambda>ss. return_m (id_list ss))) in
      if i = ''ID_DEVICES'' then ids (src_devices S)
      else if i = ''ID_PROGRAMS'' then ids (src_programs S)
      else if i = ''ID_SYSTEM_VARIABLES'' then ids (src_system_variables S)
      else if i = ''ID_ROOMS'' then ids (src_rooms S)
      else if i = ''ID_FUNCTIONS'' then ids (src_functions S)
      else if i = ''ID_SERVICES'' then ids (src_service_messages S)
      else if i = ''ID_CHANNELS'' then bind_m (access_m (src_devices S)) (\<lambda>ds. ids (all_channels S ds))
      else return_m (RList []))"

definition enumerate_node :: "'w source \<Rightarrow> rega_node \<Rightarrow> string \<Rightarrow> ('w, rvalue) run" where
  "enumerate_node S n meth =
     (case n_kind n of
        NodeCollection \<Rightarrow> enumerate_collection S (n_id n)
      | NodeDevice \<Rightarrow> bind_m (access_m (src_channels S (n_id n))) (\<lambda>ss. return_m (id_list ss))
      | NodeChannel \<Rightarrow> bind_m (access_m (src_datapoints S (n_id n))) (\<lambda>ss. return_m (id_list ss))
      | NodeRoom \<Rightarrow> bind_m (access_m (src_group_field S ''room'' (n_id n) meth))
          (\<lambda>f. return_m (case f of Some v \<Rightarrow> field_value v | None \<Rightarrow> RList []))
      | NodeFunction \<Rightarrow> bind_m (access_m (src_group_field S ''function'' (n_id n) meth))
          (\<lambda>f. return_m (case f of Some v \<Rightarrow> field_value v | None \<Rightarrow> RList []))
      | _ \<Rightarrow> return_m (RList []))"

definition resolve_key :: "'w source \<Rightarrow> string \<Rightarrow> ('w, rvalue) run" where
  "resolve_key S key =
     bind_m (access_m (src_resolve S key))
       (\<lambda>found. case found of None \<Rightarrow> return_m RNull | Some (kind, i) \<Rightarrow> fresh_node kind i)"

definition read_field :: "'w source \<Rightarrow> rega_node \<Rightarrow> string \<Rightarrow> ('w, rvalue) run" where
  "read_field S n f = bind_m (access_m (node_field S n f)) (\<lambda>v. return_m (field_or_nil v))"

text \<open>\<open>Call\<close> of a node.\<close>

definition node_call :: "'w env \<Rightarrow> rega_node \<Rightarrow> string \<Rightarrow> rvalue list \<Rightarrow> ('w, rvalue) run" where
  "node_call E n meth args =
     (let S = source E in
      if meth = ''ID'' then return_m (RStr (n_id n))
      else if meth = ''EnumIDs'' \<or> meth = ''EnumUsedIDs'' then enumerate_node S n meth
      else if meth = ''Get'' then
        (case args of [] \<Rightarrow> return_m RNull | a # _ \<Rightarrow> state_m (\<lambda>st. resolve_key S (text_in E st a)))
      else if meth = ''Channels'' then bind_m (access_m (src_channels S (n_id n))) (\<lambda>ss. return_m (id_list ss))
      else if meth = ''DPs'' then bind_m (access_m (src_datapoints S (n_id n))) (\<lambda>ss. return_m (id_list ss))
      else if meth = ''Active'' then
        (case args of
           [] \<Rightarrow> read_field S n ''Active''
         | a # _ \<Rightarrow> bind_m (access_m (src_set_program_active S (n_id n) (truthy a))) (\<lambda>ok. return_m (RBool (truthy a))))
      else if meth = ''State'' \<or> meth = ''Value'' then
        (case args of
           [] \<Rightarrow> read_field S n ''Value''
         | a # _ \<Rightarrow>
             if n_kind n = NodeSysvar
             then state_m (\<lambda>st. bind_m (access_m (src_set_sysvar_value S (n_id n) (value_to_go E st a))) (\<lambda>ok. return_m (RBool ok)))
             else return_m (RBool False))
      else if meth = ''AlReceipt'' then bind_m (access_m (src_receipt S (n_id n))) (\<lambda>ok. return_m (RBool ok))
      else if meth = ''ReadyConfig'' then
        (case args of
           [] \<Rightarrow> read_field S n ''ReadyConfig''
         | _ \<Rightarrow> bind_m (access_m (src_device_field S (n_id n) ''SetReadyConfig''))
             (\<lambda>f. return_m (case f of Some v \<Rightarrow> field_value v | None \<Rightarrow> RBool False)))
      else read_field S n meth)"

definition object_call :: "'w env \<Rightarrow> robject \<Rightarrow> string \<Rightarrow> rvalue list \<Rightarrow> ('w, rvalue) run" where
  "object_call E obj meth args =
     (case obj of
        Node n \<Rightarrow> node_call E n meth args
      | Interface s \<Rightarrow> return_m (if meth = ''ID'' \<or> meth = ''Name'' then RStr s else no_value))"

section \<open>Namespaces\<close>

definition eval_dom :: "'w env \<Rightarrow> string \<Rightarrow> rvalue list \<Rightarrow> ('w, rvalue) run" where
  "eval_dom E meth args =
     (case args of
        [] \<Rightarrow> return_m RNull
      | a # _ \<Rightarrow>
          if meth \<noteq> ''GetObject'' then return_m RNull
          else state_m (\<lambda>st. let key = text_in E st a in
            if prefix ''ID_'' key
            then (if key \<in> set collections then fresh_node NodeCollection key else return_m RNull)
            else resolve_key (source E) key))"

definition eval_interfaces :: "'w env \<Rightarrow> string \<Rightarrow> rvalue list \<Rightarrow> ('w, rvalue) run" where
  "eval_interfaces E meth args =
     (case args of
        [] \<Rightarrow> return_m RNull
      | a # _ \<Rightarrow>
          if meth \<noteq> ''Get'' then return_m RNull
          else state_m (\<lambda>st. return_m
            (case List.find (\<lambda>known. equal_fold known (text_in E st a)) (interfaces E) of
               Some known \<Rightarrow> RObj (Interface known) | None \<Rightarrow> RNull)))"

definition pad_to :: "nat \<Rightarrow> nat \<Rightarrow> string" where
  "pad_to n k = replicate (n - length (digits_of k)) (CHR ''0'') @ digits_of k"

definition civil_verb :: "civil \<Rightarrow> char \<Rightarrow> string option" where
  "civil_verb t c =
     (let y = pad_to 4 (c_year t); mo = pad_to 2 (c_month t); d = pad_to 2 (c_day t);
          h = pad_to 2 (c_hour t); mi = pad_to 2 (c_minute t); s = pad_to 2 (c_second t)
      in map_of [(CHR ''F'', y @ ''-'' @ mo @ ''-'' @ d), (CHR ''T'', h @ '':'' @ mi @ '':'' @ s),
          (CHR ''Y'', y), (CHR ''m'', mo), (CHR ''d'', d), (CHR ''H'', h), (CHR ''M'', mi), (CHR ''S'', s)] c)"

fun strftime :: "civil \<Rightarrow> string \<Rightarrow> string" where
  "strftime t [] = []"
| "strftime t [c] = [c]"
| "strftime t (c # d # cs) =
     (if c = CHR ''%'' then
        (case civil_verb t d of Some s \<Rightarrow> s @ strftime t cs | None \<Rightarrow> c # strftime t (d # cs))
      else c # strftime t (d # cs))"

definition eval_time :: "'w env \<Rightarrow> string \<Rightarrow> rvalue list \<Rightarrow> ('w, rvalue) run" where
  "eval_time E meth args =
     state_m (\<lambda>st. let now = clock E (world st) in
       return_m
         (if meth = ''Format'' then
            RStr (strftime now (case args of [] \<Rightarrow> ''%F %T'' | a # _ \<Rightarrow> text_in E st a))
          else if meth = ''ToInteger'' \<or> meth = ''ToTime'' then RNum (f64_of_int (c_unix now))
          else RStr (strftime now ''%F %T'')))"

definition get_var :: "'w env \<Rightarrow> rvalue list \<Rightarrow> ('w, rvalue) run" where
  "get_var E args =
     state_m (\<lambda>st. return_m
       (case args of
          a # _ \<Rightarrow> if equal_fold (text_in E st a) ''SERIALNO'' then RStr (serial_no E) else no_value
        | [] \<Rightarrow> no_value))"

definition exec_m :: "'w env \<Rightarrow> string \<Rightarrow> ('w, string \<times> bool) run" where
  "exec_m E cmd = (case exec_command E of Some f \<Rightarrow> access_m (f cmd) | None \<Rightarrow> return_m ([], False))"

definition namespaces :: "string list" where
  "namespaces = [''dom'', ''system'', ''interfaces'', ''localtime'', ''systime'']"

section \<open>Operators\<close>

text \<open>\<open>math.Mod\<close>: exact, with the sign of the dividend.\<close>

fun f64_mod :: "f64 \<Rightarrow> f64 \<Rightarrow> f64" where
  "f64_mod (Fin p) (Fin q) =
     (if q = 0 then NaN
      else (let r = p - q * of_int (trunc_rat (p / q)) in if r = 0 then zero_of (p < 0) else Fin r))"
| "f64_mod (Fin p) (Inf s) = Fin p"
| "f64_mod NegZero (Fin q) = (if q = 0 then NaN else NegZero)"
| "f64_mod NegZero (Inf s) = NegZero"
| "f64_mod x y = NaN"

definition operator_value :: "'w env \<Rightarrow> string \<Rightarrow> rvalue \<Rightarrow> rvalue \<Rightarrow> ('w, rvalue) run" where
  "operator_value E op l r = state_m (\<lambda>st.
     let L = lib E; x = value_number L l; y = value_number L r; eq = value_equals L (number_text E) (object_name E (world st)) l r
     in if op = ''&&'' \<or> op = ''||'' then return_m (RBool (truthy r))
        else if op = ''#'' then return_m (RStr (text_in E st l @ text_in E st r))
        else if op = ''=='' then return_m (RBool eq)
        else if op = ''!='' then return_m (RBool (\<not> eq))
        else if op = ''<'' then return_m (RBool (f64_less x y))
        else if op = ''>'' then return_m (RBool (f64_less y x))
        else if op = ''<='' then return_m (RBool (f64_le x y))
        else if op = ''>='' then return_m (RBool (f64_le y x))
        else if op = ''+'' then
          (if \<not> is_numeric L l \<or> \<not> is_numeric L r then return_m (RStr (text_in E st l @ text_in E st r))
           else return_m (RNum (f64_add x y)))
        else if op = ''-'' then return_m (RNum (f64_sub x y))
        else if op = ''*'' then return_m (RNum (f64_mul x y))
        else if op = ''/'' then return_m (RNum (if is_zero y then Fin 0 else f64_div x y))
        else if op = ''%'' then return_m (RNum (if is_zero y then Fin 0 else f64_mod x y))
        else if op = ''&'' then return_m (RNum (f64_of_int (go_int L x AND go_int L y)))
        else fail_m (UnknownOperator op))"

section \<open>Expressions\<close>

fun literal_value :: "literal \<Rightarrow> rvalue" where
  "literal_value (LStr s) = RStr s"
| "literal_value (LNum x) = RNum x"
| "literal_value (LBool b) = RBool b"

text \<open>An undeclared identifier is its own name.\<close>

definition read_var :: "string \<Rightarrow> ('w, rvalue) run" where
  "read_var x = state_m (\<lambda>st. return_m (case map_of (vars st) x of Some v \<Rightarrow> v | None \<Rightarrow> RStr x))"

definition write_all :: "'w env \<Rightarrow> (string \<Rightarrow> string) \<Rightarrow> rvalue list \<Rightarrow> string \<Rightarrow> ('w, rvalue) run" where
  "write_all E f args end =
     state_m (\<lambda>st. bind_m (write_m (concat (map (\<lambda>a. f (text_in E st a)) args) @ end)) (\<lambda>_. return_m no_value))"

definition call_function :: "'w env \<Rightarrow> string \<Rightarrow> rvalue list \<Rightarrow> ('w, rvalue) run" where
  "call_function E f args =
     (if f = ''Write'' then write_all E id args []
      else if f = ''WriteLine'' then write_all E id args [CHR 0x0A]
      else if f = ''WriteURL'' then write_all E uri_encode args []
      else fail_m (UnknownFunction f))"

text \<open>The name of an undeclared namespace that a member is read from.\<close>

definition namespace_of :: "expr \<Rightarrow> 'w istate \<Rightarrow> string option" where
  "namespace_of e st =
     (case e of EIdent x \<Rightarrow> if map_of (vars st) x = None \<and> x \<in> set namespaces then Some x else None | _ \<Rightarrow> None)"

text \<open>The out-parameter of \<open>system.Exec\<close>, its second argument.\<close>

definition exec_result :: "expr list \<Rightarrow> string \<times> bool \<Rightarrow> ('w, rvalue) run" where
  "exec_result args res =
     (case args of
        _ # ERef x # _ \<Rightarrow> bind_m (set_var x (RStr (fst res))) (\<lambda>_. return_m (RBool (snd res)))
      | _ \<Rightarrow> return_m (RBool (snd res)))"

definition member_call :: "'w env \<Rightarrow> rvalue \<Rightarrow> string \<Rightarrow> rvalue list \<Rightarrow> ('w, rvalue) run" where
  "member_call E v meth args =
     (case v of
        RNull \<Rightarrow> return_m no_value
      | RObj obj \<Rightarrow> object_call E obj meth args
      | _ \<Rightarrow> state_m (\<lambda>st. return_m (string_method (lib E) (number_text E) (object_name E (world st)) v meth args)))"

fun eval :: "'w env \<Rightarrow> expr \<Rightarrow> ('w, rvalue) run"
  and eval_args :: "'w env \<Rightarrow> expr list \<Rightarrow> ('w, rvalue list) run"
  and eval_first :: "'w env \<Rightarrow> expr list \<Rightarrow> ('w, rvalue option) run" where
  "eval E (ELit l) = return_m (literal_value l)"
| "eval E (EIdent x) = read_var x"
| "eval E (ERef x) = return_m (RStr (CHR ''&'' # x))"
| "eval E (EUnary op e) =
     bind_m (eval E e) (\<lambda>v. return_m (if op = ''!'' then RBool (\<not> truthy v) else RNum (f64_neg (value_number (lib E) v))))"
| "eval E (EBinary op e1 e2) =
     bind_m (eval E e1) (\<lambda>l.
       if op = ''&&'' \<and> \<not> truthy l then return_m (RBool False)
       else if op = ''||'' \<and> truthy l then return_m (RBool True)
       else bind_m (eval E e2) (operator_value E op l))"
| "eval E (ECall f args) = bind_m (eval_args E args) (call_function E f)"
| "eval E (EMember e meth args) =
     state_m (\<lambda>st. case namespace_of e st of
       Some ns \<Rightarrow>
         if ns = ''dom'' then bind_m (eval_args E args) (eval_dom E meth)
         else if ns = ''system'' then
           (if meth = ''Exec'' then
              bind_m (eval_first E args) (\<lambda>cmd. case cmd of
                None \<Rightarrow> return_m (RBool False)
              | Some v \<Rightarrow> state_m (\<lambda>st. bind_m (exec_m E (text_in E st v)) (exec_result args)))
            else if meth = ''GetVar'' then bind_m (eval_args E args) (get_var E)
            else return_m (if meth = ''Save'' \<or> meth = ''SaveObjectModel'' then RBool True else no_value))
         else if ns = ''interfaces'' then bind_m (eval_args E args) (eval_interfaces E meth)
         else bind_m (eval_args E args) (eval_time E meth)
     | None \<Rightarrow>
         bind_m (eval E e) (\<lambda>v. bind_m (eval_args E args) (member_call E v meth)))"
| "eval_args E [] = return_m []"
| "eval_args E (e # es) = bind_m (eval E e) (\<lambda>v. bind_m (eval_args E es) (\<lambda>vs. return_m (v # vs)))"
| "eval_first E [] = return_m None"
| "eval_first E (e # es) = bind_m (eval E e) (\<lambda>v. return_m (Some v))"

section \<open>Statements\<close>

definition max_loop_iterations :: nat where
  "max_loop_iterations = 1000000"

text \<open>The loops: a \<open>foreach\<close> over the items from a count on, a \<open>while\<close> with the number of turns left.\<close>

fun foreach_loop :: "string \<Rightarrow> ('w, unit) run \<Rightarrow> nat \<Rightarrow> rvalue list \<Rightarrow> ('w, unit) run" where
  "foreach_loop x body i [] = return_m ()"
| "foreach_loop x body i (v # vs) =
     (if max_loop_iterations \<le> i then fail_m (LoopLimit ''foreach'')
      else bind_m (set_var x v) (\<lambda>_. bind_m body (\<lambda>_. foreach_loop x body (Suc i) vs)))"

fun while_loop :: "('w, rvalue) run \<Rightarrow> ('w, unit) run \<Rightarrow> nat \<Rightarrow> ('w, unit) run" where
  "while_loop cond body n =
     (if n = 0 then fail_m (LoopLimit ''while'')
      else bind_m cond (\<lambda>v. if \<not> truthy v then return_m () else bind_m body (\<lambda>_. while_loop cond body (n - 1))))"

declare while_loop.simps [simp del]

fun execute :: "'w env \<Rightarrow> stmt \<Rightarrow> ('w, unit) run"
  and execute_all :: "'w env \<Rightarrow> stmt list \<Rightarrow> ('w, unit) run" where
  "execute E (SDecl ty x None) = set_var x no_value"
| "execute E (SDecl ty x (Some e)) = bind_m (eval E e) (set_var x)"
| "execute E (SAssign x e) = bind_m (eval E e) (set_var x)"
| "execute E (SExpr e) = bind_m (eval E e) (\<lambda>_. return_m ())"
| "execute E (SIf c th el) = bind_m (eval E c) (\<lambda>v. if truthy v then execute_all E th else execute_all E el)"
| "execute E (SForeach x l body) = bind_m (eval E l) (\<lambda>v. foreach_loop x (execute_all E body) 0 (value_items v))"
| "execute E (SWhile c body) = while_loop (eval E c) (execute_all E body) max_loop_iterations"
| "execute_all E [] = return_m ()"
| "execute_all E (s # ss) = bind_m (execute E s) (\<lambda>_. execute_all E ss)"

text \<open>\<open>Run\<close>: what was written, and the error that ended the run.\<close>

definition start_run :: "'w \<Rightarrow> 'w istate" where
  "start_run w = \<lparr>vars = [], out = [], world = w, next_ref = 0\<rparr>"

definition run_script :: "'w env \<Rightarrow> string \<Rightarrow> 'w \<Rightarrow> string \<times> run_error option \<times> 'w" where
  "run_script E src w =
     (case parse src of
        Inl e \<Rightarrow> ([], Some (ParseFailed e), w)
      | Inr prog \<Rightarrow>
          (case execute_all E prog (start_run w) of
             (Inl e, st) \<Rightarrow> (out st, Some e, world st)
           | (Inr _, st) \<Rightarrow> (out st, None, world st)))"

end
