(* ===== verification/Rega_Interp_Props.thy ===== *)
theory Rega_Interp_Props
  imports Rega_Interp
begin

text \<open>
  What holds of every script: nothing written is taken back and no variable vanishes, whatever ends the run; a
  \<open>while\<close> ends exactly when its condition fails within the bound; an encoded text is plain and decodes to itself.
\<close>

named_theorems runs \<open>the combinators of a run, unfolded\<close>

declare return_m_def [runs] fail_m_def [runs] access_m_def [runs] state_m_def [runs] write_m_def [runs]
  set_var_def [runs] fresh_node_def [runs]

section \<open>A run only adds\<close>

definition extends :: "'w istate \<Rightarrow> 'w istate \<Rightarrow> bool" where
  "extends st st' \<longleftrightarrow> prefix (out st) (out st') \<and> dom (map_of (vars st)) \<subseteq> dom (map_of (vars st')) \<and> next_ref st \<le> next_ref st'"

definition grows :: "('w, 'a) run \<Rightarrow> bool" where
  "grows m \<longleftrightarrow> (\<forall>st. extends st (snd (m st)))"

lemma extends_refl [simp]: "extends st st"
  by (simp add: extends_def)

lemma extends_trans: "extends st st' \<Longrightarrow> extends st' st'' \<Longrightarrow> extends st st''"
  unfolding extends_def by (meson order_trans prefix_order.trans)

lemma grows_basic [simp, intro]:
  "grows (return_m a)" "grows (fail_m e)" "grows (access_m f)" "grows (write_m s)" "grows (set_var x v)" "grows (fresh_node k i)"
  by (auto simp: grows_def extends_def runs split: prod.split)

lemma grows_bind [intro]:
  assumes "grows m" "\<And>x. grows (f x)"
  shows "grows (bind_m m f)"
  unfolding grows_def
proof
  fix st
  obtain res st1 where m: "m st = (res, st1)" by fastforce
  with assms(1) have 1: "extends st st1" by (metis grows_def snd_conv)
  show "extends st (snd (bind_m m f st))"
  proof (cases res)
    case (Inr x)
    from assms(2) have "extends st1 (snd (f x st1))" by (simp add: grows_def)
    with 1 Inr m show ?thesis by (simp add: bind_m_def extends_trans)
  qed (simp add: bind_m_def m 1)
qed

lemma grows_state [intro]: "(\<And>st. grows (f st)) \<Longrightarrow> grows (state_m f)"
  by (simp add: grows_def state_m_def)

lemma grows_if [intro]: "grows a \<Longrightarrow> grows b \<Longrightarrow> grows (if c then a else b)"
  by simp

lemma grows_cases [intro]:
  "grows a \<Longrightarrow> (\<And>x xs. grows (f x xs)) \<Longrightarrow> grows (case l of [] \<Rightarrow> a | x # xs \<Rightarrow> f x xs)"
  "grows a \<Longrightarrow> (\<And>x. grows (g x)) \<Longrightarrow> grows (case p of None \<Rightarrow> a | Some x \<Rightarrow> g x)"
  by (auto split: list.split option.split)

lemma grows_resolve [intro]: "grows (resolve_key S key)"
  by (auto simp: resolve_key_def split: option.split)

lemma grows_field [intro]: "grows (read_field S n f)"
  unfolding read_field_def by (intro grows_bind grows_basic)

lemmas grow = grows_if grows_bind grows_state grows_cases grows_basic grows_resolve grows_field

lemma grows_enumerate [intro]: "grows (enumerate_node S n meth)"
  unfolding enumerate_node_def enumerate_collection_def Let_def
  by (cases "n_kind n") (simp_all only: node_kind.case, (intro grow)+)

lemma grows_object: "grows (object_call E obj meth args)"
proof (cases obj)
  case (Node n)
  have "grows (node_call E n meth args)"
    unfolding node_call_def Let_def by (intro grow grows_enumerate)
  with Node show ?thesis by (simp add: object_call_def)
qed (simp add: object_call_def)

lemma grows_member: "grows (member_call E v meth args)"
  by (cases v) (simp_all add: member_call_def grows_object grows_state)

lemma grows_dom: "grows (eval_dom E meth args)"
  unfolding eval_dom_def Let_def by (intro grow)

lemma grows_interfaces: "grows (eval_interfaces E meth args)"
  unfolding eval_interfaces_def by (intro grow)

lemma grows_time: "grows (eval_time E meth args)"
  unfolding eval_time_def Let_def by (intro grow)

lemma grows_get_var: "grows (get_var E args)"
  unfolding get_var_def by (intro grow)

lemma grows_exec: "grows (exec_m E cmd)" "grows (exec_result es res)"
  unfolding exec_m_def exec_result_def by (auto split: list.split option.split expr.split)

lemma grows_operator: "grows (operator_value E op l r)"
  unfolding operator_value_def Let_def by (intro grow)

lemma grows_function: "grows (call_function E f args)"
  unfolding call_function_def write_all_def by (intro grow)

lemmas grow_space = grows_member grows_dom grows_interfaces grows_time grows_get_var grows_exec grows_operator grows_function

lemma grows_args:
  assumes "\<And>e. e \<in> set es \<Longrightarrow> grows (eval E e)"
  shows "grows (eval_args E es)" "grows (eval_first E es)"
proof -
  show "grows (eval_args E es)"
    using assms
  proof (induction es)
    case (Cons e es)
    then have "grows (eval E e)" "grows (eval_args E es)" by simp_all
    then show ?case unfolding eval_args.simps by (intro grow)
  qed simp
  show "grows (eval_first E es)"
    using assms by (cases es) (auto intro!: grow)
qed

lemma grows_eval: "grows (eval E e)"
proof (induction e)
  case (EIdent x)
  show ?case unfolding eval.simps read_var_def by (intro grow)
next
  case (EMember e meth args)
  note grows_args [OF EMember(2)] and EMember(1)
  then show ?case unfolding eval.simps by (intro grow grow_space)
next
  case (ECall f args)
  show ?case unfolding eval.simps by (intro grow grow_space grows_args(1) [OF ECall])
qed (simp_all, (intro grow grow_space; simp)+)

lemma grows_foreach: "grows body \<Longrightarrow> grows (foreach_loop x body i vs)"
  by (induction x body i vs rule: foreach_loop.induct) auto

lemma grows_while: "grows cond \<Longrightarrow> grows body \<Longrightarrow> grows (while_loop cond body n)"
proof (induction cond body n rule: while_loop.induct)
  case (1 cond body n)
  from 1(1) [of "RBool True"] 1(2,3) have "n \<noteq> 0 \<Longrightarrow> grows (while_loop cond body (n - 1))" by simp
  with 1(2,3) show ?case
    by (subst while_loop.simps) (cases "n = 0"; auto intro!: grows_bind grows_if simp del: One_nat_def)
qed

lemma grows_execute: "grows (execute E s)" "grows (execute_all E ss)"
  by (induction E s and E ss rule: execute_execute_all.induct) (auto simp: grows_eval grows_foreach grows_while)

text \<open>Running statements in any state, to the end or to an error, only adds: the text written so far stays the
  beginning of the text, every variable that was declared still is, and node numbers are never given twice.\<close>

theorem run_only_adds:
  "case execute_all E prog st of (res, st') \<Rightarrow>
     prefix (out st) (out st') \<and> dom (map_of (vars st)) \<subseteq> dom (map_of (vars st')) \<and> next_ref st \<le> next_ref st'"
proof -
  have "extends st (snd (execute_all E prog st))" using grows_execute(2) [of E prog] by (simp add: grows_def)
  then show ?thesis by (cases "execute_all E prog st") (simp add: extends_def)
qed

section \<open>When a loop ends\<close>

text \<open>The state after a number of full turns, each with its condition true.\<close>

fun turns :: "('w, rvalue) run \<Rightarrow> ('w, unit) run \<Rightarrow> nat \<Rightarrow> 'w istate \<Rightarrow> 'w istate option" where
  "turns cond body 0 st = Some st"
| "turns cond body (Suc k) st =
     (case cond st of
        (Inl e, st1) \<Rightarrow> None
      | (Inr v, st1) \<Rightarrow>
          if \<not> truthy v then None
          else (case body st1 of (Inl e, st2) \<Rightarrow> None | (Inr _, st2) \<Rightarrow> turns cond body k st2))"

lemma while_loop_iff:
  "while_loop cond body n st = (Inr (), st') \<longleftrightarrow>
     (\<exists>k < n. \<exists>st1 v. turns cond body k st = Some st1 \<and> cond st1 = (Inr v, st') \<and> \<not> truthy v)"
proof (induction n arbitrary: st)
  case 0
  show ?case by (simp add: while_loop.simps fail_m_def)
next
  case (Suc n)
  have split: "(\<exists>k < Suc n. P k) \<longleftrightarrow> P 0 \<or> (\<exists>k < n. P (Suc k))" for P :: "nat \<Rightarrow> bool"
    using less_Suc_eq_0_disj by auto
  show ?case
    unfolding split
    by (subst while_loop.simps)
      (auto simp: bind_m_def return_m_def Suc.IH split: prod.splits sum.splits if_splits)
qed

text \<open>A \<open>while\<close> statement ends without error exactly when its condition fails after fewer than a million full
  turns, and then in the state that evaluation of the condition left.\<close>

theorem while_ends_iff:
  "execute E (SWhile c body) st = (Inr (), st') \<longleftrightarrow>
     (\<exists>k < 1000000. \<exists>st1 v. turns (eval E c) (execute_all E body) k st = Some st1 \<and>
        eval E c st1 = (Inr v, st') \<and> \<not> truthy v)"
  by (simp add: while_loop_iff max_loop_iterations_def)

section \<open>Encoded texts\<close>

definition hex_of_upper :: "char \<Rightarrow> nat" where
  "hex_of_upper c = (if of_char c < (58 :: nat) then of_char c - 48 else of_char c - 55)"

text \<open>What a client does: every percent and its two digits become the character again.\<close>

fun uri_decode :: "string \<Rightarrow> string" where
  "uri_decode [] = []"
| "uri_decode (c # cs) =
     (if c = CHR ''%'' then
        (case cs of a # b # rest \<Rightarrow> char_of (16 * hex_of_upper a + hex_of_upper b) # uri_decode rest | _ \<Rightarrow> c # cs)
      else c # uri_decode cs)"

definition uri_char :: "char \<Rightarrow> string" where
  "uri_char c =
     (if unreserved c then [c] else if c = CHR '' '' then ''%20''
      else [CHR ''%'', upper_hex (of_char c div 16), upper_hex (of_char c mod 16)])"

lemma split_plus:
  "join_text ''%20'' (split_nonempty ''+'' acc s) = rev acc @ concat (map (\<lambda>c. if c = CHR ''+'' then ''%20'' else [c]) s)"
proof (induction s arbitrary: acc)
  case Nil
  show ?case by (simp add: split_nonempty.simps)
next
  case (Cons c s)
  have ne: "split_nonempty ''+'' acc s \<noteq> []" for acc
    by (induction s arbitrary: acc) (subst split_nonempty.simps, simp)+
  then have join: "join_text ''%20'' (a # split_nonempty ''+'' [] s) = a @ ''%20'' @ join_text ''%20'' (split_nonempty ''+'' [] s)" for a
    by (cases "split_nonempty ''+'' [] s") auto
  show ?case
    by (subst split_nonempty.simps) (auto simp: join Cons.IH)
qed

lemma plus_digit: "n < 16 \<Longrightarrow> upper_hex n \<noteq> CHR ''+''"
  by (auto simp: upper_hex_def char_of_eq_iff take_bit_eq_mod)

lemma of_char_div: "(of_char c :: nat) div 16 < 16"
  using nat_of_char_less_256 [of c] by (simp add: less_mult_imp_div_less)

lemma uri_encode_chars: "uri_encode s = concat (map uri_char s)"
proof -
  have "concat (map (\<lambda>c. if c = CHR ''+'' then ''%20'' else [c])
      (if unreserved c then [c] else if c = CHR '' '' then ''+''
        else [CHR ''%'', upper_hex (of_char c div 16), upper_hex (of_char c mod 16)])) = uri_char c" for c
    using plus_digit [OF of_char_div, of c] plus_digit [of "of_char c mod 16"]
    by (auto simp: uri_char_def unreserved_def less_eq_char_def)
  then show ?thesis
    unfolding uri_encode_def replace_all_def query_escape_def
    by (simp add: split_plus, induction s) simp_all
qed

lemma hex_roundtrip: "n < 16 \<Longrightarrow> hex_of_upper (upper_hex n) = n"
  by (auto simp: hex_of_upper_def upper_hex_def)

lemma uri_decode_char: "uri_decode (uri_char c @ s) = c # uri_decode s"
proof -
  have "16 * (of_char c div 16) + of_char c mod 16 = (of_char c :: nat)" by simp
  moreover have "unreserved c \<Longrightarrow> c \<noteq> CHR ''%''" by (auto simp: unreserved_def less_eq_char_def)
  moreover have "char_of (16 * hex_of_upper (CHR ''2'') + hex_of_upper (CHR ''0'')) = CHR '' ''"
    by code_simp
  ultimately show ?thesis
    using hex_roundtrip [OF of_char_div, of c] hex_roundtrip [of "of_char c mod 16"] by (simp add: uri_char_def)
qed

text \<open>C30. An encoded text holds only letters, digits, the four marks and percents, and decodes to the text it was.\<close>

theorem uri_roundtrip:
  "uri_decode (uri_encode s) = s \<and> list_all (\<lambda>c. unreserved c \<or> c = CHR ''%'') (uri_encode s)"
proof (induction s)
  case (Cons c s)
  have digit: "n < 16 \<Longrightarrow> unreserved (upper_hex n)" for n
    by (auto simp: unreserved_def upper_hex_def less_eq_char_def)
  have "list_all (\<lambda>c. unreserved c \<or> c = CHR ''%'') (uri_char c)"
    using digit [OF of_char_div, of c] digit [of "of_char c mod 16"]
    by (auto simp: uri_char_def) (auto simp: unreserved_def less_eq_char_def)
  with Cons show ?case by (simp add: uri_encode_chars uri_decode_char)
qed (simp add: uri_encode_chars)

section \<open>Objects compare as pointers\<close>

text \<open>The null object equals every text, number and truth value, and two lookups of one object never agree.\<close>

lemma null_equals_scalars:
  "value_equals L ff nm RNull (RStr s)" "value_equals L ff nm (RNum x) RNull" "value_equals L ff nm RNull (RBool b)"
  by (simp_all add: value_equals_def)

lemma lookups_differ:
  assumes "resolve_key S key st = (Inr (RObj a), st1)" "resolve_key S key' st1 = (Inr (RObj b), st2)"
  shows "\<not> value_equals L ff nm (RObj a) (RObj b)"
  using assms
  by (auto simp: resolve_key_def bind_m_def runs value_equals_def split: prod.splits sum.splits option.splits)

end
