(* ===== verification/Rega_Source.thy ===== *)
theory Rega_Source
  imports Rega_Interp_Props State_Props Device_Rpc
begin

text \<open>
  \<^verbatim>\<open>internal/virtualccu/regasource.go\<close> and the script endpoint of \<^verbatim>\<open>regaserver.go\<close>: the state manager
  and the device simulator as the data source of scripts. The time is a record: seconds since the epoch, the
  float the state manager stamps variables with, and the integer Go makes of such a stamp. What the state manager
  calls its observers with is kept in a list. One script runs while nothing else happens.
\<close>

record moment =
  unix_time :: int
  stamp :: float64
  stamp_int :: "float64 \<Rightarrow> int"
  local_time :: civil

record rworld =
  mgr :: "gov manager"
  sim :: "rpc option"
  notified :: "(nat \<times> string \<times> gov) list"

definition with_mgr :: "(gov manager \<Rightarrow> 'a \<times> gov manager) \<Rightarrow> (rworld, 'a) access" where
  "with_mgr f w = (case f (mgr w) of (x, m) \<Rightarrow> (x, w\<lparr>mgr := m\<rparr>))"

definition root_of :: "string \<Rightarrow> string" where
  "root_of a = fst (cut_byte (CHR '':'') a)"

section \<open>Devices\<close>

definition is_root :: "val_map \<Rightarrow> bool" where
  "is_root d \<longleftrightarrow> text_of d ''ADDRESS'' \<noteq> [] \<and> CHR '':'' \<notin> set (text_of d ''ADDRESS'')"

definition rs_devices :: "(rworld, string list) access" where
  "rs_devices w =
     (case sim w of
        None \<Rightarrow> ([], w)
      | Some r \<Rightarrow> (map (\<lambda>d. text_of d ''ADDRESS'') (filter is_root (devices (store r))), w))"

definition description_in :: "rworld \<Rightarrow> string \<Rightarrow> val_map option" where
  "description_in w a =
     (case sim w of
        None \<Rightarrow> None
      | Some r \<Rightarrow> (case get_device_description a (store r) of Inr d \<Rightarrow> Some d | Inl e \<Rightarrow> None))"

definition rs_channels :: "string \<Rightarrow> (rworld, string list) access" where
  "rs_channels a w =
     (case description_in w a of
        None \<Rightarrow> ([], w)
      | Some d \<Rightarrow>
          (case any_list (entry_of d ''CHILDREN'') of
             Some vs \<Rightarrow> (List.map_filter any_str vs, w) | None \<Rightarrow> ([], w)))"

definition in_inbox :: "string \<Rightarrow> gov manager \<Rightarrow> bool" where
  "in_inbox a m = list_ex (\<lambda>d. equal_fold (ib_address d) (root_of a)) (inbox m)"

definition rs_device_field :: "string \<Rightarrow> string \<Rightarrow> (rworld, field option) access" where
  "rs_device_field a f w =
     (if sim w = None then (None, w)
      else if f = ''Address'' then (Some (FAny (GStr a)), w)
      else if f = ''Name'' then
        (Some (FAny (GStr (case device_name a (mgr w) of Some n \<Rightarrow> n | None \<Rightarrow> a))), w)
      else if f = ''TypeName'' then (Some (FAny (GStr (if CHR '':'' \<in> set a then ''CHANNEL'' else ''DEVICE''))), w)
      else if f = ''ReadyConfig'' then (Some (FAny (GBool (\<not> in_inbox a (mgr w)))), w)
      else if f = ''SetReadyConfig'' then
        (case with_mgr (accept_inbox_device (root_of a)) w of (ok, w1) \<Rightarrow> (Some (FAny (GBool ok)), w1))
      else (case description_in w a of
        None \<Rightarrow> (None, w)
      | Some d \<Rightarrow>
          if f = ''HssType'' then (Some (FAny (GStr (text_of d ''TYPE''))), w)
          else if f = ''Interface'' then
            (Some (FAny (GStr (interface_for_type
               (if text_of d ''PARENT_TYPE'' \<noteq> [] then text_of d ''PARENT_TYPE'' else text_of d ''TYPE'')))), w)
          else if f = ''Channels'' then (case rs_channels a w of (cs, w1) \<Rightarrow> (Some (FStrings cs), w1))
          else (map_option FAny (map_of d (to_upper f)), w)))"

definition rs_datapoints :: "golib \<Rightarrow> string \<Rightarrow> (rworld, string list) access" where
  "rs_datapoints L a w =
     (case sim w of
        None \<Rightarrow> ([], w)
      | Some r \<Rightarrow>
          (case get_paramset L a ''VALUES'' r of
             (Inl e, r1) \<Rightarrow> ([], w\<lparr>sim := Some r1\<rparr>) | (Inr ps, r1) \<Rightarrow> (map fst ps, w\<lparr>sim := Some r1\<rparr>)))"

definition rs_datapoint_value :: "golib \<Rightarrow> string \<Rightarrow> string \<Rightarrow> (rworld, field option) access" where
  "rs_datapoint_value L a p w =
     (case sim w of
        None \<Rightarrow> (None, w)
      | Some r \<Rightarrow>
          (case get_value L a p r of
             (Inl e, r1) \<Rightarrow> (None, w\<lparr>sim := Some r1\<rparr>) | (Inr v, r1) \<Rightarrow> (Some (FAny v), w\<lparr>sim := Some r1\<rparr>)))"

definition rs_datapoint_timestamp :: "golib \<Rightarrow> moment \<Rightarrow> string \<Rightarrow> string \<Rightarrow> (rworld, int) access" where
  "rs_datapoint_timestamp L t a p w =
     (case rs_datapoint_value L a p w of (v, w1) \<Rightarrow> (if v = None then 0 else unix_time t, w1))"

section \<open>Programs, variables, groups, messages\<close>

definition ids_of :: "int list \<Rightarrow> string list" where
  "ids_of is = map format_int is"

definition rs_programs :: "(rworld, string list) access" where
  "rs_programs w = (ids_of (map prog_id (all_programs (mgr w))), w)"

text \<open>A field of the entry an id names; \<open>Atoi\<close> and the entry may fail.\<close>

definition by_id :: "string \<Rightarrow> (int \<Rightarrow> 'a option) \<Rightarrow> ('a \<Rightarrow> field option) \<Rightarrow> field option" where
  "by_id i look f = (case parse_int 10 i of None \<Rightarrow> None | Some n \<Rightarrow> (case look n of None \<Rightarrow> None | Some x \<Rightarrow> f x))"

definition str_field :: "string \<Rightarrow> field option" where
  "str_field s = Some (FAny (GStr s))"

definition rs_program_field :: "string \<Rightarrow> string \<Rightarrow> (rworld, field option) access" where
  "rs_program_field i f w =
     (by_id i (\<lambda>n. program_by_id n (mgr w)) (\<lambda>p.
        if f = ''Name'' then str_field (prog_name p)
        else if f = ''Active'' then Some (FAny (GBool (prog_active p)))
        else if f = ''PrgInfo'' \<or> f = ''Description'' then str_field (prog_description p)
        else if f = ''ID'' then str_field i else None), w)"

definition rs_set_program_active :: "string \<Rightarrow> bool \<Rightarrow> (rworld, bool) access" where
  "rs_set_program_active i active w =
     (case parse_int 10 i of None \<Rightarrow> (False, w) | Some n \<Rightarrow> with_mgr (set_program_active n active) w)"

definition rs_system_variables :: "(rworld, string list) access" where
  "rs_system_variables w = (ids_of (map sv_id (system_variables (mgr w))), w)"

definition rega_value_type_name :: "string \<Rightarrow> string" where
  "rega_value_type_name ty =
     (let u = to_upper ty in
      if u = ''BOOL'' \<or> u = ''ALARM'' then ''Boolean'' else if u = ''FLOAT'' then ''Float''
      else if u = ''ENUM'' then ''Integer'' else ''String'')"

definition rega_value_type :: "string \<Rightarrow> int" where
  "rega_value_type ty =
     (let u = to_upper ty in
      if u = ''BOOL'' \<or> u = ''ALARM'' then 2 else if u = ''FLOAT'' then 4 else if u = ''ENUM'' then 16 else 20)"

definition rs_sysvar_field :: "moment \<Rightarrow> string \<Rightarrow> string \<Rightarrow> (rworld, field option) access" where
  "rs_sysvar_field t i f w =
     (by_id i (\<lambda>n. system_variable_by_id n (mgr w)) (\<lambda>sv.
        if f = ''Name'' then str_field (sv_name sv)
        else if f = ''Value'' \<or> f = ''State'' then Some (FAny (sv_value sv))
        else if f = ''ValueTypeStr'' then str_field (rega_value_type_name (sv_type sv))
        else if f = ''ValueType'' then Some (FAny (GInt (rega_value_type (sv_type sv))))
        else if f = ''DPInfo'' \<or> f = ''Description'' then str_field (sv_description sv)
        else if f = ''Channel'' then str_field (sv_channel sv)
        else if f = ''Timestamp'' \<or> f = ''LastTimestamp'' then Some (FAny (GInt (stamp_int t (sv_timestamp sv))))
        else if f = ''ID'' then str_field i else None), w)"

definition set_variable :: "moment \<Rightarrow> string \<Rightarrow> gov \<Rightarrow> (rworld, bool) access" where
  "set_variable t name v w =
     (case set_system_variable name v (stamp t) (mgr w) of
        (ok, calls, m) \<Rightarrow> (ok, w\<lparr>mgr := m, notified := notified w @ calls\<rparr>))"

definition rs_set_sysvar_value :: "moment \<Rightarrow> string \<Rightarrow> gov \<Rightarrow> (rworld, bool) access" where
  "rs_set_sysvar_value t key v w =
     (case parse_int 10 key of
        None \<Rightarrow> set_variable t key v w
      | Some n \<Rightarrow>
          (case system_variable_by_id n (mgr w) of
             Some sv \<Rightarrow> set_variable t (sv_name sv) v w | None \<Rightarrow> set_variable t key v w))"

definition rs_rooms :: "(rworld, string list) access" where
  "rs_rooms w = (ids_of (map room_id (all_rooms (mgr w))), w)"

definition rs_functions :: "(rworld, string list) access" where
  "rs_functions w = (ids_of (map room_id (all_functions (mgr w))), w)"

definition rs_group_field :: "string \<Rightarrow> string \<Rightarrow> string \<Rightarrow> (rworld, field option) access" where
  "rs_group_field kind i f w =
     (by_id i (\<lambda>n. if kind = ''room'' then room_by_id n (mgr w) else function_by_id n (mgr w)) (\<lambda>g.
        if f = ''Name'' then str_field (room_name g)
        else if f = ''EnumIDs'' \<or> f = ''EnumUsedIDs'' \<or> f = ''Channels'' then Some (FStrings (room_channels g))
        else if f = ''ID'' then str_field i else None), w)"

definition rs_service_messages :: "(rworld, string list) access" where
  "rs_service_messages w = (ids_of (map sm_id (manager.service_messages (mgr w))), w)"

definition rs_service_field :: "moment \<Rightarrow> string \<Rightarrow> string \<Rightarrow> (rworld, field option) access" where
  "rs_service_field t i f w =
     (by_id i (\<lambda>n. List.find (\<lambda>msg. sm_id msg = n) (manager.service_messages (mgr w))) (\<lambda>msg.
        if f = ''Name'' then str_field (sm_name msg)
        else if f = ''AlState'' then Some (FAny (GInt 1))
        else if f = ''AlTriggerDP'' then str_field (sm_address msg)
        else if f = ''AlOccurrenceTime'' then Some (FAny (GInt (stamp_int t (sm_timestamp msg))))
        else if f = ''AlType'' \<or> f = ''Type'' then str_field (sm_type msg)
        else if f = ''ID'' then str_field i else None), w)"

definition rs_receipt :: "string \<Rightarrow> (rworld, bool) access" where
  "rs_receipt i w = (case parse_int 10 i of None \<Rightarrow> (False, w) | Some n \<Rightarrow> with_mgr (clear_service_message n) w)"

text \<open>An id, address or name, in the order of \<open>Resolve\<close>.\<close>

definition resolve_numeric :: "gov manager \<Rightarrow> int \<Rightarrow> node_kind option" where
  "resolve_numeric m n =
     (if program_by_id n m \<noteq> None then Some NodeProgram
      else if system_variable_by_id n m \<noteq> None then Some NodeSysvar
      else if room_by_id n m \<noteq> None then Some NodeRoom
      else if function_by_id n m \<noteq> None then Some NodeFunction
      else if list_ex (\<lambda>msg. sm_id msg = n) (manager.service_messages m) then Some NodeService else None)"

definition resolve_name :: "gov manager \<Rightarrow> string \<Rightarrow> (node_kind \<times> string) option" where
  "resolve_name m key =
     (case system_variable_by_name key m of
        Some sv \<Rightarrow> Some (NodeSysvar, format_int (sv_id sv))
      | None \<Rightarrow> (case program_by_name key m of
                   Some p \<Rightarrow> Some (NodeProgram, format_int (prog_id p)) | None \<Rightarrow> None))"

definition rs_resolve :: "string \<Rightarrow> (rworld, (node_kind \<times> string) option) access" where
  "rs_resolve key w =
     (if key = [] then None
      else if description_in w key \<noteq> None then
        Some (if CHR '':'' \<in> set key then NodeChannel else NodeDevice, key)
      else (case Option.bind (parse_int 10 key) (resolve_numeric (mgr w)) of
              Some kind \<Rightarrow> Some (kind, key)
            | None \<Rightarrow> resolve_name (mgr w) key), w)"

section \<open>The endpoint\<close>

definition rega_source :: "golib \<Rightarrow> moment \<Rightarrow> rworld source" where
  "rega_source L t =
     \<lparr>src_devices = rs_devices, src_channels = rs_channels, src_device_field = rs_device_field,
      src_datapoints = rs_datapoints L, src_datapoint_value = rs_datapoint_value L,
      src_datapoint_timestamp = rs_datapoint_timestamp L t, src_programs = rs_programs,
      src_program_field = rs_program_field, src_set_program_active = rs_set_program_active,
      src_system_variables = rs_system_variables, src_sysvar_field = rs_sysvar_field t,
      src_set_sysvar_value = rs_set_sysvar_value t, src_rooms = rs_rooms, src_functions = rs_functions,
      src_group_field = rs_group_field, src_service_messages = rs_service_messages,
      src_service_field = rs_service_field t, src_receipt = rs_receipt, src_resolve = rs_resolve\<rparr>"

definition contains_text :: "string \<Rightarrow> string \<Rightarrow> bool" where
  "contains_text s pat \<longleftrightarrow> index_of_text pat s \<noteq> None"

definition answer_command :: "string \<Rightarrow> (rworld, string \<times> bool) access" where
  "answer_command cmd w =
     (if contains_text cmd ''hostname'' then (bi_hostname (info (mgr w)), True)
      else if contains_text cmd ''VERSION'' \<and> contains_text cmd ''PRODUCT'' then (bi_product (info (mgr w)), True)
      else if contains_text cmd ''VERSION'' then (bi_version (info (mgr w)), True)
      else if contains_text cmd ''printenv'' then ([], True)
      else ([], False), w)"

definition interface_order :: "string list" where
  "interface_order = [''BidCos-RF'', ''VirtualDevices'', ''HmIP-RF'', ''BidCos-Wired'']"

definition rega_env :: "golib \<Rightarrow> (f64 \<Rightarrow> string) \<Rightarrow> moment \<Rightarrow> gov manager \<Rightarrow> rworld env" where
  "rega_env L ff t m =
     \<lparr>lib = L, number_text = ff, source = rega_source L t, interfaces = interface_order, serial_no = mg_serial m,
      exec_command = Some answer_command, clock = \<lambda>w. local_time t\<rparr>"

text \<open>
  A request to the endpoint: its method, user agent and body (of which a mebibyte is read), answered with a
  status and a body. The script is decoded from ISO-8859-1, run, and its output and the trailer encoded; that it
  failed is not told.
\<close>

definition rega_trailer :: "string \<Rightarrow> string" where
  "rega_trailer agent = ''<xml><exec>/tclrega.exe</exec><sessionId></sessionId><httpUserAgent>''
     @ agent @ ''</httpUserAgent></xml>''"

definition serve_rega_script ::
    "rworld env \<Rightarrow> string \<Rightarrow> string \<Rightarrow> 8 word list \<Rightarrow> rworld \<Rightarrow> (int \<times> 8 word list) \<times> rworld" where
  "serve_rega_script E meth agent body w =
     (if meth \<noteq> ''POST'' then ((405, encode_latin1_lossy (''method not allowed'' @ [char_of (10 :: nat)])), w)
      else (case run_script E (latin1_decode (take (2 ^ 20) body)) w of
              (written, err, w1) \<Rightarrow> ((200, encode_latin1_lossy (written @ rega_trailer agent)), w1)))"

end
