(* ===== verification/Go_Regexp.thy ===== *)
theory Go_Regexp
  imports Prelude
begin

text \<open>
  The part of Go's \<^verbatim>\<open>regexp\<close> package the script engine uses: \<open>MatchString\<close> and \<open>FindStringSubmatch\<close> on
  expressions whose repetitions range over one class of characters. A position is what was read, last character
  first, and what is left. \<open>ends\<close> lists where a match from a position may end, with the texts of its groups, in
  the order of preference of the package (first alternative first, longest repetition first), so that the head of
  the list is the match the package reports. Texts are bytes, letters fold as in ASCII.
\<close>

section \<open>Expressions\<close>

datatype assertion = TextStart | LineStart | TextEnd | WordEdge

datatype regex =
    Empty
  | One "char \<Rightarrow> bool"
  | Many "char \<Rightarrow> bool"
  | Test assertion
  | Group nat regex
  | Then regex regex
  | Else regex regex

type_synonym position = "string \<times> string"

type_synonym groups = "(nat \<times> string) list"

definition is_word :: "char \<Rightarrow> bool" where
  "is_word c \<longleftrightarrow> (CHR ''a'' \<le> c \<and> c \<le> CHR ''z'') \<or> (CHR ''A'' \<le> c \<and> c \<le> CHR ''Z'') \<or>
     (CHR ''0'' \<le> c \<and> c \<le> CHR ''9'') \<or> c = CHR ''_''"

definition is_digit :: "char \<Rightarrow> bool" where
  "is_digit c \<longleftrightarrow> CHR ''0'' \<le> c \<and> c \<le> CHR ''9''"

definition is_blank :: "char \<Rightarrow> bool" where
  "is_blank c \<longleftrightarrow> c \<in> set [CHR '' '', CHR 0x09, CHR 0x0A, CHR 0x0C, CHR 0x0D]"

definition word_at :: "string \<Rightarrow> bool" where
  "word_at s \<longleftrightarrow> (case s of [] \<Rightarrow> False | c # _ \<Rightarrow> is_word c)"

fun holds :: "assertion \<Rightarrow> position \<Rightarrow> bool" where
  "holds TextStart (u, v) = (u = [])"
| "holds LineStart (u, v) = (case u of [] \<Rightarrow> True | c # _ \<Rightarrow> c = CHR 0x0A)"
| "holds TextEnd (u, v) = (v = [])"
| "holds WordEdge (u, v) = (word_at u \<noteq> word_at v)"

section \<open>Matching\<close>

text \<open>The longest run of a class first, then the shorter ones.\<close>

fun runs :: "(char \<Rightarrow> bool) \<Rightarrow> string \<Rightarrow> string \<Rightarrow> position list" where
  "runs P u [] = [(u, [])]"
| "runs P u (c # v) = (if P c then runs P (c # u) v @ [(u, c # v)] else [(u, c # v)])"

text \<open>The text between two positions.\<close>

definition between :: "position \<Rightarrow> position \<Rightarrow> string" where
  "between p q = take (length (snd p) - length (snd q)) (snd p)"

fun ends :: "regex \<Rightarrow> position \<Rightarrow> (position \<times> groups) list" where
  "ends Empty p = [(p, [])]"
| "ends (One P) p = (case p of (u, []) \<Rightarrow> [] | (u, c # v) \<Rightarrow> if P c then [((c # u, v), [])] else [])"
| "ends (Many P) p = map (\<lambda>q. (q, [])) (runs P (fst p) (snd p))"
| "ends (Test a) p = (if holds a p then [(p, [])] else [])"
| "ends (Group n r) p = map (\<lambda>(q, gs). (q, (n, between p q) # gs)) (ends r p)"
| "ends (Then r s) p = concat (map (\<lambda>(q, gs). map (\<lambda>(q', hs). (q', gs @ hs)) (ends s q)) (ends r p))"
| "ends (Else r s) p = ends r p @ ends s p"

text \<open>The leftmost match from a position on.\<close>

fun find_from :: "regex \<Rightarrow> string \<Rightarrow> string \<Rightarrow> (position \<times> position \<times> groups) option" where
  "find_from r u [] = (case ends r (u, []) of [] \<Rightarrow> None | (q, gs) # _ \<Rightarrow> Some ((u, []), q, gs))"
| "find_from r u (c # v) =
     (case ends r (u, c # v) of [] \<Rightarrow> find_from r (c # u) v | (q, gs) # _ \<Rightarrow> Some ((u, c # v), q, gs))"

definition match_string :: "regex \<Rightarrow> string \<Rightarrow> bool" where
  "match_string r s \<longleftrightarrow> find_from r [] s \<noteq> None"

text \<open>The groups of the leftmost match; a group that took no part is empty.\<close>

definition find_submatch :: "regex \<Rightarrow> string \<Rightarrow> groups option" where
  "find_submatch r s = map_option (\<lambda>(p, q, gs). gs) (find_from r [] s)"

definition group_text :: "groups \<Rightarrow> nat \<Rightarrow> string" where
  "group_text gs n = (case map_of gs n of Some t \<Rightarrow> t | None \<Rightarrow> [])"

section \<open>Building expressions\<close>

definition same_letter :: "char \<Rightarrow> char \<Rightarrow> bool" where
  "same_letter c d \<longleftrightarrow> up_char c = up_char d"

text \<open>A text as it stands, and in any case.\<close>

definition lit :: "string \<Rightarrow> regex" where
  "lit s = fold (\<lambda>c r. Then (One ((=) c)) r) (rev s) Empty"

definition lit_i :: "string \<Rightarrow> regex" where
  "lit_i s = fold (\<lambda>c r. Then (One (same_letter c)) r) (rev s) Empty"

definition some_of :: "(char \<Rightarrow> bool) \<Rightarrow> regex" where
  "some_of P = Then (One P) (Many P)"

definition maybe :: "regex \<Rightarrow> regex" where
  "maybe r = Else r Empty"

definition blanks :: regex where
  "blanks = Many is_blank"

text \<open>Any character; without the flag \<open>s\<close>, none that ends a line.\<close>

definition any_text :: "bool \<Rightarrow> regex" where
  "any_text s = Many (\<lambda>c. s \<or> c \<noteq> CHR 0x0A)"

definition in_order :: "regex list \<Rightarrow> regex" where
  "in_order rs = fold (\<lambda>r acc. Then r acc) (rev rs) Empty"

definition one_of :: "regex list \<Rightarrow> regex" where
  "one_of rs = (case rev rs of [] \<Rightarrow> Empty | r # more \<Rightarrow> fold (\<lambda>r acc. Else r acc) more r)"

section \<open>Meaning\<close>

text \<open>What it is for an expression to match from one position to another.\<close>

definition advance :: "string \<Rightarrow> position \<Rightarrow> position" where
  "advance t p = (rev t @ fst p, drop (length t) (snd p))"

definition reads :: "string \<Rightarrow> position \<Rightarrow> position \<Rightarrow> bool" where
  "reads t p q \<longleftrightarrow> prefix t (snd p) \<and> q = advance t p"

primrec spans :: "regex \<Rightarrow> position \<Rightarrow> position \<Rightarrow> bool" where
  "spans Empty p q \<longleftrightarrow> q = p"
| "spans (One P) p q \<longleftrightarrow> (\<exists>c. P c \<and> reads [c] p q)"
| "spans (Many P) p q \<longleftrightarrow> (\<exists>t. list_all P t \<and> reads t p q)"
| "spans (Test a) p q \<longleftrightarrow> holds a p \<and> q = p"
| "spans (Group n r) p q \<longleftrightarrow> spans r p q"
| "spans (Then r s) p q \<longleftrightarrow> (\<exists>m. spans r p m \<and> spans s m q)"
| "spans (Else r s) p q \<longleftrightarrow> spans r p q \<or> spans s p q"

lemma reads_cons: "reads (c # t) (u, v) q \<longleftrightarrow> (\<exists>w. v = c # w \<and> reads t (c # u, w) q)"
  by (cases v) (auto simp: reads_def advance_def)

lemma reads_nil [simp]: "reads [] p q \<longleftrightarrow> q = p"
  by (cases p) (auto simp: reads_def advance_def)

lemma set_runs: "q \<in> set (runs P u v) \<longleftrightarrow> (\<exists>t. list_all P t \<and> reads t (u, v) q)"
proof (induction P u v rule: runs.induct)
  case (1 P u)
  show ?case by (auto simp: reads_def advance_def intro: exI [of _ "[]"])
next
  case (2 P u c v)
  have "(\<exists>t. list_all P t \<and> reads t (u, c # v) q) \<longleftrightarrow>
      q = (u, c # v) \<or> P c \<and> (\<exists>t. list_all P t \<and> reads t (c # u, v) q)" (is "?L \<longleftrightarrow> ?R")
  proof
    assume ?L
    then obtain t where t: "list_all P t" "reads t (u, c # v) q" by blast
    then show ?R by (cases t) (auto simp: reads_cons)
  next
    assume ?R
    then show ?L
    proof
      assume "q = (u, c # v)"
      then show ?L by (intro exI [of _ "[]"]) simp
    next
      assume "P c \<and> (\<exists>t. list_all P t \<and> reads t (c # u, v) q)"
      then obtain t where "P c" "list_all P t" "reads t (c # u, v) q" by blast
      then show ?L by (intro exI [of _ "c # t"]) (simp add: reads_cons)
    qed
  qed
  with 2 show ?case by auto
qed

lemma ends_spans: "q \<in> fst ` set (ends r p) \<longleftrightarrow> spans r p q"
proof (induction r arbitrary: p q)
  case (One P)
  show ?case by (cases p; cases "snd p") (auto simp: reads_cons)
next
  case (Many P)
  show ?case by (cases p) (simp add: set_runs image_image)
next
  case (Group n r)
  have "fst ` set (ends (Group n r) p) = fst ` set (ends r p)" by (simp add: image_image case_prod_beta)
  then show ?case using Group by simp
next
  case (Then r s)
  have "q \<in> fst ` set (ends (Then r s) p) \<longleftrightarrow> (\<exists>m \<in> fst ` set (ends r p). q \<in> fst ` set (ends s m))"
    by (force simp: image_iff)
  also have "\<dots> \<longleftrightarrow> (\<exists>m. spans r p m \<and> spans s m q)" by (simp only: Then bex_simps Bex_def)
  finally show ?case by simp
next
  case (Else r s)
  then show ?case by (simp add: image_Un)
qed auto

lemma ends_none: "ends r p = [] \<longleftrightarrow> (\<forall>q. \<not> spans r p q)"
  unfolding ends_spans [symmetric] by (metis equals0I image_is_empty list.set(1) empty_iff set_empty)

text \<open>A match is found where one starts, and at the first such place.\<close>

lemma find_from_none: "find_from r u v = None \<longleftrightarrow> (\<forall>t p. reads t (u, v) p \<longrightarrow> (\<forall>q. \<not> spans r p q))"
proof (induction r u v rule: find_from.induct)
  case (1 r u)
  have "reads t (u, []) p \<longleftrightarrow> t = [] \<and> p = (u, [])" for t p
    by (auto simp: reads_def advance_def)
  then show ?case using ends_none [of r "(u, [])"] by (auto split: list.split)
next
  case (2 r u c v)
  have "reads t (u, c # v) p \<longleftrightarrow> t = [] \<and> p = (u, c # v) \<or> (\<exists>t'. t = c # t' \<and> reads t' (c # u, v) p)" for t p
    by (cases t) (auto simp: reads_cons)
  then have "(\<forall>t p. reads t (u, c # v) p \<longrightarrow> (\<forall>q. \<not> spans r p q)) \<longleftrightarrow>
      (\<forall>q. \<not> spans r (u, c # v) q) \<and> (\<forall>t p. reads t (c # u, v) p \<longrightarrow> (\<forall>q. \<not> spans r p q))"
    by metis
  then show ?case using 2 ends_none [of r "(u, c # v)"] by (cases "ends r (u, c # v)") auto
qed

lemma match_string_iff:
  "match_string r s \<longleftrightarrow> (\<exists>t p q. reads t ([], s) p \<and> spans r p q)"
  using find_from_none [of r "[]" s] by (auto simp: match_string_def)

end
