(* ===== verification/Float_Bits.thy ===== *)
theory Float_Bits
  imports Float64 "HOL-Library.Word"
begin

text \<open>
  The 64-bit pattern of a float (IEEE 754 binary64): the manager keeps its floats as patterns, what a client reads
  is the value. All patterns of not-a-number are one value; it is written as the quiet one Go makes.
\<close>

definition f64_of_bits :: "64 word \<Rightarrow> f64" where
  "f64_of_bits w =
     (let n = uint w; neg = (2 ^ 63 \<le> n); mag = n mod 2 ^ 63; ex = mag div 2 ^ 52; m = mag mod 2 ^ 52;
          q = (if ex = 0 then of_int m * pow2 (- 1074) else of_int (2 ^ 52 + m) * pow2 (ex - 1075))
      in if ex = 2047 then (if m = 0 then Inf neg else NaN)
         else if mag = 0 then zero_of neg
         else Fin (if neg then - q else q))"

fun bits_of_f64 :: "f64 \<Rightarrow> 64 word" where
  "bits_of_f64 NaN = word_of_int 0x7FF8000000000001"
| "bits_of_f64 (Inf neg) = word_of_int ((if neg then 2 ^ 63 else 0) + 2047 * 2 ^ 52)"
| "bits_of_f64 NegZero = word_of_int (2 ^ 63)"
| "bits_of_f64 (Fin q) =
     (if q = 0 then 0
      else (let e = ulp_exp \<bar>q\<bar>; m = \<lfloor>\<bar>q\<bar> / pow2 e\<rfloor>
            in word_of_int ((if q < 0 then 2 ^ 63 else 0) + (e + 1074) * 2 ^ 52 + m)))"

end
