(* ===== verification/Rega_Engine.thy ===== *)
theory Rega_Engine
  imports Rega_Source Go_Regexp Float_Bits
begin

text \<open>
  The script engine behind the JSON-RPC interface, \<^verbatim>\<open>internal/rega/engine.go\<close>: a script that carries the name of
  a script clients ship is answered by that name, any other by the first pattern of a list that it matches. A
  handler is a function of the script on the manager. The encoding of a Go value as JSON text is an argument, as
  are the clock, the random source and the reader of floats. Tables the engine keeps in maps are lists; a script is
  bytes, and letters fold as in ASCII.
\<close>

section \<open>What the engine is given\<close>

record engine =
  marshal :: "gov \<Rightarrow> string"
  read_float :: "string \<Rightarrow> f64 option"
  clock_at :: moment
  now_ns :: int
  backup_stamp :: string
  entropy :: "8 word list option"

type_synonym handler = "engine \<Rightarrow> string \<Rightarrow> (rworld, string) access"

text \<open>A handler that reads the manager.\<close>

definition reading :: "(engine \<Rightarrow> gov manager \<Rightarrow> string) \<Rightarrow> handler" where
  "reading f G script w = (f G (mgr w), w)"

definition float_of :: "float64 \<Rightarrow> gov" where
  "float_of b = GFloat (f64_of_bits b)"

definition enc :: "string \<Rightarrow> gov" where
  "enc s = GStr (uri_encode s)"

section \<open>The expressions\<close>

text \<open>Pieces the expressions share: a text in any case, and a text between quotes.\<close>

definition quoted :: "nat \<Rightarrow> bool \<Rightarrow> regex" where
  "quoted n empty_too =
     in_order [lit [CHR 0x22], Group n (if empty_too then Many (\<lambda>c. c \<noteq> CHR 0x22) else some_of (\<lambda>c. c \<noteq> CHR 0x22)),
       lit [CHR 0x22]]"

definition spaced :: "string list \<Rightarrow> regex" where
  "spaced ts = in_order (case ts of [] \<Rightarrow> [] | t # rest \<Rightarrow> lit_i t # concat (map (\<lambda>u. [blanks, lit_i u]) rest))"

definition name_char :: "char \<Rightarrow> bool" where
  "name_char c \<longleftrightarrow> is_word c \<or> c = CHR ''.'' \<or> c = CHR ''-''"

definition alnum :: "char \<Rightarrow> bool" where
  "alnum c \<longleftrightarrow> is_word c \<and> c \<noteq> CHR ''_''"

definition re_script_name :: regex where
  "re_script_name = in_order [Test LineStart, spaced [[], ''!#'', ''name:'', []], Group 1 (some_of name_char)]"

definition re_interface_assign :: regex where
  "re_interface_assign = in_order [lit ''interface'', blanks, lit ''='', blanks, quoted 1 False]"

definition re_param_header :: regex where
  "re_param_header = in_order [lit ''param:'', blanks, quoted 1 False]"

text \<open>\<open>key = "value"\<close>\<close>

definition re_assigned :: "string \<Rightarrow> regex" where
  "re_assigned key = in_order [spaced [key, ''='', []], quoted 1 True]"

definition re_program_active :: regex where
  "re_program_active =
     in_order [spaced [''dom.GetObject'', ''('', []], Group 1 (some_of is_digit),
       spaced [[], '').Active'', ''('', []], Group 2 (Else (lit_i ''true'') (lit_i ''false'')), spaced [[], '')'']]"

definition re_program_state :: regex where
  "re_program_state = in_order [spaced [''p_state'', ''='', []], Group 1 (some_of alnum)]"

definition re_sysvar_set :: regex where
  "re_sysvar_set =
     in_order [spaced [''dom.GetObject'', ''('', []], quoted 1 False, spaced [[], '').State'', ''('', []],
       maybe (lit [CHR 0x22]), Group 2 (Many (\<lambda>c. c \<noteq> CHR 0x22 \<and> c \<noteq> CHR '')'')), maybe (lit [CHR 0x22]), spaced [[], '')'']]"

definition re_simple_write :: regex where
  "re_simple_write = in_order [spaced [''Write'', ''('', []], quoted 1 True, spaced [[], '')'']]"

definition re_collection :: "string \<Rightarrow> regex" where
  "re_collection i = spaced [''dom.GetObject'', ''('', i, '')'']"

section \<open>Handlers that read\<close>

definition handle_backend_info :: handler where
  "handle_backend_info = reading (\<lambda>G m. marshal G (GMap [(''version'', GStr (bi_version (info m))),
     (''product'', GStr (bi_product (info m))), (''hostname'', GStr (bi_hostname (info m))),
     (''is_ha_app'', GBool (bi_ha_addon (info m)))]))"

definition handle_get_serial :: handler where
  "handle_get_serial = reading (\<lambda>G m. marshal G (GMap [(''serial'', GStr (mg_serial m))]))"

text \<open>\<open>strings.CutLast\<close> at a byte.\<close>

definition cut_last :: "char \<Rightarrow> string \<Rightarrow> (string \<times> string) option" where
  "cut_last c s =
     (if c \<in> set s then Some (rev (tl (dropWhile (\<lambda>d. d \<noteq> c) (rev s))), rev (takeWhile (\<lambda>d. d \<noteq> c) (rev s))) else None)"

fun encode_device_value :: "gov \<Rightarrow> gov" where
  "encode_device_value (GStr s) = (if s = [] then GInt 0 else enc s)"
| "encode_device_value v = v"

definition device_value_entry :: "string \<Rightarrow> string \<times> gov \<Rightarrow> val_map \<Rightarrow> val_map" where
  "device_value_entry iface e acc =
     (case cut_last (CHR '':'') (fst e) of
        None \<Rightarrow> acc
      | Some (a, p) \<Rightarrow>
          if a = [] \<or> p = [] then acc
          else AList.update (uri_encode ((if iface = [] then [] else iface @ ''.'') @ a @ ''.'' @ p))
                 (encode_device_value (snd e)) acc)"

definition script_interface :: "string \<Rightarrow> string" where
  "script_interface script =
     (case find_submatch re_interface_assign script of
        Some gs \<Rightarrow> group_text gs 1
      | None \<Rightarrow> (case find_submatch re_param_header script of Some gs \<Rightarrow> group_text gs 1 | None \<Rightarrow> []))"

definition all_device_values :: "'v manager \<Rightarrow> (string, 'v) gomap" where
  "all_device_values m = device_values m"

definition handle_fetch_device_data :: handler where
  "handle_fetch_device_data G script w =
     (marshal G (GMap (fold (device_value_entry (script_interface script)) (all_device_values (mgr w)) [])), w)"

definition handle_get_programs :: handler where
  "handle_get_programs = reading (\<lambda>G m. marshal G (GList (map (\<lambda>p. GMap [(''id'', GInt (prog_id p)),
     (''name'', enc (prog_name p)), (''description'', enc (prog_description p)), (''isActive'', GBool (prog_active p)),
     (''isInternal'', GBool False), (''lastExecuteTime'', float_of (prog_last p))]) (all_programs m))))"

definition handle_get_sysvars :: handler where
  "handle_get_sysvars = reading (\<lambda>G m. marshal G (GList (map (\<lambda>sv. GMap [(''id'', GInt (sv_id sv)),
     (''name'', enc (sv_name sv)), (''description'', enc (sv_description sv)), (''unit'', GStr (sv_unit sv)),
     (''type'', GStr (sv_type sv)), (''value'', sv_value sv), (''valueList'', GStr (sv_value_list sv)),
     (''minValue'', float_of (sv_min sv)), (''maxValue'', float_of (sv_max sv)),
     (''timestamp'', float_of (sv_timestamp sv)), (''isInternal'', GBool False)]) (system_variables m))))"

definition handle_get_sysvar_descriptions :: handler where
  "handle_get_sysvar_descriptions = reading (\<lambda>G m. marshal G (GList (map (\<lambda>sv.
     GMap [(''id'', GStr (format_int (sv_id sv))), (''description'', enc (sv_description sv)),
       (''channel_address'', enc (sv_channel sv))]) (system_variables m))))"

definition handle_get_alarm_messages :: handler where
  "handle_get_alarm_messages = reading (\<lambda>G m. ''[]'')"

definition handle_get_service_messages :: handler where
  "handle_get_service_messages = reading (\<lambda>G m. marshal G (GList (map (\<lambda>msg. GMap [(''id'', GInt (sm_id msg)),
     (''name'', GStr (sm_name msg)), (''timestamp'', float_of (sm_timestamp msg)), (''type'', GStr (sm_type msg)),
     (''address'', GStr (sm_address msg)), (''deviceName'', GStr (sm_device msg))]) (manager.service_messages m))))"

definition handle_get_inbox :: handler where
  "handle_get_inbox = reading (\<lambda>G m. marshal G (GList (map (\<lambda>d. GMap [(''id'', GStr (ib_id d)),
     (''address'', GStr (ib_address d)), (''name'', enc (ib_name d)), (''type'', GStr (ib_type d)),
     (''interface'', GStr (ib_interface d))]) (inbox m))))"

definition handle_update_info :: handler where
  "handle_update_info = reading (\<lambda>G m. marshal G (GMap [(''current_firmware'', GStr (ui_current (update m))),
     (''available_firmware'', GStr (ui_available (update m))), (''update_available'', GBool (ui_pending (update m))),
     (''check_script_available'', GBool True)]))"

definition handle_get_program_descriptions :: handler where
  "handle_get_program_descriptions = reading (\<lambda>G m. marshal G (GList (map (\<lambda>p.
     GMap [(''id'', GStr (format_int (prog_id p))), (''description'', enc (prog_description p))]) (all_programs m))))"

definition group_record :: "room \<Rightarrow> gov" where
  "group_record r = GMap [(''id'', GInt (room_id r)), (''name'', enc (room_name r)),
     (''description'', enc (room_description r)), (''channelIds'', GList (map GStr (room_channels r)))]"

definition handle_get_rooms :: handler where
  "handle_get_rooms = reading (\<lambda>G m. marshal G (GList (map group_record (all_rooms m))))"

definition handle_get_functions :: handler where
  "handle_get_functions = reading (\<lambda>G m. marshal G (GList (map group_record (all_functions m))))"

definition handle_write :: handler where
  "handle_write G script w =
     (case find_submatch re_simple_write script of Some gs \<Rightarrow> group_text gs 1 | None \<Rightarrow> [], w)"

section \<open>Handlers that act\<close>

definition rega_result :: "engine \<Rightarrow> bool \<Rightarrow> string \<Rightarrow> string" where
  "rega_result G ok e = marshal G (GMap [(''success'', GBool ok), (''error'', GStr e)])"

definition handle_accept_inbox_device :: handler where
  "handle_accept_inbox_device G script w =
     (case find_submatch (re_assigned ''sDeviceAddress'') script of
        None \<Rightarrow> (rega_result G False ''Device not found'', w)
      | Some gs \<Rightarrow>
          if group_text gs 1 = [] then (rega_result G False ''Device not found'', w)
          else (case with_mgr (accept_inbox_device (group_text gs 1)) w of
                  (ok, w1) \<Rightarrow> (if ok then rega_result G True [] else rega_result G False ''Device not found'', w1)))"

definition handle_acknowledge_message :: handler where
  "handle_acknowledge_message G script w =
     (case Option.bind (find_submatch (re_assigned ''sMessageId'') script) (\<lambda>gs. parse_int 10 (group_text gs 1)) of
        None \<Rightarrow> (rega_result G False ''Message not found'', w)
      | Some i \<Rightarrow>
          (case with_mgr (clear_service_message i) w of
             (ok, w1) \<Rightarrow> (if ok then rega_result G True [] else rega_result G False ''Message not found'', w1)))"

definition is_rega_true :: "string \<Rightarrow> bool" where
  "is_rega_true s \<longleftrightarrow> s = ''1'' \<or> equal_fold s ''true''"

definition parse_program_state :: "string \<Rightarrow> (int \<times> bool) option" where
  "parse_program_state script =
     (case find_submatch (re_assigned ''p_id'') script of
        Some gs \<Rightarrow>
          (case parse_int 10 (group_text gs 1) of
             None \<Rightarrow> None
           | Some i \<Rightarrow> map_option (\<lambda>ss. (i, is_rega_true (group_text ss 1))) (find_submatch re_program_state script))
      | None \<Rightarrow>
          (case find_submatch re_program_active script of
             None \<Rightarrow> None
           | Some gs \<Rightarrow> map_option (\<lambda>i. (i, equal_fold (group_text gs 2) ''true'')) (parse_int 10 (group_text gs 1))))"

definition handle_set_program_state :: handler where
  "handle_set_program_state G script w =
     (case parse_program_state script of
        None \<Rightarrow> ([], w)
      | Some (i, active) \<Rightarrow>
          (case with_mgr (set_program_active i active) w of (ok, w1) \<Rightarrow> (if ok then bool_text active else [], w1)))"

definition inline_value :: "engine \<Rightarrow> string \<Rightarrow> gov" where
  "inline_value G raw =
     (if equal_fold raw ''true'' then GBool True
      else if equal_fold raw ''false'' then GBool False
      else if CHR ''.'' \<in> set raw then (case read_float G raw of Some x \<Rightarrow> GFloat x | None \<Rightarrow> GStr raw)
      else (case parse_int 10 raw of Some i \<Rightarrow> GInt i | None \<Rightarrow> GStr raw))"

definition set_sysvar_inline :: handler where
  "set_sysvar_inline G script w =
     (case find_submatch re_sysvar_set script of
        None \<Rightarrow> ([], w)
      | Some gs \<Rightarrow> ([], snd (set_variable (clock_at G) (group_text gs 1) (inline_value G (group_text gs 2)) w)))"

definition handle_set_sysvar :: handler where
  "handle_set_sysvar G script w =
     (case find_submatch (re_assigned ''sv_name'') script of
        None \<Rightarrow> set_sysvar_inline G script w
      | Some gs \<Rightarrow>
          (case find_submatch (re_assigned ''sv_value'') script of
             None \<Rightarrow> ([], w)
           | Some vs \<Rightarrow>
               (case system_variable_by_name (group_text gs 1) (mgr w) of
                  None \<Rightarrow> ([], w)
                | Some sv \<Rightarrow>
                    if \<not> equal_fold (sv_type sv) ''STRING'' then ([], w)
                    else (case set_variable (clock_at G) (group_text gs 1) (GStr (group_text vs 1)) w of
                            (ok, w1) \<Rightarrow> (bool_text ok, w1)))))"

definition handle_backup_start :: handler where
  "handle_backup_start G script w =
     (case with_mgr (start_backup (entropy G) (now_ns G)) w of
        (pid, w1) \<Rightarrow> (marshal G (GMap [(''success'', GBool True), (''status'', GStr ''started''), (''pid'', GStr pid)]), w1))"

fun phase_text :: "backup_phase \<Rightarrow> string" where
  "phase_text Idle = ''idle''"
| "phase_text Running = ''running''"
| "phase_text Completed = ''completed''"
| "phase_text Failed = ''failed''"

definition handle_backup_status :: handler where
  "handle_backup_status G script w =
     (case with_mgr (poll_backup (now_ns G) (backup_stamp G)) w of
        (st, w1) \<Rightarrow>
          (marshal G (if bs_status st \<noteq> Completed then GMap [(''status'', GStr (phase_text (bs_status st)))]
                      else GMap [(''status'', GStr (phase_text (bs_status st))), (''file'', GStr (bs_filepath st)),
                             (''filename'', GStr (bs_filename st)), (''size'', GInt (bs_size st))]), w1))"

definition handle_trigger_update :: handler where
  "handle_trigger_update G script w =
     (case with_mgr trigger_update w of
        (ok, w1) \<Rightarrow> (marshal G (GMap [(''success'', GBool ok), (''script_available'', GBool True),
            (''message'', GStr (if ok then ''Firmware update triggered, system will reboot when ready''
                                else ''No firmware update available''))]), w1))"

section \<open>Dispatch\<close>

definition by_name :: "(string \<times> handler) list" where
  "by_name =
     [(''get_backend_info.fn'', handle_backend_info), (''get_serial.fn'', handle_get_serial),
      (''fetch_all_device_data.fn'', handle_fetch_device_data), (''get_alarm_messages.fn'', handle_get_alarm_messages),
      (''get_service_messages.fn'', handle_get_service_messages), (''get_inbox_devices.fn'', handle_get_inbox),
      (''accept_device_in_inbox.fn'', handle_accept_inbox_device), (''acknowledge_message.fn'', handle_acknowledge_message),
      (''set_program_state.fn'', handle_set_program_state), (''set_system_variable.fn'', handle_set_sysvar),
      (''get_program_descriptions.fn'', handle_get_program_descriptions),
      (''get_system_variable_descriptions.fn'', handle_get_sysvar_descriptions),
      (''create_backup_start.fn'', handle_backup_start), (''create_backup_status.fn'', handle_backup_status),
      (''get_system_update_info.fn'', handle_update_info), (''trigger_firmware_update.fn'', handle_trigger_update)]"

definition patterns :: "(regex \<times> handler) list" where
  "patterns =
     [(in_order [lit_i ''system.Exec'', any_text True, lit_i ''cat'', any_text True, lit_i ''/VERSION''], handle_backend_info),
      (in_order [lit_i ''grep'', any_text True, lit_i ''VERSION'', any_text True, lit_i ''grep'', any_text True, lit_i ''PRODUCT''],
         handle_backend_info),
      (in_order [Test WordEdge, lit_i ''get_serial'', maybe (lit_i ''.fn''), Test WordEdge], handle_get_serial),
      (in_order [spaced [''system.GetVar'', ''('', []], maybe (One (\<lambda>c. c = CHR 0x22 \<or> c = CHR 0x27)), lit_i ''SERIALNO'',
         maybe (One (\<lambda>c. c = CHR 0x22 \<or> c = CHR 0x27)), spaced [[], '')'']], handle_get_serial),
      (spaced [''name:'', ''fetch_all_device_data.fn''], handle_fetch_device_data),
      (spaced [''name:'', ''get_alarm_messages.fn''], handle_get_alarm_messages),
      (in_order [spaced [''foreach'', ''('', []], some_of is_word, spaced [[], '','', ''dom.GetObject'', ''('', ''ID_DATAPOINTS'']],
         handle_fetch_device_data),
      (re_collection ''ID_PROGRAMS'', handle_get_programs),
      (spaced [''.DPInfo'', ''('', '')''], handle_get_sysvar_descriptions),
      (re_collection ''ID_SYSTEM_VARIABLES'', handle_get_sysvars),
      (re_collection ''ID_SERVICES'', handle_get_service_messages),
      (lit_i ''INBOX'', handle_get_inbox),
      (re_program_active, handle_set_program_state),
      (re_sysvar_set, handle_set_sysvar),
      (lit_i ''CreateBackup'', handle_backup_start),
      (one_of [lit_i ''backup.pid'', lit_i ''backup_status'', lit_i ''BACKUP_STATUS''], handle_backup_status),
      (one_of [lit_i ''checkFirmwareUpdate'', lit_i ''CHECK_FIRMWARE_UPDATE''], handle_update_info),
      (one_of [in_order [lit_i ''nohup'', any_text False, lit_i ''checkFirmwareUpdate'', any_text False, lit_i ''-a''],
         lit_i ''TRIGGER_UPDATE''], handle_trigger_update),
      (lit_i ''ID_ROOMS'', handle_get_rooms),
      (lit_i ''ID_FUNCTIONS'', handle_get_functions),
      (in_order [Test TextStart, re_simple_write, blanks, maybe (lit '';''), blanks, Test TextEnd], handle_write)]"

definition utf8_bom :: string where
  "utf8_bom = [CHR 0xEF, CHR 0xBB, CHR 0xBF]"

definition named_handler :: "string \<Rightarrow> handler option" where
  "named_handler script =
     Option.bind (find_submatch re_script_name script) (\<lambda>gs. map_of by_name (to_lower (group_text gs 1)))"

definition pattern_handler :: "string \<Rightarrow> handler option" where
  "pattern_handler script = map_option snd (List.find (\<lambda>(re, h). match_string re script) patterns)"

text \<open>\<open>Execute\<close>: what the script wrote.\<close>

definition execute_script :: handler where
  "execute_script G script w =
     (if prefix utf8_bom script then ([], w)
      else (case named_handler script of
              Some h \<Rightarrow> h G script w
            | None \<Rightarrow> (case pattern_handler script of Some h \<Rightarrow> h G script w | None \<Rightarrow> ([], w))))"

end
