(* ===== verification/Json_Meta.thy ===== *)
theory Json_Meta
  imports Xml_Value
begin

text \<open>
  Errors, privilege levels and method descriptions of the JSON-RPC interface: \<^verbatim>\<open>internal/jsonrpc/errors.go\<close>,
  \<^verbatim>\<open>ccuerrors.go\<close> and \<^verbatim>\<open>methodmeta.go\<close>. A map of the source is a list of entries.
\<close>

section \<open>Errors\<close>

record api_error =
  err_code :: int
  err_message :: string
  err_data :: gov

definition plain_error :: "int \<Rightarrow> string \<Rightarrow> api_error" where
  "plain_error c m = \<lparr>err_code = c, err_message = m, err_data = GNil\<rparr>"

definition err_parse :: "string \<Rightarrow> api_error" where "err_parse m = plain_error (- 32700) m"
definition err_invalid :: "string \<Rightarrow> api_error" where "err_invalid m = plain_error (- 32600) m"
definition err_method :: "string \<Rightarrow> api_error" where "err_method m = plain_error (- 32601) (''Method not found: '' @ m)"
definition err_params :: "string \<Rightarrow> api_error" where "err_params m = plain_error (- 32602) m"
definition err_internal :: "string \<Rightarrow> api_error" where "err_internal m = plain_error (- 32603) m"
definition err_auth :: "string \<Rightarrow> api_error" where "err_auth m = plain_error (- 32001) m"
definition err_session :: "string \<Rightarrow> api_error" where "err_session m = plain_error (- 32002) m"
definition err_permission :: "string \<Rightarrow> api_error" where "err_permission m = plain_error (- 32003) m"
definition err_operation :: "string \<Rightarrow> api_error" where "err_operation m = plain_error (- 32005) m"
definition err_object :: "string \<Rightarrow> string \<Rightarrow> api_error" where
  "err_object kind i = plain_error (- 32004) (kind @ '' not found: '' @ i)"

definition marshal_dict :: "api_error \<Rightarrow> gov" where
  "marshal_dict e = GMap ([(''code'', GInt (err_code e)), (''message'', GStr (err_message e))] @
     (if err_data e = GNil then [] else [(''data'', err_data e)]))"

text \<open>The codes a CCU knows.\<close>

definition ccu_code_for :: "int \<Rightarrow> int" where
  "ccu_code_for c =
     (if c = - 32700 \<or> c = - 32600 then 100
      else if c = - 32601 then 401
      else if c = - 32602 then 402
      else if c = - 32001 \<or> c = - 32002 \<or> c = - 32003 then 400
      else if c = - 32603 \<or> c = - 32000 \<or> c = - 32005 then 500
      else if c = - 32004 then 500
      else 100)"

definition marshal_ccu :: "api_error \<Rightarrow> gov" where
  "marshal_ccu e = GMap [(''name'', GStr ''JSONRPCError''), (''code'', GInt (ccu_code_for (err_code e))),
     (''message'', GStr (err_message e))]"

section \<open>Privilege levels\<close>

definition level_none :: int where "level_none = 0"
definition level_guest :: int where "level_guest = 1"
definition level_user :: int where "level_user = 2"
definition level_admin :: int where "level_admin = 8"

definition level_value :: "string \<Rightarrow> int" where
  "level_value name =
     (if name = ''NONE'' then level_none else if name = ''GUEST'' then level_guest
      else if name = ''ADMIN'' then level_admin else level_user)"

text \<open>The level's name is printed with quotes; the names are plain words.\<close>

definition err_access_denied :: "string \<Rightarrow> string \<Rightarrow> api_error" where
  "err_access_denied required have_text =
     plain_error (- 32003)
       (''access denied ('' @ [CHR 0x22] @ required @ [CHR 0x22] @ '' needed '' @ have_text @ '')'')"

section \<open>Methods\<close>

definition method_levels :: "(string \<times> string \<times> string) list" where
  "method_levels =
     [(''CCU.getAuthEnabled'', (''ADMIN'', ''Pr'' @ [CHR 0xC3, CHR 0xBC] @ ''ft, ob die Datei /etc/config/authEnabled vorhanden ist'')),
      (''CCU.getHttpsRedirectEnabled'', (''ADMIN'', ''Pr'' @ [CHR 0xC3, CHR 0xBC] @ ''ft, ob die Datei automatische Weiterleitung von HTTP auf HTTPS aktiv ist.'')),
      (''CCU.getSerial'', (''ADMIN'', ''Liefert die Seriennummer der HomeMatic Zentrale'')),
      (''CCU.getVersion'', (''ADMIN'', ''Liefert die Firmware-Version der HomeMatic Zentrale'')),
      (''Channel.hasProgramIds'', (''GUEST'', ''Pr'' @ [CHR 0xC3, CHR 0xBC] @ ''ft, ob der Kanal in Programmen verwendet wird'')),
      (''Channel.setName'', (''ADMIN'', ''Legt den Namen des Kanals fest'')),
      (''Device.get'', (''GUEST'', ''Liefert Detailinformationen zu einem Ger'' @ [CHR 0xC3, CHR 0xA4] @ ''t'')),
      (''Device.listAllDetail'', (''GUEST'', ''Liefert die Detailinformationen aller fertig konfigurierten Ger'' @ [CHR 0xC3, CHR 0xA4] @ ''te'')),
      (''Device.setName'', (''ADMIN'', ''Legt den Namen des Ger'' @ [CHR 0xC3, CHR 0xA4] @ ''ts fest'')),
      (''Interface.determineParameter'', (''ADMIN'', ''Bestimmt den Wert eines Patameters'')),
      (''Interface.getDeviceDescription'', (''GUEST'', ''Liefert die Beschreibung eines Ger'' @ [CHR 0xC3, CHR 0xA4] @ ''ts'')),
      (''Interface.getInstallMode'', (''ADMIN'', ''Liefert die Restzeit, f'' @ [CHR 0xC3, CHR 0xBC] @ ''r die der Anlernmodus noch aktiv ist'')),
      (''Interface.getLinkInfo'', (''GUEST'', ''Liefert den Namen und die Beschreibung einer direkten Verkn'' @ [CHR 0xC3, CHR 0xBC] @ ''pfung'')),
      (''Interface.getMasterValue'', (''GUEST'', ''Liefert den Wert eines Parameters aus dem Parameterset '' @ [CHR 0x22] @ ''MASTER'' @ [CHR 0x22])),
      (''Interface.getParamset'', (''GUEST'', ''Liefert ein komplettes Parameterset'')),
      (''Interface.getParamsetDescription'', (''GUEST'', ''Liefert die Beschreibung eines Parametersets'')),
      (''Interface.getParamsetId'', (''GUEST'', ''Liefert die Id eines Parametersets'')),
      (''Interface.getSuppressedServiceMessages'', (''USER'', ''Liefert ein Array mit Kanalparametern, deren Service Nachrichten unterdr'' @ [CHR 0xC3, CHR 0xBC] @ ''ckt werden.'')),
      (''Interface.suppressServiceMessages'', (''ADMIN'', ''Unterdr'' @ [CHR 0xC3, CHR 0xBC] @ ''ckt Service Nachrichten f'' @ [CHR 0xC3, CHR 0xBC] @ ''r einen Kanal oder Kanalparameter. Wird f'' @ [CHR 0xC3, CHR 0xBC] @ ''r parameterId ein leerer String '' @ [CHR 0xC3, CHR 0xBC] @ ''bergeben, gilt der Aufruf f'' @ [CHR 0xC3, CHR 0xBC] @ ''r alle Service Parameter.'')),
      (''system.describe'', (''NONE'', ''Liefert eine detailierte Beschreibung der HomeMatic JSON API.'')),
      (''system.methodHelp'', (''NONE'', ''Liefert die Kurzbeschreibung einer Methode'')),
      (''Interface.getValue'', (''GUEST'', ''Liefert den Wert eines Parameters aus dem Parameterset '' @ [CHR 0x22] @ ''Values'' @ [CHR 0x22])),
      (''Interface.init'', (''ADMIN'', ''Meldet eine Logikschicht bei einer Schnittstelle an'')),
      (''Interface.isPresent'', (''NONE'', ''Pr'' @ [CHR 0xC3, CHR 0xBC] @ ''ft, ob der Dienst der betreffenden Schnittstelle l'' @ [CHR 0xC3, CHR 0xA4] @ ''uft)'')),
      (''Interface.listBidcosInterfaces'', (''USER'', ''Listet die verf'' @ [CHR 0xC3, CHR 0xBC] @ ''gbaren BidCoS-RF Interfaces auf'')),
      (''Interface.listDevices'', (''GUEST'', ''Liefert eine Liste aller angelernten Ger'' @ [CHR 0xC3, CHR 0xA4] @ ''te'')),
      (''Interface.listInterfaces'', (''GUEST'', ''Liefert eine Liste der verf'' @ [CHR 0xC3, CHR 0xBC] @ ''gbaren Schnittstellen'')),
      (''Interface.ping'', (''GUEST'', ''Pr'' @ [CHR 0xC3, CHR 0xBC] @ ''ft die Erreichbarkeit der Schnittstelle (godevccu-Erweiterung)'')),
      (''Interface.putParamset'', (''USER'', ''Schreibt ein komplettes Parameterset f'' @ [CHR 0xC3, CHR 0xBC] @ ''r ein Ger'' @ [CHR 0xC3, CHR 0xA4] @ ''t'')),
      (''Interface.rssiInfo'', (''GUEST'', ''Liefert die Empfangsfeldst'' @ [CHR 0xC3, CHR 0xA4] @ ''rken der angeschlossenen Ger'' @ [CHR 0xC3, CHR 0xA4] @ ''te'')),
      (''Interface.setInstallMode'', (''ADMIN'', ''Aktiviert oder deaktiviert den Anlernmodus (godevccu-Erweiterung)'')),
      (''Interface.setInstallModeHMIP'', (''ADMIN'', ''Aktiviert oder dekativiert den Anlernmodus'')),
      (''Interface.setLinkInfo'', (''ADMIN'', ''Legt den Namen und die Beschreibung einer direkten Verkn'' @ [CHR 0xC3, CHR 0xBC] @ ''pfung fest'')),
      (''Interface.setValue'', (''GUEST'', ''Setzt einen einzelnen Wert im Parameterset '' @ [CHR 0x22] @ ''Values'' @ [CHR 0x22])),
      (''Program.execute'', (''USER'', ''F'' @ [CHR 0xC3, CHR 0xBC] @ ''hrt ein Programm auf der HomeMatic Zentrale aus'')),
      (''Program.getAll'', (''USER'', ''Liefert Detailinformationen zu allen Programmen auf der HomeMatic Zentrale'')),
      (''Program.setActive'', (''USER'', ''Aktiviert oder deaktiviert ein Programm (godevccu-Erweiterung)'')),
      (''ReGa.runScript'', (''ADMIN'', ''F'' @ [CHR 0xC3, CHR 0xBC] @ ''hrt ein HomeMatic Script aus'')),
      (''Room.getAll'', (''GUEST'', ''Liefert Detailinformationen zu allen R'' @ [CHR 0xC3, CHR 0xA4] @ ''umen'')),
      (''Room.listAll'', (''GUEST'', ''Liefert eine Liste aller R'' @ [CHR 0xC3, CHR 0xA4] @ ''ume'')),
      (''Session.login'', (''NONE'', ''F'' @ [CHR 0xC3, CHR 0xBC] @ ''hrt die Benutzeranmeldung durch'')),
      (''Session.logout'', (''NONE'', ''Beendet eine Sitzung'')),
      (''Session.renew'', (''GUEST'', ''Erneuert die Sitzung; Falls eine Sitzung nicht rechtzeitig erneuert wird, l'' @ [CHR 0xC3, CHR 0xA4] @ ''uft diese ab'')),
      (''Subsection.getAll'', (''GUEST'', ''Liefert Detailinformationen zu allen Gewerken'')),
      (''SysVar.createBool'', (''USER'', ''Erzeugt eine Systemvariable vom Typ bool'')),
      (''SysVar.createEnum'', (''USER'', ''Erzeugt eine Systemvariable vom Typ enum'')),
      (''SysVar.createFloat'', (''USER'', ''Erzeugt eine Systemvariable vom Typ Number'')),
      (''SysVar.deleteSysVarByName'', (''USER'', ''Entfernt eine Systemvariable mit bestimmten Namen'')),
      (''SysVar.get'', (''USER'', ''Liefert Detailinformationen zu einer Systemvariable auf der HomeMatic Zentrale'')),
      (''SysVar.getAll'', (''USER'', ''Liefert Detailinformationen zu allen Systemvariablen auf der HomeMatic Zentrale'')),
      (''SysVar.getValueByName'', (''USER'', ''Liefert den aktuellen Wert einer Systemvariable'')),
      (''SysVar.setBool'', (''USER'', ''Setzt den Wert einer Systemvariable vom Type bool'')),
      (''SysVar.setEnum'', (''USER'', ''Setzt den Wert einer Systemvariable vom Typ enum'')),
      (''SysVar.setFloat'', (''USER'', ''Setzt den Wert einer Systemvariable vom Type float'')),
      (''SysVar.setString'', (''USER'', ''Setzt den Wert einer Systemvariable vom Typ Zeichenkette (godevccu-Erweiterung)'')),
      (''system.listMethods'', (''NONE'', ''Liefert eine Liste der verf'' @ [CHR 0xC3, CHR 0xBC] @ ''gbaren Methoden''))]"

definition meta_for :: "string \<Rightarrow> string \<times> string" where
  "meta_for name = (case map_of method_levels name of Some m \<Rightarrow> m | None \<Rightarrow> (''USER'', []))"

definition public_methods :: "string list" where
  "public_methods = [''Session.login'', ''CCU.getAuthEnabled'', ''CCU.getHttpsRedirectEnabled'', ''system.listMethods'',
     ''system.methodHelp'', ''system.describe'']"

end
