(* ===== verification/Json_Api.thy ===== *)
theory Json_Api
  imports Rega_Engine Json_Meta Session Logs Client_Registry Master_Model
begin

text \<open>
  The methods of the JSON-RPC interface, \<^verbatim>\<open>internal/jsonrpc/handlers.go\<close>. A method is a function of its
  parameters on the whole state: the sessions, the manager and the device simulator, the log of client writes. It
  answers a Go value or an error. Where the source answers a list of maps or of strings, the model answers the list
  of values it is encoded as. What the handlers are set up with, and the clock, the random source, the remote
  clients and the standard library, is the record \<open>api\<close>, fixed during one request.
\<close>

section \<open>State and parameters\<close>

record hub =
  accounts :: session_manager
  backend :: rworld
  https_redirect :: bool
  write_log :: "gov write_entry bounded_log"
  program_calls :: "(nat \<times> int \<times> bool) list"

record api =
  xmlrpc_port :: int
  inventory :: "(string \<times> int \<times> string) list"
  realistic :: bool
  rega_ids_on :: bool
  engine_on :: bool
  eng :: engine
  go :: golib
  net :: network
  token_bytes :: "8 word list option"
  local_text :: "int \<Rightarrow> string"
  float_text :: "f64 \<Rightarrow> string"
  error_text :: "rpc_error \<Rightarrow> string"

type_synonym api_handler = "api \<Rightarrow> val_map \<Rightarrow> hub \<Rightarrow> (api_error + gov) \<times> hub"

definition bool_param :: "val_map \<Rightarrow> string \<Rightarrow> bool \<Rightarrow> bool" where
  "bool_param ps k def =
     (case entry_of ps k of
        GBool b \<Rightarrow> b
      | GStr s \<Rightarrow>
          (let t = to_lower (trim_space s)
           in if t = ''true'' \<or> t = ''1'' then True else if t = ''false'' \<or> t = ''0'' then False else def)
      | _ \<Rightarrow> def)"

definition float_param :: "golib \<Rightarrow> val_map \<Rightarrow> string \<Rightarrow> f64 \<Rightarrow> f64" where
  "float_param L ps k def =
     (case entry_of ps k of
        GFloat x \<Rightarrow> x
      | GInt n \<Rightarrow> f64_of_int n
      | GStr s \<Rightarrow> (case parse_float L s of Some x \<Rightarrow> x | None \<Rightarrow> def)
      | _ \<Rightarrow> def)"

fun int_of_any :: "golib \<Rightarrow> gov \<Rightarrow> int option" where
  "int_of_any L (GFloat x) = Some (go_int L x)"
| "int_of_any L (GInt n) = Some n"
| "int_of_any L (GStr s) = parse_int 10 s"
| "int_of_any L v = None"

text \<open>The first of the keys that holds a number.\<close>

fun int_param :: "golib \<Rightarrow> val_map \<Rightarrow> string list \<Rightarrow> int option" where
  "int_param L ps [] = None"
| "int_param L ps (k # ks) = (case int_of_any L (entry_of ps k) of Some n \<Rightarrow> Some n | None \<Rightarrow> int_param L ps ks)"

definition missing_id :: api_error where
  "missing_id = err_params ''jsonrpc -32602: Missing or invalid id parameter''"

definition paramset_key_param :: "val_map \<Rightarrow> string" where
  "paramset_key_param ps =
     (if text_of ps ''paramsetKey'' \<noteq> [] then text_of ps ''paramsetKey''
      else if text_of ps ''paramset_key'' \<noteq> [] then text_of ps ''paramset_key'' else ''VALUES'')"

definition value_key_param :: "val_map \<Rightarrow> string" where
  "value_key_param ps = (if text_of ps ''valueKey'' \<noteq> [] then text_of ps ''valueKey'' else text_of ps ''value_key'')"

text \<open>Access to the parts of the state.\<close>

definition answer_with :: "gov \<Rightarrow> hub \<Rightarrow> (api_error + gov) \<times> hub" where
  "answer_with v h = (Inr v, h)"

definition refuse :: "api_error \<Rightarrow> hub \<Rightarrow> (api_error + gov) \<times> hub" where
  "refuse e h = (Inl e, h)"

definition manager_of :: "hub \<Rightarrow> gov manager" where "manager_of h = mgr (backend h)"

definition on_mgr :: "(gov manager \<Rightarrow> 'a \<times> gov manager) \<Rightarrow> hub \<Rightarrow> 'a \<times> hub" where
  "on_mgr f h = (case with_mgr f (backend h) of (x, w) \<Rightarrow> (x, h\<lparr>backend := w\<rparr>))"

definition set_sim :: "rpc \<Rightarrow> hub \<Rightarrow> hub" where
  "set_sim r h = h\<lparr>backend := (backend h)\<lparr>sim := Some r\<rparr>\<rparr>"

text \<open>With the simulator where there is one, else the answer given.\<close>

definition on_sim :: "'a \<Rightarrow> (rpc \<Rightarrow> 'a \<times> rpc) \<Rightarrow> hub \<Rightarrow> 'a \<times> hub" where
  "on_sim absent f h =
     (case sim (backend h) of None \<Rightarrow> (absent, h) | Some r \<Rightarrow> (case f r of (x, r1) \<Rightarrow> (x, set_sim r1 h)))"

definition ask_sim :: "'a \<Rightarrow> (rpc \<Rightarrow> 'a) \<Rightarrow> hub \<Rightarrow> 'a \<times> hub" where
  "ask_sim absent f h = (case sim (backend h) of None \<Rightarrow> absent | Some r \<Rightarrow> f r, h)"

section \<open>Sessions and the system\<close>

definition session_login :: api_handler where
  "session_login A ps h =
     (case login (text_of ps ''username'') (text_of ps ''password'') (token_bytes A) (now_ns (eng A)) (accounts h) of
        (i, m) \<Rightarrow> (Inr (GStr i), h\<lparr>accounts := m\<rparr>))"

definition session_logout :: api_handler where
  "session_logout A ps h =
     (case logout (text_of ps ''_session_id_'') (accounts h) of (b, m) \<Rightarrow> (Inr (GBool True), h\<lparr>accounts := m\<rparr>))"

definition session_refused :: api_error where
  "session_refused = err_session ''Session expired or invalid''"

definition session_renew :: api_handler where
  "session_renew A ps h =
     (case renew (text_of ps ''_session_id_'') (token_bytes A) (now_ns (eng A)) (accounts h) of
        (i, m) \<Rightarrow> (if i = [] then Inl session_refused else Inr (GBool True), h\<lparr>accounts := m\<rparr>))"

definition get_auth_enabled :: api_handler where
  "get_auth_enabled A ps h = answer_with (GBool (m_enabled (accounts h))) h"

definition get_https_redirect_enabled :: api_handler where
  "get_https_redirect_enabled A ps h = answer_with (GBool (https_redirect h)) h"

definition get_serial :: api_handler where
  "get_serial A ps h = answer_with (GStr (mg_serial (manager_of h))) h"

definition get_ccu_version :: api_handler where
  "get_ccu_version A ps = ask_sim (Inr (GStr ccu_firmware_version)) (\<lambda>r. Inr (GStr (version (cfg r))))"

definition method_names :: "string list" where
  "method_names =
     [''Session.login'', ''Session.logout'', ''Session.renew'', ''CCU.getAuthEnabled'', ''CCU.getHttpsRedirectEnabled'',
      ''CCU.getSerial'', ''CCU.getVersion'', ''system.listMethods'', ''system.methodHelp'', ''system.describe'',
      ''Interface.listInterfaces'', ''Interface.listDevices'', ''Interface.getDeviceDescription'',
      ''Interface.getParamset'', ''Interface.getParamsetDescription'', ''Interface.getValue'', ''Interface.setValue'',
      ''Interface.putParamset'', ''Interface.isPresent'', ''Interface.getInstallMode'', ''Interface.setInstallMode'',
      ''Interface.setInstallModeHMIP'', ''Interface.getMasterValue'', ''Interface.ping'', ''Interface.init'',
      ''Interface.rssiInfo'', ''Interface.listBidcosInterfaces'', ''Interface.getLinkInfo'', ''Interface.setLinkInfo'',
      ''Interface.determineParameter'', ''Interface.getParamsetId'', ''Interface.getSuppressedServiceMessages'',
      ''Interface.suppressServiceMessages'', ''Device.listAllDetail'', ''Device.get'', ''Device.setName'',
      ''Channel.setName'', ''Channel.hasProgramIds'', ''Program.getAll'', ''Program.execute'', ''Program.setActive'',
      ''SysVar.getAll'', ''SysVar.get'', ''SysVar.getValueByName'', ''SysVar.setBool'', ''SysVar.setFloat'',
      ''SysVar.setString'', ''SysVar.setEnum'', ''SysVar.createBool'', ''SysVar.createFloat'', ''SysVar.createEnum'',
      ''SysVar.deleteSysVarByName'', ''Room.getAll'', ''Room.listAll'', ''Subsection.getAll'', ''ReGa.runScript'']"

definition list_methods :: api_handler where
  "list_methods A ps h =
     answer_with (GList (map (\<lambda>n. GMap [(''name'', GStr n), (''level'', GStr (fst (meta_for n))),
        (''info'', GStr (snd (meta_for n)))]) (sort method_names))) h"

definition method_help :: api_handler where
  "method_help A ps h =
     (let name = text_of ps ''name'' in
      if name = [] then refuse (err_params ''Missing name parameter'') h
      else if name \<notin> set method_names then refuse (err_object ''Method'' name) h
      else answer_with (GStr (snd (meta_for name))) h)"

section \<open>Interfaces\<close>

definition interface_entry :: "api \<Rightarrow> string \<Rightarrow> string \<Rightarrow> gov" where
  "interface_entry A name descr = GMap [(''name'', GStr name), (''port'', GInt (xmlrpc_port A)), (''info'', GStr descr),
     (''type'', GStr name), (''available'', GBool True)]"

definition list_interfaces :: api_handler where
  "list_interfaces A ps h =
     answer_with (GList (if inventory A \<noteq> [] then
         map (\<lambda>(n, p, i). GMap [(''name'', GStr n), (''port'', GInt p), (''info'', GStr i)]) (inventory A)
       else [interface_entry A ''HmIP-RF'' ''HomeMatic IP RF Interface'',
             interface_entry A ''BidCos-RF'' ''HomeMatic RF Interface''])) h"

definition list_devices :: api_handler where
  "list_devices A ps = ask_sim (Inr (GList [])) (\<lambda>r. Inr (GList (map GMap (devices (store r)))))"

definition missing_address :: api_error where
  "missing_address = err_params ''Missing address parameter''"

definition described :: "string \<Rightarrow> (val_map \<Rightarrow> hub \<Rightarrow> gov) \<Rightarrow> hub \<Rightarrow> (api_error + gov) \<times> hub" where
  "described a f h =
     (case description_in (backend h) a of
        None \<Rightarrow> refuse (err_object ''Device'' a) h | Some d \<Rightarrow> answer_with (f d h) h)"

definition api_device_description :: api_handler where
  "api_device_description A ps h =
     (if text_of ps ''address'' = [] then refuse missing_address h else described (text_of ps ''address'') (\<lambda>d _. GMap d) h)"

text \<open>A paramset that cannot be read is an empty one.\<close>

definition map_or_empty :: "rpc_error + val_map \<Rightarrow> api_error + gov" where
  "map_or_empty res = Inr (GMap (case res of Inr m \<Rightarrow> m | Inl e \<Rightarrow> []))"

definition api_get_paramset :: api_handler where
  "api_get_paramset A ps h =
     (if text_of ps ''address'' = [] then refuse missing_address h
      else on_sim (Inr (GMap [])) (\<lambda>r. case get_paramset (go A) (text_of ps ''address'') (paramset_key_param ps) r of
             (res, r1) \<Rightarrow> (map_or_empty res, r1)) h)"

definition api_paramset_description :: api_handler where
  "api_paramset_description A ps h =
     (if text_of ps ''address'' = [] then refuse missing_address h
      else ask_sim (Inr (GMap []))
             (\<lambda>r. map_or_empty (get_paramset_description (text_of ps ''address'') (paramset_key_param ps) (store r))) h)"

definition missing_value_key :: api_error where
  "missing_value_key = err_params ''Missing address or valueKey parameter''"

definition api_get_value :: api_handler where
  "api_get_value A ps h =
     (if text_of ps ''address'' = [] \<or> value_key_param ps = [] then refuse missing_value_key h
      else on_sim (Inr GNil) (\<lambda>r. case get_value (go A) (text_of ps ''address'') (value_key_param ps) r of
             (res, r1) \<Rightarrow> (Inr (case res of Inr v \<Rightarrow> v | Inl e \<Rightarrow> GNil), r1)) h)"

text \<open>
  A write of a client: what the simulator says, and the entry of the write log, with what a MASTER write model did
  not take as sent.
\<close>

definition rejections :: "golib \<Rightarrow> string \<Rightarrow> string \<Rightarrow> val_map \<Rightarrow> rpc \<Rightarrow> (string \<times> gov \<times> string) list" where
  "rejections L a key ps r =
     (case get_paramset_description a key (store r) of
        Inl e \<Rightarrow> []
      | Inr descs \<Rightarrow>
          (let model = master_model_for (device_type_for_address (to_upper a) (store r))
           in if key \<noteq> ''MASTER'' \<or> \<not> master_model (cfg r) \<or> model = NoModel then []
              else mr_rejected (master_loop L model descs (overrides (to_upper a) ''MASTER'' (store r)) ps)))"

definition log_write ::
    "api \<Rightarrow> rpc \<Rightarrow> string \<Rightarrow> string \<Rightarrow> string \<Rightarrow> val_map \<Rightarrow> (string \<times> gov \<times> string) list \<Rightarrow> (rpc_error + unit) \<Rightarrow> hub \<Rightarrow> hub" where
  "log_write A r meth a key vals rej res h =
     h\<lparr>write_log := record_write (interface_id (cfg r)) (now_ns (eng A)) meth a key vals
         (map (\<lambda>(n, v, why). \<lparr>rp_name = n, rp_value = v, rp_reason = why\<rparr>) rej)
         (case res of Inl e \<Rightarrow> Some (error_text A e) | Inr _ \<Rightarrow> None) (write_log h)\<rparr>"

definition client_set_value :: "api \<Rightarrow> string \<Rightarrow> string \<Rightarrow> gov \<Rightarrow> hub \<Rightarrow> (api_error + gov) \<times> hub" where
  "client_set_value A a k v h =
     (case sim (backend h) of
        None \<Rightarrow> answer_with (GBool False) h
      | Some r \<Rightarrow>
          (case set_value (go A) (net A) a k v False r of
             (res, r1) \<Rightarrow> answer_with (GBool (\<exists>u. res = Inr u))
                            (log_write A r ''setValue'' a ''VALUES'' [(k, v)] [] res (set_sim r1 h))))"

definition client_put_paramset :: "api \<Rightarrow> string \<Rightarrow> string \<Rightarrow> val_map \<Rightarrow> hub \<Rightarrow> (api_error + gov) \<times> hub" where
  "client_put_paramset A a key vals h =
     (case sim (backend h) of
        None \<Rightarrow> answer_with (GBool False) h
      | Some r \<Rightarrow>
          (case put_paramset_full (go A) (net A) a key vals False r of
             (res, r1) \<Rightarrow> answer_with (GBool (\<exists>u. res = Inr u))
                (log_write A r ''putParamset'' a key vals (rejections (go A) a key vals r) res (set_sim r1 h))))"

definition api_set_value :: api_handler where
  "api_set_value A ps h =
     (if text_of ps ''address'' = [] \<or> value_key_param ps = [] then refuse missing_value_key h
      else client_set_value A (text_of ps ''address'') (value_key_param ps) (entry_of ps ''value'') h)"

definition api_put_paramset :: api_handler where
  "api_put_paramset A ps h =
     (if text_of ps ''address'' = [] then refuse missing_address h
      else client_put_paramset A (text_of ps ''address'') (paramset_key_param ps)
             (case entry_of ps ''set'' of
                GMap m \<Rightarrow> m | _ \<Rightarrow> (case entry_of ps ''paramset'' of GMap m \<Rightarrow> m | _ \<Rightarrow> [])) h)"

definition is_present :: api_handler where
  "is_present A ps h = answer_with (GBool (description_in (backend h) (text_of ps ''address'') \<noteq> None)) h"

definition api_get_install_mode :: api_handler where
  "api_get_install_mode A ps =
     on_sim (Inr (GInt 0)) (\<lambda>r. case get_install_mode (now_ns (eng A)) r of (n, r1) \<Rightarrow> (Inr (GInt n), r1))"

definition api_set_install_mode :: api_handler where
  "api_set_install_mode A ps =
     on_sim (Inr (GBool True)) (\<lambda>r. (Inr (GBool True),
       set_install_mode (now_ns (eng A)) (bool_param ps ''on'' True)
         (case int_param (go A) ps [''time'', ''duration''] of Some n \<Rightarrow> n | None \<Rightarrow> 0)
         (case int_param (go A) ps [''mode''] of Some n \<Rightarrow> n | None \<Rightarrow> 1)
         (text_of ps ''address'') r))"

definition get_master_value :: api_handler where
  "get_master_value A ps = answer_with (GStr [])"

definition api_ping :: api_handler where
  "api_ping A ps = answer_with (GBool True)"

definition interface_init :: api_handler where
  "interface_init A ps =
     on_sim (Inr (GStr [])) (\<lambda>r. (Inr (GStr []),
       init_client (text_of ps ''url'')
         (if text_of ps ''interfaceId'' \<noteq> [] then text_of ps ''interfaceId'' else text_of ps ''interface_id'') r))"

definition api_rssi_info :: api_handler where
  "api_rssi_info A ps = ask_sim (Inr (GMap [])) (\<lambda>r. Inr (GMap (rssi_info (store r))))"

definition api_bidcos_interfaces :: api_handler where
  "api_bidcos_interfaces A ps =
     ask_sim (Inr (GList [])) (\<lambda>r. Inr (GList (map (\<lambda>gw. GMap [(''address'', entry_of gw ''ADDRESS''),
       (''description'', entry_of gw ''DESCRIPTION''), (''dutyCycle'', entry_of gw ''DUTY_CYCLE''),
       (''isConnected'', entry_of gw ''CONNECTED''), (''isDefault'', entry_of gw ''DEFAULT''),
       (''fwVersion'', entry_of gw ''FIRMWARE_VERSION''), (''type'', entry_of gw ''TYPE'')]) (list_bidcos_interfaces r))))"

definition no_interface :: api_error where
  "no_interface = err_params ''No interface available''"

definition link_name :: "string \<Rightarrow> string \<Rightarrow> string" where
  "link_name s t = s @ ''->'' @ t"

definition api_get_link_info :: api_handler where
  "api_get_link_info A ps h =
     (let s = text_of ps ''senderAddress''; t = text_of ps ''receiverAddress'' in
      if s = [] \<or> t = [] then refuse (err_params ''Missing senderAddress or receiverAddress parameter'') h
      else ask_sim (Inl no_interface) (\<lambda>r. case get_link_info s t r of
             Inl e \<Rightarrow> Inl (err_object ''Link'' (link_name s t))
           | Inr (n, d) \<Rightarrow> Inr (GMap [(''name'', GStr n), (''description'', GStr d)])) h)"

definition api_set_link_info :: api_handler where
  "api_set_link_info A ps h =
     (let s = text_of ps ''sender''; t = text_of ps ''receiver'' in
      if s = [] \<or> t = [] then refuse (err_params ''Missing sender or receiver parameter'') h
      else on_sim (Inl no_interface) (\<lambda>r. case set_link_info s t (text_of ps ''name'') (text_of ps ''description'') r of
             (Inl e, r1) \<Rightarrow> (Inl (err_object ''Link'' (link_name s t)), r1)
           | (Inr b, r1) \<Rightarrow> (Inr (GBool b), r1)) h)"

definition api_determine_parameter :: api_handler where
  "api_determine_parameter A ps h =
     (let a = text_of ps ''address''; p = text_of ps ''parameterId'' in
      if a = [] \<or> p = [] then refuse (err_params ''Missing address or parameterId parameter'') h
      else on_sim (Inl no_interface) (\<lambda>r. case determine_parameter (go A) (net A) a (text_of ps ''paramsetKey'') p r of
             (Inl e, r1) \<Rightarrow> (Inl (err_object ''Parameter'' (a @ ''.'' @ p)), r1)
           | (Inr b, r1) \<Rightarrow> (Inr (GBool b), r1)) h)"

definition api_paramset_id :: api_handler where
  "api_paramset_id A ps h =
     (let a = text_of ps ''address''; k = text_of ps ''paramsetType'' in
      if a = [] \<or> k = [] then refuse (err_params ''Missing address or paramsetType parameter'') h
      else ask_sim (Inl no_interface) (\<lambda>r. case get_paramset_id a k (store r) of
             Inl e \<Rightarrow> Inl (err_object ''Device'' a) | Inr i \<Rightarrow> Inr (GStr i)) h)"

definition missing_channel :: api_error where
  "missing_channel = err_params ''Missing channelAddress parameter''"

definition api_suppressed :: api_handler where
  "api_suppressed A ps h =
     (if text_of ps ''channelAddress'' = [] then refuse missing_channel h
      else ask_sim (Inr (GList []))
             (\<lambda>r. Inr (GList (map GStr (suppressed_service_messages (text_of ps ''channelAddress'') r)))) h)"

definition api_suppress :: api_handler where
  "api_suppress A ps h =
     (if text_of ps ''channelAddress'' = [] then refuse missing_channel h
      else on_sim (Inr (GBool False)) (\<lambda>r. (Inr (GBool True), suppress_service_message (text_of ps ''channelAddress'')
             (text_of ps ''parameterId'') (bool_param ps ''suppress'' True) r)) h)"

end
