(* ===== verification/Json_Methods.thy ===== *)
theory Json_Methods
  imports Json_Api
begin

text \<open>
  The rest of \<^verbatim>\<open>internal/jsonrpc/handlers.go\<close>: devices and channels as a client lists them, programs, system
  variables, rooms and functions, scripts; and the table of all methods.
\<close>

text \<open>A function with state over a list, in order.\<close>

fun each :: "('a \<Rightarrow> 's \<Rightarrow> 'b \<times> 's) \<Rightarrow> 'a list \<Rightarrow> 's \<Rightarrow> 'b list \<times> 's" where
  "each f [] s = ([], s)"
| "each f (x # xs) s = (case f x s of (y, s1) \<Rightarrow> (case each f xs s1 of (ys, s2) \<Rightarrow> (y # ys, s2)))"

section \<open>Devices and channels\<close>

definition object_id :: "api \<Rightarrow> string \<Rightarrow> hub \<Rightarrow> gov \<times> hub" where
  "object_id A a h =
     (if \<not> rega_ids_on A then (GStr a, h)
      else (case on_mgr (register_address a) h of (i, h1) \<Rightarrow> (GStr (format_int i), h1)))"

definition interface_of :: "val_map \<Rightarrow> string" where
  "interface_of d =
     (if text_of d ''INTERFACE'' \<noteq> [] \<and> \<not> equal_fold (text_of d ''INTERFACE'') ''godevccu'' then text_of d ''INTERFACE''
      else interface_for_type (if text_of d ''PARENT_TYPE'' \<noteq> [] then text_of d ''PARENT_TYPE'' else text_of d ''TYPE''))"

definition channel_index :: "string \<Rightarrow> int" where
  "channel_index a =
     (case cut_byte (CHR '':'') a of
        (_, after, found) \<Rightarrow> if \<not> found then 0 else (case parse_int 10 after of Some n \<Rightarrow> n | None \<Rightarrow> 0))"

definition paramset_names :: "val_map \<Rightarrow> gov" where
  "paramset_names d =
     GList (case any_list (entry_of d ''PARAMSETS'') of Some vs \<Rightarrow> map GStr (List.map_filter any_str vs) | None \<Rightarrow> [])"

fun as_go_bool :: "gov \<Rightarrow> bool" where
  "as_go_bool (GBool b) = b"
| "as_go_bool (GFloat x) = (\<not> is_zero x)"
| "as_go_bool (GInt n) = (n \<noteq> 0)"
| "as_go_bool (GStr s) = (s = ''1'' \<or> equal_fold s ''true'')"
| "as_go_bool v = False"

fun as_go_int :: "golib \<Rightarrow> gov \<Rightarrow> int" where
  "as_go_int L (GFloat x) = go_int L x"
| "as_go_int L (GInt n) = n"
| "as_go_int L (GStr s) = (case parse_int 10 s of Some n \<Rightarrow> n | None \<Rightarrow> 0)"
| "as_go_int L v = 0"

definition category_for :: "golib \<Rightarrow> gov \<Rightarrow> string" where
  "category_for L v =
     (let n = as_go_int L v in
      if n = 1 then ''CATEGORY_SENDER'' else if n = 2 then ''CATEGORY_RECEIVER'' else ''CATEGORY_NONE'')"

definition string_or_default :: "gov \<Rightarrow> string \<Rightarrow> string" where
  "string_or_default v def = (case any_str v of Some s \<Rightarrow> if s = [] then def else s | None \<Rightarrow> def)"

definition device_label :: "string \<Rightarrow> val_map \<Rightarrow> gov manager \<Rightarrow> string" where
  "device_label a d m =
     (case device_name a m of Some n \<Rightarrow> n | None \<Rightarrow> if text_of d ''TYPE'' \<noteq> [] then text_of d ''TYPE'' else a)"

definition channel_record :: "api \<Rightarrow> string \<Rightarrow> val_map \<Rightarrow> hub \<Rightarrow> gov \<times> hub" where
  "channel_record A a d h =
     (case object_id A a h of
        (i, h1) \<Rightarrow>
          (let base = [(''id'', i), (''address'', GStr a), (''type'', entry_of d ''TYPE''),
                       (''name'', GStr (device_label a d (manager_of h1))), (''interface'', GStr (interface_of d))]
           in if \<not> realistic A then (GMap base, h1)
              else (case object_id A (root_of a) h1 of
                (ri, h2) \<Rightarrow>
                  (GMap (base @ [(''deviceId'', ri), (''index'', GInt (channel_index a)),
                     (''channelType'', entry_of d ''TYPE''), (''paramsets'', paramset_names d),
                     (''mode'', GStr ''MODE_UNKNOWN''), (''category'', GStr (category_for (go A) (entry_of d ''DIRECTION''))),
                     (''partnerId'', GStr []), (''isReady'', GBool True), (''visible'', GBool True),
                     (''operateGroupOnly'', GStr ''false'')]), h2))))"

text \<open>One pass over the devices: the roots by address, and the records of the channels by root.\<close>

type_synonym catalogue = "val_map \<times> (string, gov list) gomap \<times> hub"

definition collect_device :: "api \<Rightarrow> val_map \<Rightarrow> catalogue \<Rightarrow> catalogue" where
  "collect_device A d acc =
     (case acc of (parents, channels, h) \<Rightarrow>
        (let a = text_of d ''ADDRESS'' in
         if CHR '':'' \<in> set a then
           (case channel_record A a d h of
              (c, h1) \<Rightarrow>
                (parents, AList.update (root_of a)
                   ((case map_of channels (root_of a) of Some cs \<Rightarrow> cs | None \<Rightarrow> []) @ [c]) channels, h1))
         else (AList.update a (GMap d) parents, channels, h)))"

definition device_record :: "api \<Rightarrow> (string, gov list) gomap \<Rightarrow> string \<times> gov \<Rightarrow> hub \<Rightarrow> gov \<times> hub" where
  "device_record A channels e h =
     (let a = fst e; d = (case snd e of GMap m \<Rightarrow> m | _ \<Rightarrow> []) in
      case object_id A a h of
        (i, h1) \<Rightarrow>
          (GMap ([(''id'', i), (''address'', GStr a), (''type'', entry_of d ''TYPE''),
              (''name'', GStr (device_label a d (manager_of h1))), (''interface'', GStr (interface_of d)),
              (''channels'', case map_of channels a of Some cs \<Rightarrow> GList cs | None \<Rightarrow> GNil)] @
            (if realistic A then
               [(''paramsets'', paramset_names d), (''firmware'', GStr (string_or_default (entry_of d ''FIRMWARE'') [])),
                (''availableFirmware'', GStr (string_or_default (entry_of d ''AVAILABLE_FIRMWARE'') [])),
                (''updatable'', GBool (as_go_bool (entry_of d ''UPDATABLE''))),
                (''firmwareUpdateState'', GStr (string_or_default (entry_of d ''FIRMWARE_UPDATE_STATE'') [])),
                (''readyConfig'', GBool True)]
             else [])), h1))"

definition device_list_all_detail :: api_handler where
  "device_list_all_detail A ps h =
     (case sim (backend h) of
        None \<Rightarrow> answer_with (GList []) h
      | Some r \<Rightarrow>
          (case fold (collect_device A) (devices (store r)) ([], [], h) of
             (parents, channels, h1) \<Rightarrow>
               (case each (device_record A channels) (iter_order (go A) parents) h1 of
                  (records, h2) \<Rightarrow> answer_with (GList records) h2)))"

definition address_or_id :: "val_map \<Rightarrow> string" where
  "address_or_id ps = (if text_of ps ''address'' \<noteq> [] then text_of ps ''address'' else text_of ps ''id'')"

definition device_get :: api_handler where
  "device_get A ps h =
     (let a = address_or_id ps in
      if a = [] then refuse missing_address h
      else described a (\<lambda>d h. GMap [(''id'', GStr a), (''address'', GStr a), (''type'', entry_of d ''TYPE''),
             (''name'', GStr (device_label a d (manager_of h)))]) h)"

definition set_name :: api_handler where
  "set_name A ps h =
     (let a = address_or_id ps in
      if a = [] then refuse missing_address h
      else on_mgr (\<lambda>m. (Inr (GBool True), set_device_name a (text_of ps ''name'') m)) h)"

definition channel_has_program_ids :: api_handler where
  "channel_has_program_ids A ps = answer_with (GList [])"

section \<open>Programs\<close>

text \<open>A moment as a CCU prints it; what never happened is empty.\<close>

definition format_ccu_time :: "api \<Rightarrow> f64 \<Rightarrow> string" where
  "format_ccu_time A ts = (if f64_le ts (Fin 0) then [] else local_text A (go_int (go A) ts))"

definition program_record :: "api \<Rightarrow> program \<Rightarrow> gov" where
  "program_record A p =
     GMap [(''id'', GStr (format_int (prog_id p))), (''name'', GStr (prog_name p)),
       (''description'', GStr (prog_description p)), (''isActive'', GBool (prog_active p)),
       (''isInternal'', GBool (prog_internal p)),
       (''lastExecuteTime'', if realistic A then GStr (format_ccu_time A (f64_of_bits (prog_last p))) else float_of (prog_last p))]"

definition program_get_all :: api_handler where
  "program_get_all A ps h = answer_with (GList (map (program_record A) (all_programs (manager_of h)))) h"

definition success :: "bool \<Rightarrow> gov" where
  "success b = GMap [(''success'', GBool b)]"

definition program_execute :: api_handler where
  "program_execute A ps h =
     (case int_param (go A) ps [''id'', ''programId''] of
        None \<Rightarrow> refuse missing_id h
      | Some i \<Rightarrow>
          (case execute_program i (stamp (clock_at (eng A))) (manager_of h) of
             (ok, calls, m) \<Rightarrow> answer_with (success ok)
                (h\<lparr>backend := (backend h)\<lparr>mgr := m\<rparr>, program_calls := program_calls h @ calls\<rparr>)))"

definition program_set_active :: api_handler where
  "program_set_active A ps h =
     (case int_param (go A) ps [''id'', ''programId''] of
        None \<Rightarrow> refuse missing_id h
      | Some i \<Rightarrow>
          (let active = (case entry_of ps ''isActive'' of GBool b \<Rightarrow> b | _ \<Rightarrow> bool_param ps ''active'' True)
           in on_mgr (\<lambda>m. case set_program_active i active m of (ok, m1) \<Rightarrow> (Inr (success ok), m1)) h))"

section \<open>System variables\<close>

definition ccu_var_type :: "string \<Rightarrow> string" where
  "ccu_var_type ty =
     (let u = to_upper ty in
      if u = ''BOOL'' then ''LOGIC'' else if u = ''FLOAT'' then ''NUMBER'' else if u = ''ENUM'' then ''LIST''
      else if u = ''ALARM'' then ''ALARM'' else ''STRING'')"

fun ccu_value_string :: "api \<Rightarrow> gov \<Rightarrow> string" where
  "ccu_value_string A (GStr s) = s"
| "ccu_value_string A (GBool b) = bool_text b"
| "ccu_value_string A (GFloat x) = float_text A x"
| "ccu_value_string A (GInt n) = format_int n"
| "ccu_value_string A GNil = []"
| "ccu_value_string A v = sprint (go A) v"

definition value_name_or :: "string \<Rightarrow> string \<Rightarrow> string" where
  "value_name_or name fallback = (if name = [] then fallback else name)"

definition ccu_sysvar_record :: "api \<Rightarrow> gov system_variable \<Rightarrow> gov" where
  "ccu_sysvar_record A sv =
     (let ty = ccu_var_type (sv_type sv) in
      GMap ([(''id'', GStr (format_int (sv_id sv))), (''name'', GStr (sv_name sv)), (''type'', GStr ty),
             (''unit'', GStr (sv_unit sv)), (''value'', GStr (ccu_value_string A (sv_value sv))),
             (''channelId'', GStr (sv_channel sv)), (''isLogged'', GBool (sv_logged sv)),
             (''isVisible'', GBool (sv_visible sv)), (''isInternal'', GBool (sv_internal sv))] @
        (if ty = ''LOGIC'' \<or> ty = ''ALARM'' then
           [(''valueName0'', GStr (value_name_or (sv_value_name0 sv) ''false'')),
            (''valueName1'', GStr (value_name_or (sv_value_name1 sv) ''true''))]
         else if ty = ''LIST'' then [(''valueList'', GStr (sv_value_list sv))]
         else if ty = ''NUMBER'' then
           [(''minValue'', GStr (ccu_value_string A (float_of (sv_min sv)))),
            (''maxValue'', GStr (ccu_value_string A (float_of (sv_max sv))))]
         else [])))"

definition plain_sysvar_record :: "gov system_variable \<Rightarrow> gov" where
  "plain_sysvar_record sv =
     GMap [(''id'', GStr (format_int (sv_id sv))), (''name'', GStr (sv_name sv)), (''description'', GStr (sv_description sv)),
       (''type'', GStr (sv_type sv)), (''value'', sv_value sv), (''unit'', GStr (sv_unit sv)),
       (''valueList'', GStr (sv_value_list sv)), (''minValue'', float_of (sv_min sv)), (''maxValue'', float_of (sv_max sv)),
       (''timestamp'', float_of (sv_timestamp sv)), (''isInternal'', GBool (sv_internal sv))]"

definition sysvar_get_all :: api_handler where
  "sysvar_get_all A ps h =
     answer_with (GList (map (if realistic A then ccu_sysvar_record A else plain_sysvar_record)
       (system_variables (manager_of h)))) h"

definition missing_name :: api_error where
  "missing_name = err_params ''Missing name parameter''"

definition sysvar_get_value_by_name :: api_handler where
  "sysvar_get_value_by_name A ps h =
     (let name = text_of ps ''name'' in
      if name = [] then refuse missing_name h
      else (case system_variable_by_name name (manager_of h) of
              None \<Rightarrow> refuse (err_object ''SystemVariable'' name) h | Some sv \<Rightarrow> answer_with (sv_value sv) h))"

definition sysvar_set :: api_handler where
  "sysvar_set A ps h =
     (let name = text_of ps ''name'' in
      if name = [] then refuse missing_name h
      else (case set_variable (clock_at (eng A)) name (entry_of ps ''value'') (backend h) of
              (ok, w) \<Rightarrow> answer_with (success ok) (h\<lparr>backend := w\<rparr>)))"

definition sysvar_delete :: api_handler where
  "sysvar_delete A ps h =
     (let name = text_of ps ''name'' in
      if name = [] then refuse missing_name h
      else on_mgr (\<lambda>m. case delete_system_variable name m of (ok, m1) \<Rightarrow> (Inr (success ok), m1)) h)"

definition sysvar_detail :: "gov system_variable \<Rightarrow> gov" where
  "sysvar_detail sv =
     (let ty = ccu_var_type (sv_type sv) in
      GMap ([(''id'', GStr (format_int (sv_id sv))), (''name'', GStr (sv_name sv)), (''type'', GStr ty),
             (''unit'', GStr (sv_unit sv)), (''value'', sv_value sv), (''channelId'', GStr (sv_channel sv)),
             (''isLogged'', GBool False), (''isVisible'', GBool True), (''isInternal'', GBool False)] @
        (if ty = ''LOGIC'' \<or> ty = ''ALARM'' then [(''valueName0'', GStr ''false''), (''valueName1'', GStr ''true'')]
         else if ty = ''LIST'' then [(''valueList'', GStr (sv_value_list sv))]
         else if ty = ''NUMBER'' then [(''minValue'', float_of (sv_min sv)), (''maxValue'', float_of (sv_max sv))]
         else [])))"

definition sysvar_get :: api_handler where
  "sysvar_get A ps h =
     (let raw = text_of ps ''id'' in
      if raw = [] then refuse (err_params ''Missing id parameter'') h
      else (case parse_int 10 raw of
              None \<Rightarrow> refuse (err_params ''Invalid id parameter'') h
            | Some i \<Rightarrow>
                (case system_variable_by_id i (manager_of h) of
                   None \<Rightarrow> refuse (err_object ''SystemVariable'' raw) h | Some sv \<Rightarrow> answer_with (sysvar_detail sv) h)))"

text \<open>The options and the first value of a created variable.\<close>

definition created :: "api \<Rightarrow> string \<Rightarrow> val_map \<Rightarrow> sysvar_opts \<times> gov" where
  "created A ty ps =
     (let opts = no_opts\<lparr>o_channel := text_of ps ''chnID''\<rparr>;
          lo = float_param (go A) ps ''minValue'' (Fin 0)
      in if ty = ''BOOL'' then (opts, GBool (bool_param ps ''init_val'' False))
         else if ty = ''FLOAT'' then
           (opts\<lparr>o_min := bits_of_f64 lo, o_max := bits_of_f64 (float_param (go A) ps ''maxValue'' (Fin 100))\<rparr>, GFloat lo)
         else if ty = ''ENUM'' then (opts\<lparr>o_value_list := text_of ps ''valList''\<rparr>, GInt 0)
         else (opts, GNil))"

definition sysvar_create :: "string \<Rightarrow> api_handler" where
  "sysvar_create ty A ps h =
     (let name = text_of ps ''name'' in
      if name = [] then refuse missing_name h
      else if system_variable_by_name name (manager_of h) \<noteq> None then
        refuse (err_params ''SystemVariable already exists'') h
      else (case created A ty ps of
              (opts, v) \<Rightarrow>
                on_mgr (\<lambda>m. case add_system_variable name ty v opts (stamp (clock_at (eng A))) m of
                   (sv, m1) \<Rightarrow> (Inr (GMap [(''name'', GStr (sv_name sv)), (''id'', GStr (format_int (sv_id sv))),
                                          (''value'', sv_value sv)]), m1)) h))"

text \<open>The list is written to a copy of the variable: nothing of the state changes.\<close>

definition sysvar_set_enum :: api_handler where
  "sysvar_set_enum A ps h =
     (let name = text_of ps ''name'' in
      if name = [] then refuse missing_name h
      else (case system_variable_by_name name (manager_of h) of
              None \<Rightarrow> answer_with (GInt (- 1)) h
            | Some sv \<Rightarrow> answer_with (GStr (text_of ps ''valueList'')) h))"

section \<open>Rooms, functions, scripts\<close>

definition channel_ids :: "api \<Rightarrow> string list \<Rightarrow> gov manager \<Rightarrow> gov" where
  "channel_ids A as m =
     (if \<not> rega_ids_on A then GList (map GStr as)
      else GList (map (\<lambda>i. GStr (format_int i)) (channel_ids_for_addresses as m)))"

definition room_record :: "api \<Rightarrow> gov manager \<Rightarrow> room \<Rightarrow> gov" where
  "room_record A m r = GMap [(''id'', GStr (format_int (room_id r))), (''name'', GStr (room_name r)),
     (''description'', GStr (room_description r)), (''channelIds'', channel_ids A (room_channels r) m)]"

definition room_get_all :: api_handler where
  "room_get_all A ps h = answer_with (GList (map (room_record A (manager_of h)) (all_rooms (manager_of h)))) h"

definition room_list_all :: api_handler where
  "room_list_all A ps h =
     (if \<not> realistic A then room_get_all A ps h
      else answer_with (GList (map (\<lambda>r. GStr (format_int (room_id r))) (all_rooms (manager_of h)))) h)"

definition subsection_get_all :: api_handler where
  "subsection_get_all A ps h = answer_with (GList (map (room_record A (manager_of h)) (all_functions (manager_of h)))) h"

definition rega_run_script :: api_handler where
  "rega_run_script A ps h =
     (let script = text_of ps ''script'' in
      if script = [] then refuse (err_params ''Missing script parameter'') h
      else if \<not> engine_on A then answer_with (GStr []) h
      else (case execute_script (eng A) script (backend h) of (t, w) \<Rightarrow> answer_with (GStr t) (h\<lparr>backend := w\<rparr>)))"

section \<open>The table\<close>

definition api_methods :: "(string \<times> api_handler) list" where
  "api_methods =
     [(''Session.login'', session_login), (''Session.logout'', session_logout), (''Session.renew'', session_renew),
      (''CCU.getAuthEnabled'', get_auth_enabled), (''CCU.getHttpsRedirectEnabled'', get_https_redirect_enabled),
      (''CCU.getSerial'', get_serial), (''CCU.getVersion'', get_ccu_version), (''system.listMethods'', list_methods),
      (''system.methodHelp'', method_help), (''system.describe'', list_methods),
      (''Interface.listInterfaces'', list_interfaces), (''Interface.listDevices'', list_devices),
      (''Interface.getDeviceDescription'', api_device_description), (''Interface.getParamset'', api_get_paramset),
      (''Interface.getParamsetDescription'', api_paramset_description), (''Interface.getValue'', api_get_value),
      (''Interface.setValue'', api_set_value), (''Interface.putParamset'', api_put_paramset),
      (''Interface.isPresent'', is_present), (''Interface.getInstallMode'', api_get_install_mode),
      (''Interface.setInstallMode'', api_set_install_mode), (''Interface.setInstallModeHMIP'', api_set_install_mode),
      (''Interface.getMasterValue'', get_master_value), (''Interface.ping'', api_ping), (''Interface.init'', interface_init),
      (''Interface.rssiInfo'', api_rssi_info), (''Interface.listBidcosInterfaces'', api_bidcos_interfaces),
      (''Interface.getLinkInfo'', api_get_link_info), (''Interface.setLinkInfo'', api_set_link_info),
      (''Interface.determineParameter'', api_determine_parameter), (''Interface.getParamsetId'', api_paramset_id),
      (''Interface.getSuppressedServiceMessages'', api_suppressed), (''Interface.suppressServiceMessages'', api_suppress),
      (''Device.listAllDetail'', device_list_all_detail), (''Device.get'', device_get), (''Device.setName'', set_name),
      (''Channel.setName'', set_name), (''Channel.hasProgramIds'', channel_has_program_ids),
      (''Program.getAll'', program_get_all), (''Program.execute'', program_execute), (''Program.setActive'', program_set_active),
      (''SysVar.getAll'', sysvar_get_all), (''SysVar.get'', sysvar_get), (''SysVar.getValueByName'', sysvar_get_value_by_name),
      (''SysVar.setBool'', sysvar_set), (''SysVar.setFloat'', sysvar_set), (''SysVar.setString'', sysvar_set),
      (''SysVar.setEnum'', sysvar_set_enum), (''SysVar.createBool'', sysvar_create ''BOOL''),
      (''SysVar.createFloat'', sysvar_create ''FLOAT''), (''SysVar.createEnum'', sysvar_create ''ENUM''),
      (''SysVar.deleteSysVarByName'', sysvar_delete), (''Room.getAll'', room_get_all), (''Room.listAll'', room_list_all),
      (''Subsection.getAll'', subsection_get_all), (''ReGa.runScript'', rega_run_script)]"

lemma method_names_table: "map fst api_methods = method_names"
  by (simp add: api_methods_def method_names_def)

end
