(* ===== verification/Json_Server.thy ===== *)
theory Json_Server
  imports Json_Methods
begin

text \<open>
  The JSON-RPC server, \<^verbatim>\<open>internal/jsonrpc/server.go\<close>, with \<^verbatim>\<open>extra_routes.go\<close> and the routes of
  \<^verbatim>\<open>tls_server.go\<close>: decoding a request, authentication, dispatch, batches, and the plain HTTP endpoints beside
  it. The reader of JSON text is an argument, as is the text of its errors; a JSON value is a tree, whose numbers are
  floats and whose objects keep their members in order. Names of members fold as in ASCII. One request runs while
  nothing else happens.
\<close>

section \<open>JSON\<close>

datatype json =
    JNull
  | JBool bool
  | JNum f64
  | JStr string
  | JArr "json list"
  | JObj "(string \<times> json) list"

text \<open>Decoded into \<open>any\<close>: of members with one name the last counts.\<close>

fun any_of_json :: "json \<Rightarrow> gov" where
  "any_of_json JNull = GNil"
| "any_of_json (JBool b) = GBool b"
| "any_of_json (JNum x) = GFloat x"
| "any_of_json (JStr s) = GStr s"
| "any_of_json (JArr vs) = GList (map any_of_json vs)"
| "any_of_json (JObj ms) = GMap (members_map (map (\<lambda>(k, v). (k, any_of_json v)) ms))"

section \<open>Server and requests\<close>

record server =
  handlers :: api
  ready :: bool
  ccu_model :: bool
  backup_api :: bool
  upnp_on :: bool
  redirect_port :: int
  read_json :: "string \<Rightarrow> json option"
  json_error :: "string \<Rightarrow> json option \<Rightarrow> string"

definition set_ready :: "bool \<Rightarrow> server \<Rightarrow> server" where
  "set_ready b S = S\<lparr>ready := b\<rparr>"

definition set_ccu_error_model :: "bool \<Rightarrow> server \<Rightarrow> server" where
  "set_ccu_error_model b S = S\<lparr>ccu_model := b\<rparr>"

definition set_extra_routes :: "bool \<Rightarrow> bool \<Rightarrow> server \<Rightarrow> server" where
  "set_extra_routes b u S = S\<lparr>backup_api := b, upnp_on := u\<rparr>"

definition set_redirect :: "int \<Rightarrow> server \<Rightarrow> hub \<Rightarrow> server \<times> hub" where
  "set_redirect port S h = (S\<lparr>redirect_port := port\<rparr>, h\<lparr>https_redirect := (0 < port)\<rparr>)"

record request =
  rq_version :: string
  rq_method :: string
  rq_params :: "json option"
  rq_id :: gov
  rq_session :: "json option"

definition empty_request :: request where
  "empty_request = \<lparr>rq_version = [], rq_method = [], rq_params = None, rq_id = GNil, rq_session = None\<rparr>"

text \<open>A string member takes a string, ignores null and fails on anything else.\<close>

definition string_member :: "json \<Rightarrow> (string \<Rightarrow> request) \<Rightarrow> request \<Rightarrow> request option" where
  "string_member v f rq = (case v of JStr s \<Rightarrow> Some (f s) | JNull \<Rightarrow> Some rq | _ \<Rightarrow> None)"

definition request_member :: "string \<times> json \<Rightarrow> request \<Rightarrow> request option" where
  "request_member e rq =
     (case e of (k, v) \<Rightarrow>
        if equal_fold k ''jsonrpc'' then string_member v (\<lambda>s. rq\<lparr>rq_version := s\<rparr>) rq
        else if equal_fold k ''method'' then string_member v (\<lambda>s. rq\<lparr>rq_method := s\<rparr>) rq
        else if equal_fold k ''params'' then Some (rq\<lparr>rq_params := Some v\<rparr>)
        else if equal_fold k ''id'' then Some (rq\<lparr>rq_id := any_of_json v\<rparr>)
        else if equal_fold k ''_session_id_'' then Some (rq\<lparr>rq_session := Some v\<rparr>)
        else Some rq)"

definition decode_request :: "json \<Rightarrow> request option" where
  "decode_request j =
     (case j of
        JObj ms \<Rightarrow> fold (\<lambda>e acc. Option.bind acc (request_member e)) ms (Some empty_request)
      | JNull \<Rightarrow> Some empty_request
      | _ \<Rightarrow> None)"

definition request_params :: "request \<Rightarrow> val_map" where
  "request_params rq =
     (case rq_params rq of
        Some (JObj ms) \<Rightarrow> (case any_of_json (JObj ms) of GMap m \<Rightarrow> m | _ \<Rightarrow> [])
      | Some (JArr vs) \<Rightarrow> [(''args'', any_of_json (JArr vs))]
      | _ \<Rightarrow> [])"

section \<open>Sessions of requests\<close>

text \<open>A session id may itself be the text of an object, with single quotes.\<close>

definition parse_stringified :: "server \<Rightarrow> string \<Rightarrow> string" where
  "parse_stringified S s =
     (case s of
        [] \<Rightarrow> s
      | c # _ \<Rightarrow>
          if c \<noteq> CHR ''{'' then s
          else (case read_json S (map (\<lambda>c. if c = CHR 0x27 then CHR 0x22 else c) s) of
                  Some (JObj ms) \<Rightarrow>
                    (case entry_of (members_map (map (\<lambda>(k, v). (k, any_of_json v)) ms)) ''_session_id_'' of
                       GStr t \<Rightarrow> t | _ \<Rightarrow> s)
                | _ \<Rightarrow> s))"

definition id_of_value :: "server \<Rightarrow> gov \<Rightarrow> string" where
  "id_of_value S v =
     (case v of
        GStr s \<Rightarrow> parse_stringified S s
      | GMap m \<Rightarrow> (case entry_of m ''_session_id_'' of GStr s \<Rightarrow> parse_stringified S s | _ \<Rightarrow> [])
      | _ \<Rightarrow> [])"

definition decode_session_id :: "server \<Rightarrow> json option \<Rightarrow> string" where
  "decode_session_id S v = (case v of None \<Rightarrow> [] | Some j \<Rightarrow> id_of_value S (any_of_json j))"

definition extract_session_id :: "server \<Rightarrow> request \<Rightarrow> string" where
  "extract_session_id S rq =
     (let i = decode_session_id S (rq_session rq)
      in if i \<noteq> [] then i else id_of_value S (entry_of (request_params rq) ''_session_id_''))"

definition check_session :: "server \<Rightarrow> string \<Rightarrow> hub \<Rightarrow> bool \<times> hub" where
  "check_session S i h =
     (case validate i (now_ns (eng (handlers S))) (accounts h) of (ok, m) \<Rightarrow> (ok, h\<lparr>accounts := m\<rparr>))"

definition authorize :: "server \<Rightarrow> request \<Rightarrow> hub \<Rightarrow> api_error option \<times> hub" where
  "authorize S rq h =
     (if \<not> m_enabled (accounts h) then (None, h)
      else (case check_session S (extract_session_id S rq) h of
        (valid, h1) \<Rightarrow>
          (if \<not> ccu_model S then
             (if rq_method rq \<in> set public_methods \<or> valid then None else Some session_refused)
           else (let required = fst (meta_for (rq_method rq)); have_level = (if valid then level_admin else level_none)
                 in if required = ''NONE'' \<or> level_value required \<le> have_level then None
                    else Some (err_access_denied required (format_int have_level))), h1)))"

section \<open>Answers\<close>

definition success_response :: "gov \<Rightarrow> gov \<Rightarrow> gov" where
  "success_response i v = GMap [(''jsonrpc'', GStr ''1.1''), (''result'', v), (''error'', GNil), (''id'', i)]"

definition error_response :: "gov \<Rightarrow> api_error \<Rightarrow> gov" where
  "error_response i e = GMap [(''jsonrpc'', GStr ''1.1''), (''result'', GNil), (''error'', marshal_dict e), (''id'', i)]"

definition with_id :: "gov \<Rightarrow> (string \<times> gov) list" where
  "with_id i = (if i = GNil then [] else [(''id'', i)])"

definition ccu_success_response :: "gov \<Rightarrow> gov \<Rightarrow> gov" where
  "ccu_success_response i v =
     GMap ([(''version'', GStr ''1.1''), (''result'', v), (''error'', GNil)] @ with_id i)"

definition ccu_error_response :: "gov \<Rightarrow> api_error \<Rightarrow> gov" where
  "ccu_error_response i e =
     GMap ([(''version'', GStr ''1.1''), (''result'', GNil), (''error'', marshal_ccu e)] @ with_id i)"

definition succeed :: "server \<Rightarrow> gov \<Rightarrow> gov \<Rightarrow> gov" where
  "succeed S i v = (if ccu_model S then ccu_success_response i v else success_response i v)"

definition fail :: "server \<Rightarrow> gov \<Rightarrow> api_error \<Rightarrow> gov" where
  "fail S i e = (if ccu_model S then ccu_error_response i e else error_response i e)"

section \<open>One request\<close>

text \<open>The checks before anything runs: the version, the method's name.\<close>

definition malformed :: "server \<Rightarrow> request \<Rightarrow> api_error option" where
  "malformed S rq =
     (if rq_version rq \<noteq> ''1.1'' \<and> rq_version rq \<noteq> ''2.0'' \<and> \<not> (ccu_model S \<and> rq_version rq = [])
      then Some (err_invalid ''Invalid JSON-RPC version'')
      else if rq_method rq = [] then Some (err_invalid ''Method must be a non-empty string'')
      else None)"

definition dispatch :: "server \<Rightarrow> request \<Rightarrow> hub \<Rightarrow> gov option \<times> hub" where
  "dispatch S rq h =
     (case map_of api_methods (rq_method rq) of
        None \<Rightarrow> (Some (fail S (rq_id rq) (err_method (rq_method rq))), h)
      | Some f \<Rightarrow>
          (case f (handlers S) (request_params rq) h of
             (res, h1) \<Rightarrow>
               (if rq_id rq = GNil then None
                else Some (case res of Inl e \<Rightarrow> fail S (rq_id rq) e | Inr v \<Rightarrow> succeed S (rq_id rq) v), h1)))"

definition run_request :: "server \<Rightarrow> request \<Rightarrow> hub \<Rightarrow> gov option \<times> hub" where
  "run_request S rq h =
     (case malformed S rq of
        Some e \<Rightarrow> (Some (fail S (rq_id rq) e), h)
      | None \<Rightarrow>
          (case authorize S rq h of
             (Some e, h1) \<Rightarrow> (Some (fail S (rq_id rq) e), h1)
           | (None, h1) \<Rightarrow> dispatch S rq h1))"

text \<open>\<open>processOne\<close>, on a value that was read; nothing for a notification.\<close>

definition process_one :: "server \<Rightarrow> string \<Rightarrow> json \<Rightarrow> hub \<Rightarrow> gov option \<times> hub" where
  "process_one S raw j h =
     (case decode_request j of
        None \<Rightarrow> (Some (fail S GNil (err_parse (json_error S raw (Some j)))), h)
      | Some rq \<Rightarrow> run_request S rq h)"

section \<open>The endpoint\<close>

datatype reply =
    JsonReply int gov
  | TextReply int string
  | NoContent
  | Redirect string
  | XmlReply gov
  | Download string "8 word list"

definition http_error :: "int \<Rightarrow> string \<Rightarrow> reply" where
  "http_error code t = TextReply code (t @ [CHR 0x0A])"

definition request_limit :: nat where "request_limit = 4 * 1024 * 1024"

text \<open>A batch: the requests one after the other, the answers of those that have one.\<close>

fun process_batch :: "server \<Rightarrow> string \<Rightarrow> json list \<Rightarrow> hub \<Rightarrow> gov list \<times> hub" where
  "process_batch S raw [] h = ([], h)"
| "process_batch S raw (j # js) h =
     (case process_one S raw j h of
        (ans, h1) \<Rightarrow>
          (case process_batch S raw js h1 of
             (rest, h2) \<Rightarrow> ((case ans of Some v \<Rightarrow> v # rest | None \<Rightarrow> rest), h2)))"

definition reply_of :: "gov option \<Rightarrow> reply" where
  "reply_of ans = (case ans of None \<Rightarrow> NoContent | Some v \<Rightarrow> JsonReply 200 v)"

definition post_jsonrpc :: "server \<Rightarrow> string \<Rightarrow> hub \<Rightarrow> reply \<times> hub" where
  "post_jsonrpc S body h =
     (if request_limit < length body then (JsonReply 200 (error_response GNil (err_parse (json_error S body None))), h)
      else (let t = trim_space body in
        case read_json S t of
          None \<Rightarrow>
            (JsonReply 200 (if prefix ''['' t then error_response GNil (err_parse (json_error S t None))
                            else fail S GNil (err_parse (json_error S t None))), h)
        | Some (JArr js) \<Rightarrow>
            (if js = [] then (JsonReply 200 (error_response GNil (err_invalid ''Empty batch request'')), h)
             else (case process_batch S t js h of
                     (answers, h1) \<Rightarrow> (if answers = [] then NoContent else JsonReply 200 (GList answers), h1)))
        | Some j \<Rightarrow> (case process_one S t j h of (ans, h1) \<Rightarrow> (reply_of ans, h1))))"

definition handle_jsonrpc :: "server \<Rightarrow> string \<Rightarrow> string \<Rightarrow> hub \<Rightarrow> reply \<times> hub" where
  "handle_jsonrpc S verb body h =
     (if \<not> ready S then (http_error 503 ''service not available'', h)
      else if verb = ''POST'' then post_jsonrpc S body h
      else if verb = ''GET'' then
        (JsonReply 405 (GMap [(''error'', GStr ''Use POST to call JSON-RPC methods''),
           (''endpoint'', GStr ''/api/homematic.cgi'')]), h)
      else (http_error 405 ''method not allowed'', h))"

definition handle_check_rega :: "server \<Rightarrow> reply" where
  "handle_check_rega S = TextReply 200 (if ready S then ''OK'' else ''ReGaHss not ready'')"

section \<open>Plain endpoints\<close>

record http_request =
  hq_path :: string
  hq_verb :: string
  hq_body :: string
  hq_sid :: string
  hq_user :: string
  hq_password :: string
  hq_bearer :: "string option"
  hq_tls :: bool
  hq_host :: string
  hq_uri :: string

text \<open>The session of a download is in the query.\<close>

definition query_session :: "server \<Rightarrow> http_request \<Rightarrow> hub \<Rightarrow> bool \<times> hub" where
  "query_session S q h = (if \<not> m_enabled (accounts h) then (True, h) else check_session S (hq_sid q) h)"

definition serve_archive :: "server \<Rightarrow> hub \<Rightarrow> reply \<times> hub" where
  "serve_archive S h =
     (let G = eng (handlers S) in
      case on_mgr (poll_backup (now_ns G) (backup_stamp G)) h of
        (st, h1) \<Rightarrow>
          (if bs_status st \<noteq> Completed then (http_error 404 ''No backup available'', h1)
           else (case on_mgr (read_backup_data (now_ns G) (backup_stamp G)) h1 of
                   (bytes, h2) \<Rightarrow> (Download (bs_filename st) bytes, h2))))"

definition handle_backup_download :: "server \<Rightarrow> http_request \<Rightarrow> hub \<Rightarrow> reply \<times> hub" where
  "handle_backup_download S q h =
     (case query_session S q h of
        (ok, h1) \<Rightarrow> if \<not> ok then (http_error 401 ''Unauthorized'', h1) else serve_archive S h1)"

definition handle_maintenance :: "server \<Rightarrow> http_request \<Rightarrow> hub \<Rightarrow> reply \<times> hub" where
  "handle_maintenance S q h =
     (case query_session S q h of
        (ok, h1) \<Rightarrow>
          if \<not> ok then (JsonReply 401 (GMap [(''error'', GStr ''Unauthorized'')]), h1)
          else (let action = (case Option.bind (read_json S (take request_limit (hq_body q))) (\<lambda>j. any_map (any_of_json j)) of
                                Some m \<Rightarrow> text_of m ''action'' | None \<Rightarrow> []); u = update (manager_of h1) in
            if action = ''checkUpdate'' then
              (JsonReply 200 (GMap [(''currentFirmware'', GStr (ui_current u)),
                 (''availableFirmware'', GStr (ui_available u)), (''updateAvailable'', GBool (ui_pending u))]), h1)
            else if action = ''triggerUpdate'' then
              (case on_mgr trigger_update h1 of (b, h2) \<Rightarrow> (JsonReply 200 (success b), h2))
            else (JsonReply 400 (GMap [(''error'', GStr ''Unknown action'')]), h1)))"

definition handle_version :: "hub \<Rightarrow> reply" where
  "handle_version h =
     (let i = info (manager_of h) in
      TextReply 200 (''VERSION='' @ bi_version i @ [CHR 0x0A] @ ''PRODUCT='' @ bi_product i @ [CHR 0x0A]))"

text \<open>The login of the backup tools: form values, or a JSON object of strings where both are empty.\<close>

definition login_member :: "string \<times> json \<Rightarrow> (string \<times> gov) option" where
  "login_member e = (case snd e of JStr s \<Rightarrow> Some (fst e, GStr s) | JNull \<Rightarrow> Some (fst e, GStr []) | _ \<Rightarrow> None)"

definition posted_credentials :: "server \<Rightarrow> http_request \<Rightarrow> string \<times> string" where
  "posted_credentials S q =
     (if hq_user q \<noteq> [] \<or> hq_password q \<noteq> [] then (hq_user q, hq_password q)
      else (case read_json S (take request_limit (hq_body q)) of
              Some (JObj ms) \<Rightarrow>
                (if list_all (\<lambda>e. login_member e \<noteq> None) ms
                 then (let m = members_map (List.map_filter login_member ms) in (text_of m ''username'', text_of m ''password''))
                 else ([], []))
            | _ \<Rightarrow> ([], [])))"

definition handle_backup_login :: "server \<Rightarrow> http_request \<Rightarrow> hub \<Rightarrow> reply \<times> hub" where
  "handle_backup_login S q h =
     (case posted_credentials S q of
        (u, p) \<Rightarrow>
          (case login u p (token_bytes (handlers S)) (now_ns (eng (handlers S))) (accounts h) of
             (i, m) \<Rightarrow> (if i = [] then http_error 401 ''Unauthorized'' else TextReply 200 i, h\<lparr>accounts := m\<rparr>)))"

definition handle_backup_version :: "hub \<Rightarrow> reply" where
  "handle_backup_version h = TextReply 200 (bi_version (info (manager_of h)))"

definition backup_authorized :: "server \<Rightarrow> http_request \<Rightarrow> hub \<Rightarrow> bool \<times> hub" where
  "backup_authorized S q h =
     (if \<not> m_enabled (accounts h) then (True, h)
      else (let (ok, h1) = (if hq_sid q \<noteq> [] then check_session S (hq_sid q) h else (False, h))
            in if ok then (True, h1)
               else (case hq_bearer q of None \<Rightarrow> (False, h1) | Some i \<Rightarrow> check_session S i h1)))"

definition handle_backup_run_script :: "server \<Rightarrow> http_request \<Rightarrow> hub \<Rightarrow> reply \<times> hub" where
  "handle_backup_run_script S q h =
     (case backup_authorized S q h of
        (ok, h1) \<Rightarrow>
          if \<not> ok then (http_error 401 ''Unauthorized'', h1)
          else if \<not> engine_on (handlers S) then (http_error 501 ''No script engine'', h1)
          else (case execute_script (eng (handlers S)) (take request_limit (hq_body q)) (backend h1) of
                  (t, w) \<Rightarrow> (TextReply 200 t, h1\<lparr>backend := w\<rparr>)))"

definition handle_backup_tarfile :: "server \<Rightarrow> http_request \<Rightarrow> hub \<Rightarrow> reply \<times> hub" where
  "handle_backup_tarfile S q h =
     (case backup_authorized S q h of
        (ok, h1) \<Rightarrow> if \<not> ok then (http_error 401 ''Unauthorized'', h1) else serve_archive S h1)"

text \<open>The device description: the values of its elements.\<close>

definition upnp_uuid :: "string \<Rightarrow> string" where
  "upnp_uuid serial = ''30303030-3030-3030-3030-'' @ take 12 (serial @ replicate (12 - length serial) (CHR ''0''))"

definition upnp_description :: "hub \<Rightarrow> gov" where
  "upnp_description h =
     (let i = info (manager_of h); serial = mg_serial (manager_of h) in
      GMap [(''major'', GInt 1), (''minor'', GInt 0), (''deviceType'', GStr ''urn:schemas-upnp-org:device:Basic:1''),
        (''friendlyName'', GStr (bi_hostname i)), (''manufacturer'', GStr ''eQ-3''),
        (''manufacturerURL'', GStr ''https://www.eq-3.de''), (''modelDescription'', GStr (bi_product i)),
        (''modelName'', GStr (bi_product i)), (''modelNumber'', GStr (bi_version i)), (''serialNumber'', GStr serial),
        (''UDN'', GStr (''uuid:'' @ upnp_uuid serial)), (''presentationURL'', GStr ''/'')])"

section \<open>Routes\<close>

text \<open>An HTTP request by its path. The description for UPnP, XML in the source, is given as its elements.\<close>

definition route :: "server \<Rightarrow> http_request \<Rightarrow> hub \<Rightarrow> reply \<times> hub" where
  "route S q h =
     (let p = hq_path q in
      if p = ''/api/homematic.cgi'' then handle_jsonrpc S (hq_verb q) (hq_body q) h
      else if p = ''/config/cp_security.cgi'' then handle_backup_download S q h
      else if p = ''/config/cp_maintenance.cgi'' then handle_maintenance S q h
      else if p = ''/VERSION'' then (handle_version h, h)
      else if p = ''/ise/checkrega.cgi'' then (handle_check_rega S, h)
      else if backup_api S \<and> p = ''/api/backup/login.cgi'' then handle_backup_login S q h
      else if backup_api S \<and> p = ''/api/backup/version.cgi'' then (handle_backup_version h, h)
      else if backup_api S \<and> p = ''/api/backup/run-script.cgi'' then handle_backup_run_script S q h
      else if backup_api S \<and> p = ''/api/backup/tarfile.cgi'' then handle_backup_tarfile S q h
      else if upnp_on S \<and> p = ''/upnp/basic_dev.cgi'' then (XmlReply (upnp_description h), h)
      else (http_error 404 ''404 page not found'', h))"

text \<open>The plain listener sends a client to its HTTPS twin, if that is set up. \<open>hq_host\<close> is the host of the request without
  its port, in brackets where it is an address of version 6.\<close>

definition serve_http :: "server \<Rightarrow> http_request \<Rightarrow> hub \<Rightarrow> reply \<times> hub" where
  "serve_http S q h =
     (if redirect_port S = 0 \<or> hq_tls q \<or> hq_path q = ''/VERSION'' \<or> hq_path q = ''/ise/checkrega.cgi'' then route S q h
      else (Redirect (''https://'' @ hq_host q @ '':'' @ format_int (redirect_port S) @ hq_uri q), h))"

end
