(* ===== verification/Rega_Engine_Props.thy ===== *)
theory Rega_Engine_Props
  imports Rega_Engine
begin

text \<open>
  What is proved of the script engine: the matcher reports the leftmost match there is, with groups that are parts of the
  text; and a script, whatever it holds, acts on the state at most once, as one operation of the manager, and never on
  the devices.
\<close>

section \<open>The matcher\<close>

text \<open>A found match starts where it says, and nothing matches further left.\<close>

lemma find_from_some:
  "find_from r u v = Some (p, q, gs) \<Longrightarrow>
     (q, gs) \<in> set (ends r p) \<and> (\<exists>t. reads t (u, v) p \<and>
       (\<forall>t' p'. reads t' (u, v) p' \<and> length t' < length t \<longrightarrow> (\<forall>q'. \<not> spans r p' q')))"
proof (induction r u v rule: find_from.induct)
  case (1 r u)
  then show ?case by (auto split: list.splits intro: exI [of _ "[]"])
next
  case (2 r u c v)
  show ?case
  proof (cases "ends r (u, c # v)")
    case Nil
    with 2 obtain t where t: "(q, gs) \<in> set (ends r p)" "reads t (c # u, v) p"
      and left: "\<And>t' p' q'. reads t' (c # u, v) p' \<Longrightarrow> length t' < length t \<Longrightarrow> \<not> spans r p' q'"
      by auto
    have "\<not> spans r p' q'" if "reads t' (u, c # v) p'" "length t' < length (c # t)" for t' p' q'
    proof (cases t')
      case Nil
      then show ?thesis using that \<open>ends r (u, c # v) = []\<close> ends_none [of r "(u, c # v)"] by (simp del: split_paired_All)
    qed (use that left in \<open>auto simp: reads_cons\<close>)
    with t show ?thesis by (intro conjI exI [of _ "c # t"]) (auto simp: reads_cons)
  next
    case (Cons e es)
    with 2 show ?thesis by (cases e) (auto intro: exI [of _ "[]"])
  qed
qed

lemma reads_text: "reads t (u, v) q \<Longrightarrow> v = t @ snd q \<and> q = (rev t @ u, snd q)"
  by (auto simp: reads_def advance_def prefix_def)

lemma spans_text: "spans r (u, v) q \<Longrightarrow> \<exists>t. v = t @ snd q \<and> q = (rev t @ u, snd q)"
proof (induction r arbitrary: u v q)
  case (Many P)
  then show ?case using reads_text [of _ u v q] by (auto simp del: split_paired_All split_paired_Ex)
next
  case (One P)
  then obtain c where "reads [c] (u, v) q" by auto
  from reads_text [OF this] show ?case by blast
next
  case (Then r s)
  then obtain m where "spans r (u, v) m" "spans s m q" by auto
  with Then.IH(1) obtain t where "v = t @ snd m" "m = (rev t @ u, snd m)" by blast
  with Then.IH(2) [of "rev t @ u" "snd m" q] \<open>spans s m q\<close> obtain t' where "snd m = t' @ snd q" "q = (rev t' @ rev t @ u, snd q)"
    by metis
  with \<open>v = t @ snd m\<close> show ?case by (intro exI [of _ "t @ t'"]) simp
qed (auto split: if_splits)

text \<open>Every group is a part of the text.\<close>

lemma groups_within: "(q, gs) \<in> set (ends r (u, v)) \<Longrightarrow> (n, t) \<in> set gs \<Longrightarrow> sublist t v"
proof (induction r arbitrary: u v q gs n t)
  case (Group k r)
  then show ?case by (auto simp: between_def intro: prefix_imp_sublist take_is_prefix)
next
  case (Then r s)
  then obtain m hs ks where m: "(m, hs) \<in> set (ends r (u, v))" and ks: "(q, ks) \<in> set (ends s m)" and gs: "gs = hs @ ks"
    by auto
  have "spans r (u, v) m" using m ends_spans [of m r "(u, v)"] by (force simp: image_iff)
  then obtain w where w: "v = w @ snd m" by (metis spans_text)
  show ?case
  proof (cases "(n, t) \<in> set hs")
    case True
    then show ?thesis using Then.IH(1) m by blast
  next
    case False
    then have "sublist t (snd m)" using Then.IH(2) [of q ks "fst m" "snd m"] ks gs Then.prems by auto
    then show ?thesis unfolding w by (rule sublist_order.order.trans) (rule sublist_append_leftI)
  qed
qed (auto split: list.splits if_splits prod.splits)

text \<open>\<open>FindStringSubmatch\<close>: no match is reported exactly when no part of the text matches the expression; a
  reported match is one, no match starts further left, and its groups are parts of the text.\<close>

lemma submatch_leftmost:
  "(find_from r [] s = None \<longleftrightarrow> (\<nexists>t p q. reads t ([], s) p \<and> spans r p q)) \<and>
   (\<forall>p q gs. find_from r [] s = Some (p, q, gs) \<longrightarrow>
      spans r p q \<and> (\<forall>(n, t) \<in> set gs. sublist t s) \<and>
      (\<exists>t. reads t ([], s) p \<and> (\<forall>t' p'. reads t' ([], s) p' \<and> length t' < length t \<longrightarrow> (\<forall>q'. \<not> spans r p' q'))))"
proof (intro conjI allI impI)
  show "find_from r [] s = None \<longleftrightarrow> (\<nexists>t p q. reads t ([], s) p \<and> spans r p q)"
    using find_from_none [of r "[]" s] by blast
  fix p q gs
  assume "find_from r [] s = Some (p, q, gs)"
  note found = find_from_some [OF this]
  then have e: "(q, gs) \<in> set (ends r p)" by blast
  then show "spans r p q" using ends_spans [of q r p] by (force simp: image_iff)
  from found obtain t where "reads t ([], s) p" by blast
  then have "suffix (snd p) s" by (metis reads_text suffixI)
  then show "\<forall>(n, t) \<in> set gs. sublist t s"
    using groups_within [of q gs r "fst p" "snd p"] e
    by (auto intro: sublist_order.order.trans [OF _ suffix_imp_sublist])
  show "\<exists>t. reads t ([], s) p \<and> (\<forall>t' p'. reads t' ([], s) p' \<and> length t' < length t \<longrightarrow> (\<forall>q'. \<not> spans r p' q'))"
    using found by blast
qed

section \<open>Scripts and the manager\<close>

text \<open>The operations of the manager a script can be.\<close>

fun script_action :: "gov manager_op \<Rightarrow> bool" where
  "script_action (AcceptInboxDevice a) = True"
| "script_action (ClearServiceMessage i) = True"
| "script_action (SetProgramActive i b) = True"
| "script_action (SetSysvar n v t) = True"
| "script_action (StartBackup r t) = True"
| "script_action (PollBackup t st) = True"
| "script_action TriggerUpdate = True"
| "script_action x = False"

definition acts_once :: "rworld \<Rightarrow> rworld \<Rightarrow> bool" where
  "acts_once w w' \<longleftrightarrow> sim w' = sim w \<and>
     (w' = w \<or> (\<exists>x. script_action x \<and> mgr w' = manager_step x (mgr w)))"

lemma acts_once_refl [simp]: "acts_once w w"
  by (simp add: acts_once_def)

lemma acts_once_with_mgr:
  "snd (f (mgr w)) = manager_step x (mgr w) \<Longrightarrow> script_action x \<Longrightarrow> acts_once w (snd (with_mgr f w))"
  by (cases "f (mgr w)") (auto simp: acts_once_def with_mgr_def)

lemma acts_once_set_variable: "acts_once w (snd (set_variable t n v w))"
proof -
  have "mgr (snd (set_variable t n v w)) = manager_step (SetSysvar n v (stamp t)) (mgr w)"
    by (simp add: set_variable_def split: prod.split)
  then show ?thesis unfolding acts_once_def
    by (intro conjI disjI2 exI [of _ "SetSysvar n v (stamp t)"]) (simp_all add: set_variable_def split: prod.split)
qed

lemmas reading_handlers =
  handle_backend_info_def handle_get_serial_def handle_get_programs_def handle_get_sysvars_def
  handle_get_sysvar_descriptions_def handle_get_alarm_messages_def handle_get_service_messages_def handle_get_inbox_def
  handle_update_info_def handle_get_program_descriptions_def handle_get_rooms_def handle_get_functions_def

lemma reading_keeps [simp]: "snd (reading f G script w) = w"
  by (simp add: reading_def)

lemma accept_acts: "acts_once w (snd (handle_accept_inbox_device G script w))"
  using acts_once_with_mgr [of "accept_inbox_device a" w "AcceptInboxDevice a" for a]
  by (simp add: handle_accept_inbox_device_def split: option.split prod.split) (metis snd_conv)

lemma acknowledge_acts: "acts_once w (snd (handle_acknowledge_message G script w))"
  using acts_once_with_mgr [of "clear_service_message i" w "ClearServiceMessage i" for i]
  by (simp add: handle_acknowledge_message_def split: option.split prod.split) (metis snd_conv)

lemma program_acts: "acts_once w (snd (handle_set_program_state G script w))"
  using acts_once_with_mgr [of "set_program_active i b" w "SetProgramActive i b" for i b]
  by (simp add: handle_set_program_state_def split: option.split prod.split) (metis snd_conv)

lemma sysvar_acts: "acts_once w (snd (handle_set_sysvar G script w))"
  using acts_once_set_variable [of w "clock_at G"]
  by (simp add: handle_set_sysvar_def set_sysvar_inline_def split: option.split prod.split) (metis snd_conv)

lemma backup_start_acts: "acts_once w (snd (handle_backup_start G script w))"
  using acts_once_with_mgr [of "start_backup (entropy G) (now_ns G)" w "StartBackup (entropy G) (now_ns G)"]
  by (simp add: handle_backup_start_def split: prod.split) (metis snd_conv)

lemma backup_status_acts: "acts_once w (snd (handle_backup_status G script w))"
  using acts_once_with_mgr [of "poll_backup (now_ns G) (backup_stamp G)" w "PollBackup (now_ns G) (backup_stamp G)"]
  by (simp add: handle_backup_status_def split: prod.split) (metis snd_conv)

lemma trigger_acts: "acts_once w (snd (handle_trigger_update G script w))"
  using acts_once_with_mgr [of trigger_update w TriggerUpdate]
  by (simp add: handle_trigger_update_def split: prod.split) (metis snd_conv)

lemmas handler_acts = accept_acts acknowledge_acts program_acts sysvar_acts backup_start_acts backup_status_acts trigger_acts

lemma list_handler_keeps [simp]:
  "snd (handle_fetch_device_data G script w) = w" "snd (handle_write G script w) = w"
  by (simp_all add: handle_fetch_device_data_def handle_write_def)

lemma named_acts: "(n, h) \<in> set by_name \<Longrightarrow> acts_once w (snd (h G script w))"
  by (auto simp: by_name_def reading_handlers handler_acts)

lemma pattern_acts: "(re, h) \<in> set patterns \<Longrightarrow> acts_once w (snd (h G script w))"
  by (auto simp: patterns_def reading_handlers handler_acts)

lemma execute_acts: "acts_once w (snd (execute_script G script w))"
proof -
  have "acts_once w (snd (h G script w))" if "named_handler script = Some h" for h
    using that named_acts by (auto simp: named_handler_def bind_eq_Some_conv dest!: map_of_SomeD)
  moreover have "acts_once w (snd (h G script w))" if "pattern_handler script = Some h" for h
    using that pattern_acts by (auto simp: pattern_handler_def find_Some_iff) (metis nth_mem)
  ultimately show ?thesis by (simp add: execute_script_def split: option.split)
qed

text \<open>A script whose name begins with get or fetch only reads.\<close>

lemma get_script_reads:
  assumes "find_submatch re_script_name script = Some gs"
    and "prefix ''get_'' (to_lower (group_text gs 1)) \<or> prefix ''fetch_'' (to_lower (group_text gs 1))"
    and "to_lower (group_text gs 1) \<in> fst ` set by_name"
  shows "snd (execute_script G script w) = w"
proof -
  obtain h where h: "map_of by_name (to_lower (group_text gs 1)) = Some h"
    using assms(3) by (metis weak_map_of_SomeI imageE prod.collapse map_of_SomeD)
  have "snd (h G script w) = w"
    using map_of_SomeD [OF h] assms(2) by (auto simp: by_name_def reading_handlers)
  then show ?thesis using assms(1) h by (simp add: execute_script_def named_handler_def)
qed

text \<open>C37. Whatever a script holds, executing it leaves the devices alone and acts on the manager at most once, as one
  of seven of its operations, so that a reachable manager stays reachable; and a script named after a query changes
  nothing at all.\<close>

theorem script_acts_once:
  "(case execute_script G script w of (t, w') \<Rightarrow>
      sim w' = sim w \<and> (w' = w \<or> (\<exists>x. script_action x \<and> mgr w' = manager_step x (mgr w))) \<and>
      (manager_reachable (mgr w) \<longrightarrow> manager_reachable (mgr w'))) \<and>
   (\<forall>gs. find_submatch re_script_name script = Some gs \<and> to_lower (group_text gs 1) \<in> fst ` set by_name \<and>
      (prefix ''get_'' (to_lower (group_text gs 1)) \<or> prefix ''fetch_'' (to_lower (group_text gs 1))) \<longrightarrow>
      snd (execute_script G script w) = w)"
proof (intro conjI)
  show "case execute_script G script w of (t, w') \<Rightarrow>
      sim w' = sim w \<and> (w' = w \<or> (\<exists>x. script_action x \<and> mgr w' = manager_step x (mgr w))) \<and>
      (manager_reachable (mgr w) \<longrightarrow> manager_reachable (mgr w'))"
    using execute_acts [of w G script] manager_reachable.step by (force simp: acts_once_def split: prod.split)
qed (use get_script_reads in blast)

theorem script_acts_once_witness:
  "\<forall>G w. snd (execute_script G (''!# name: Get_Serial.fn'' @ [CHR 0x0A] @ ''CreateBackup'') w) = w"
proof (intro allI)
  fix G :: engine and w :: rworld
  have f: "find_submatch re_script_name (''!# name: Get_Serial.fn'' @ [CHR 0x0A] @ ''CreateBackup'') = Some [(1, ''Get_Serial.fn'')]"
    by code_simp
  have n: "to_lower (group_text [(1, ''Get_Serial.fn'')] 1) = ''get_serial.fn''" by code_simp
  have "''get_serial.fn'' \<in> fst ` set by_name" by (simp add: by_name_def)
  with f n show "snd (execute_script G (''!# name: Get_Serial.fn'' @ [CHR 0x0A] @ ''CreateBackup'') w) = w"
    by (intro conjunct2 [OF script_acts_once, rule_format, of _ "[(1, ''Get_Serial.fn'')]"]) simp_all
qed

end
