(* ===== verification/Json_Moves.thy ===== *)
theory Json_Moves
  imports Json_Server Rega_Engine_Props Device_Runs
begin

text \<open>
  The web interface on top of the components: whatever a client sends, what happens to the state is a sequence of
  operations of the session manager, of the state manager and of the device simulator. So everything proved of the
  reachable states of these components holds however they are driven over HTTP.
\<close>

section \<open>Sequences of operations\<close>

definition account_moves :: "int \<Rightarrow> session_manager \<Rightarrow> session_manager \<Rightarrow> bool" where
  "account_moves t a a' \<longleftrightarrow> (\<exists>xs. a' = fold (\<lambda>x. apply_op x t) xs a)"

definition manager_moves :: "gov manager \<Rightarrow> gov manager \<Rightarrow> bool" where
  "manager_moves m m' \<longleftrightarrow> (\<exists>xs. m' = fold manager_step xs m)"

text \<open>No call loads devices, so every call is allowed whatever the catalogue.\<close>

fun loads_nothing :: "call \<Rightarrow> bool" where
  "loads_nothing (AddDevices sets) = False"
| "loads_nothing c = True"

definition device_moves :: "golib \<Rightarrow> network \<Rightarrow> rpc option \<Rightarrow> rpc option \<Rightarrow> bool" where
  "device_moves L N s s' \<longleftrightarrow> (\<exists>cs. list_all loads_nothing cs \<and> s' = map_option (fold (apply_call L N) cs) s)"

definition moves :: "api \<Rightarrow> hub \<Rightarrow> hub \<Rightarrow> bool" where
  "moves A h h' \<longleftrightarrow> account_moves (now_ns (eng A)) (accounts h) (accounts h') \<and>
     manager_moves (manager_of h) (manager_of h') \<and> device_moves (go A) (net A) (sim (backend h)) (sim (backend h'))"

lemma account_moves_refl [simp]: "account_moves t a a"
  unfolding account_moves_def by (rule exI [of _ "[]"]) simp

lemma account_moves_one: "account_moves t a (apply_op x t a)"
  unfolding account_moves_def by (rule exI [of _ "[x]"]) simp

lemma account_moves_trans: "account_moves t a b \<Longrightarrow> account_moves t b c \<Longrightarrow> account_moves t a c"
  unfolding account_moves_def by (metis fold_append comp_apply)

lemma manager_moves_refl [simp]: "manager_moves m m"
  unfolding manager_moves_def by (rule exI [of _ "[]"]) simp

lemma manager_moves_one: "manager_moves m (manager_step x m)"
  unfolding manager_moves_def by (rule exI [of _ "[x]"]) simp

lemma manager_moves_trans: "manager_moves a b \<Longrightarrow> manager_moves b c \<Longrightarrow> manager_moves a c"
  unfolding manager_moves_def by (metis fold_append comp_apply)

lemma device_moves_refl [simp]: "device_moves L N s s"
  unfolding device_moves_def by (rule exI [of _ "[]"]) (simp add: option.map_id)

lemma device_moves_one: "loads_nothing c \<Longrightarrow> device_moves L N (Some r) (Some (apply_call L N c r))"
  unfolding device_moves_def by (rule exI [of _ "[c]"]) simp

lemma device_moves_trans: "device_moves L N a b \<Longrightarrow> device_moves L N b c \<Longrightarrow> device_moves L N a c"
proof -
  assume "device_moves L N a b" "device_moves L N b c"
  then obtain cs ds where "list_all loads_nothing cs" "b = map_option (fold (apply_call L N) cs) a"
    and "list_all loads_nothing ds" "c = map_option (fold (apply_call L N) ds) b"
    by (auto simp: device_moves_def)
  then show ?thesis unfolding device_moves_def
    by (intro exI [of _ "cs @ ds"]) (simp add: option.map_comp comp_def)
qed

lemma moves_refl [simp, intro]: "moves A h h"
  by (simp add: moves_def)

lemma moves_trans [trans]: "moves A h h1 \<Longrightarrow> moves A h1 h2 \<Longrightarrow> moves A h h2"
  by (auto simp: moves_def intro: account_moves_trans manager_moves_trans device_moves_trans)

section \<open>Single steps\<close>

lemma moves_accounts: "a = apply_op x (now_ns (eng A)) (accounts h) \<Longrightarrow> moves A h (h\<lparr>accounts := a\<rparr>)"
  by (simp add: moves_def account_moves_one manager_of_def)

lemma moves_on_mgr: "snd (f (manager_of h)) = manager_step x (manager_of h) \<Longrightarrow> moves A h (snd (on_mgr f h))"
  by (simp add: moves_def on_mgr_def with_mgr_def manager_of_def manager_moves_one case_prod_unfold)

lemma moves_on_sim:
  assumes "\<And>r. \<exists>c. loads_nothing c \<and> snd (f r) = apply_call (go A) (net A) c r"
  shows "moves A h (snd (on_sim x f h))"
proof (cases "sim (backend h)")
  case (Some r)
  obtain c where "loads_nothing c" "snd (f r) = apply_call (go A) (net A) c r" using assms by blast
  then show ?thesis using Some device_moves_one [of c "go A" "net A" r]
    by (simp add: moves_def on_sim_def set_sim_def manager_of_def case_prod_unfold)
qed (simp add: on_sim_def)

lemma moves_acts_once: "acts_once (backend h) w \<Longrightarrow> moves A h (h\<lparr>backend := w\<rparr>)"
  by (auto simp: moves_def acts_once_def manager_of_def manager_moves_one)

lemma moves_log [simp]: "moves A h (h'\<lparr>write_log := l\<rparr>) = moves A h h'"
  by (simp add: moves_def manager_of_def)

lemma moves_calls [simp]: "moves A h (h'\<lparr>program_calls := l\<rparr>) = moves A h h'"
  by (simp add: moves_def manager_of_def)

lemma moves_set_sim:
  "sim (backend h) = Some r \<Longrightarrow> loads_nothing c \<Longrightarrow> moves A h (set_sim (apply_call (go A) (net A) c r) h)"
  by (simp add: moves_def set_sim_def manager_of_def device_moves_one)

lemma moves_answer [simp]:
  "snd (answer_with v h) = h" "snd (refuse e h) = h" "snd (ask_sim x f h) = h" "snd (described a g h) = h"
  by (simp_all add: answer_with_def refuse_def ask_sim_def described_def split: option.split)

section \<open>Every method\<close>

lemma login_moves: "moves A h (snd (session_login A ps h))"
  using moves_accounts [of _ "OpLogin (text_of ps ''username'') (text_of ps ''password'') (token_bytes A)" A h]
  by (simp add: session_login_def split: prod.split) (metis snd_conv)

lemma logout_moves: "moves A h (snd (session_logout A ps h))"
  using moves_accounts [of _ "OpLogout (text_of ps ''_session_id_'')" A h]
  by (simp add: session_logout_def split: prod.split) (metis snd_conv)

lemma renew_moves: "moves A h (snd (session_renew A ps h))"
  using moves_accounts [of _ "OpRenew (text_of ps ''_session_id_'') (token_bytes A)" A h]
  by (simp add: session_renew_def split: prod.split) (metis snd_conv)

lemmas reading_methods =
  get_auth_enabled_def get_https_redirect_enabled_def get_serial_def get_ccu_version_def list_methods_def method_help_def
  list_interfaces_def list_devices_def api_device_description_def api_paramset_description_def is_present_def
  get_master_value_def api_ping_def api_rssi_info_def api_bidcos_interfaces_def api_get_link_info_def api_paramset_id_def
  api_suppressed_def device_get_def channel_has_program_ids_def program_get_all_def sysvar_get_all_def
  sysvar_get_value_by_name_def sysvar_get_def sysvar_set_enum_def room_get_all_def room_list_all_def subsection_get_all_def

lemma paramset_moves: "moves A h (snd (api_get_paramset A ps h))"
proof -
  have "moves A h (snd (on_sim x (\<lambda>r. case get_paramset (go A) a k r of (res, r1) \<Rightarrow> (f res, r1)) h))" for x a k and f :: "_ \<Rightarrow> api_error + gov"
    by (rule moves_on_sim) (rule exI [of _ "GetParamset a k"], simp split: prod.split)
  then show ?thesis by (simp add: api_get_paramset_def)
qed

lemma get_value_moves: "moves A h (snd (api_get_value A ps h))"
proof -
  have "moves A h (snd (on_sim x (\<lambda>r. case get_value (go A) a k r of (res, r1) \<Rightarrow> (f res, r1)) h))" for x a k and f :: "_ \<Rightarrow> api_error + gov"
    by (rule moves_on_sim) (rule exI [of _ "GetValue a k"], simp split: prod.split)
  then show ?thesis by (simp add: api_get_value_def)
qed

lemma client_set_value_moves: "moves A h (snd (client_set_value A a k v h))"
proof (cases "sim (backend h)")
  case (Some r)
  then have "moves A h (set_sim (snd (set_value (go A) (net A) a k v False r)) h)"
    using moves_set_sim [of h r "SetValue a k v False" A] by simp
  then show ?thesis using Some by (simp add: client_set_value_def log_write_def split: prod.split) (metis snd_conv)
qed (simp add: client_set_value_def)

lemma client_put_moves: "moves A h (snd (client_put_paramset A a key vals h))"
proof (cases "sim (backend h)")
  case (Some r)
  then have "moves A h (set_sim (snd (put_paramset_full (go A) (net A) a key vals False r)) h)"
    using moves_set_sim [of h r "PutParamset a key vals False" A] by simp
  then show ?thesis using Some by (simp add: client_put_paramset_def log_write_def split: prod.split) (metis snd_conv)
qed (simp add: client_put_paramset_def)

lemma write_moves: "moves A h (snd (api_set_value A ps h))" "moves A h (snd (api_put_paramset A ps h))"
  by (simp_all add: api_set_value_def api_put_paramset_def client_set_value_moves client_put_moves)

lemma get_install_moves: "moves A h (snd (api_get_install_mode A ps h))"
  unfolding api_get_install_mode_def
  by (rule moves_on_sim) (rule exI [of _ "GetInstallMode (now_ns (eng A))"], simp split: prod.split)

lemma set_install_moves: "moves A h (snd (api_set_install_mode A ps h))"
proof -
  have "moves A h (snd (on_sim x (\<lambda>r. (y, set_install_mode t on d m a r)) h))" for x y :: "api_error + gov" and t on d m a
    by (rule moves_on_sim) (rule exI [of _ "SetInstallMode t on d m a"], simp)
  then show ?thesis by (simp add: api_set_install_mode_def)
qed

lemma init_moves: "moves A h (snd (interface_init A ps h))"
  unfolding interface_init_def
  by (rule moves_on_sim) (rule exI [of _ "Init (text_of ps ''url'') (if text_of ps ''interfaceId'' \<noteq> [] then text_of ps ''interfaceId'' else text_of ps ''interface_id'')"], simp)

lemma set_link_moves: "moves A h (snd (api_set_link_info A ps h))"
proof -
  have "moves A h (snd (on_sim x (\<lambda>r. case set_link_info s t n d r of
      (Inl e, r1) \<Rightarrow> (f e, r1) | (Inr b, r1) \<Rightarrow> (g b, r1)) h))" for x s t n d and f g :: "_ \<Rightarrow> api_error + gov"
    by (rule moves_on_sim) (rule exI [of _ "SetLinkInfo s t n d"], simp split: prod.split sum.split)
  then show ?thesis by (simp add: api_set_link_info_def Let_def)
qed

lemma determine_moves: "moves A h (snd (api_determine_parameter A ps h))"
proof -
  have "moves A h (snd (on_sim x (\<lambda>r. case determine_parameter (go A) (net A) a k p r of
      (Inl e, r1) \<Rightarrow> (f e, r1) | (Inr b, r1) \<Rightarrow> (g b, r1)) h))" for x a k p and f g :: "_ \<Rightarrow> api_error + gov"
    by (rule moves_on_sim) (rule exI [of _ "DetermineParameter a k p"], simp split: prod.split sum.split)
  then show ?thesis by (simp add: api_determine_parameter_def Let_def)
qed

lemma suppress_moves: "moves A h (snd (api_suppress A ps h))"
proof -
  have "moves A h (snd (on_sim x (\<lambda>r. (y, suppress_service_message a p b r)) h))" for x y :: "api_error + gov" and a p b
    by (rule moves_on_sim) (rule exI [of _ "Suppress a p b"], simp)
  then show ?thesis by (simp add: api_suppress_def)
qed

lemma object_id_moves: "moves A h (snd (object_id A a h))"
proof -
  have "moves A h (snd (on_mgr (register_address a) h))"
    by (rule moves_on_mgr [where x = "RegisterAddress a"]) simp
  then show ?thesis by (simp add: object_id_def case_prod_unfold)
qed

lemma channel_record_moves: "moves A h (snd (channel_record A a d h))"
  using object_id_moves moves_trans
  by (simp add: channel_record_def Let_def case_prod_unfold) blast

lemma collect_moves: "moves A h (snd (snd acc)) \<Longrightarrow> moves A h (snd (snd (collect_device A d acc)))"
  using channel_record_moves moves_trans by (auto simp: collect_device_def Let_def case_prod_unfold)

lemma collect_all_moves: "moves A h (snd (snd acc)) \<Longrightarrow> moves A h (snd (snd (fold (collect_device A) ds acc)))"
  by (induction ds arbitrary: acc) (simp_all add: collect_moves)

lemma each_moves: "(\<And>x h. moves A h (snd (f x h))) \<Longrightarrow> moves A h (snd (each f xs h))"
  by (induction xs arbitrary: h) (auto simp: case_prod_unfold intro: moves_trans)

lemma device_record_moves: "moves A h (snd (device_record A channels e h))"
  using object_id_moves by (simp add: device_record_def Let_def case_prod_unfold)

lemma list_all_detail_moves: "moves A h (snd (device_list_all_detail A ps h))"
proof (cases "sim (backend h)")
  case (Some r)
  obtain parents channels h1 where c: "fold (collect_device A) (devices (store r)) ([], [], h) = (parents, channels, h1)"
    by (cases "fold (collect_device A) (devices (store r)) ([], [], h)") auto
  have "moves A h h1" using collect_all_moves [of A h "([], [], h)" "devices (store r)"] by (simp add: c)
  also have "moves A h1 (snd (each (device_record A channels) (iter_order (go A) parents) h1))"
    by (rule each_moves) (rule device_record_moves)
  finally show ?thesis using Some c by (simp add: device_list_all_detail_def case_prod_unfold)
qed (simp add: device_list_all_detail_def)

lemma set_name_moves: "moves A h (snd (set_name A ps h))"
proof -
  have "moves A h (snd (on_mgr (\<lambda>m. (x, set_device_name a n m)) h))" for x :: "api_error + gov" and a n
    by (rule moves_on_mgr [where x = "SetDeviceName a n"]) simp
  then show ?thesis by (simp add: set_name_def Let_def)
qed

lemma manager_moves_backend: "manager_moves (manager_of h) m \<Longrightarrow> moves A h (h\<lparr>backend := (backend h)\<lparr>mgr := m\<rparr>\<rparr>)"
  by (simp add: moves_def manager_of_def)

lemma program_execute_moves: "moves A h (snd (program_execute A ps h))"
proof -
  have "moves A h (h\<lparr>backend := (backend h)\<lparr>mgr := snd (snd (execute_program i t (manager_of h)))\<rparr>\<rparr>)" for i t
    using manager_moves_one [of "manager_of h" "ExecuteProgram i t"] by (intro manager_moves_backend) simp
  then have "moves A h (h\<lparr>backend := (backend h)\<lparr>mgr := snd (snd (execute_program i t (manager_of h)))\<rparr>, program_calls := program_calls h @ l\<rparr>)" for i t l
    using moves_calls [where h' = "h\<lparr>backend := (backend h)\<lparr>mgr := snd (snd (execute_program i t (manager_of h)))\<rparr>\<rparr>" and l = "program_calls h @ l"] by simp
  then show ?thesis by (simp add: program_execute_def case_prod_unfold split: option.split)
qed

lemma program_active_moves: "moves A h (snd (program_set_active A ps h))"
proof -
  have "moves A h (snd (on_mgr (\<lambda>m. case set_program_active i b m of (ok, m1) \<Rightarrow> (f ok, m1)) h))" for i b and f :: "_ \<Rightarrow> api_error + gov"
    by (rule moves_on_mgr [where x = "SetProgramActive i b"]) (simp add: case_prod_unfold)
  then show ?thesis by (simp add: program_set_active_def Let_def split: option.split)
qed

lemma sysvar_set_moves: "moves A h (snd (sysvar_set A ps h))"
  using moves_acts_once [OF acts_once_set_variable] by (simp add: sysvar_set_def Let_def case_prod_unfold)

lemma sysvar_delete_moves: "moves A h (snd (sysvar_delete A ps h))"
proof -
  have "moves A h (snd (on_mgr (\<lambda>m. case delete_system_variable n m of (ok, m1) \<Rightarrow> (f ok, m1)) h))" for n and f :: "_ \<Rightarrow> api_error + gov"
    by (rule moves_on_mgr [where x = "DeleteSysvar n"]) (simp add: case_prod_unfold)
  then show ?thesis by (simp add: sysvar_delete_def Let_def)
qed

lemma sysvar_create_moves: "moves A h (snd (sysvar_create ty A ps h))"
proof -
  have "moves A h (snd (on_mgr (\<lambda>m. (f m, snd (add_system_variable n ty v opts t m))) h))"
    for n v opts t and f :: "_ \<Rightarrow> api_error + gov"
    by (rule moves_on_mgr [where x = "AddSysvar n ty v opts t"]) simp
  then show ?thesis by (simp add: sysvar_create_def Let_def case_prod_unfold)
qed

lemma run_script_moves: "moves A h (snd (rega_run_script A ps h))"
  using moves_acts_once [OF execute_acts] by (simp add: rega_run_script_def Let_def case_prod_unfold)

lemmas method_moves =
  login_moves logout_moves renew_moves paramset_moves get_value_moves write_moves get_install_moves set_install_moves
  init_moves set_link_moves determine_moves suppress_moves list_all_detail_moves set_name_moves program_execute_moves
  program_active_moves sysvar_set_moves sysvar_delete_moves sysvar_create_moves run_script_moves

lemma api_moves: "(n, f) \<in> set api_methods \<Longrightarrow> moves A h (snd (f A ps h))"
  unfolding api_methods_def
  by (auto simp: method_moves) (simp_all add: reading_methods Let_def split: option.split)

section \<open>Every request\<close>

abbreviation server_moves :: "server \<Rightarrow> hub \<Rightarrow> hub \<Rightarrow> bool" where
  "server_moves S \<equiv> moves (handlers S)"

lemma check_session_moves: "server_moves S h (snd (check_session S i h))"
  using moves_accounts [of _ "OpValidate i" "handlers S" h]
  by (simp add: check_session_def case_prod_unfold)

lemma authorize_moves: "server_moves S h (snd (authorize S rq h))"
  using check_session_moves by (simp add: authorize_def case_prod_unfold)

lemma dispatch_moves: "server_moves S h (snd (dispatch S rq h))"
  using api_moves by (auto simp: dispatch_def case_prod_unfold split: option.split dest!: map_of_SomeD)

lemma run_request_moves: "server_moves S h (snd (run_request S rq h))"
proof (cases "malformed S rq")
  case None
  have "server_moves S h (snd (dispatch S rq (snd (authorize S rq h))))"
    using authorize_moves dispatch_moves by (rule moves_trans)
  then show ?thesis using None authorize_moves [of S h rq]
    by (cases "authorize S rq h") (auto simp: run_request_def split: option.split)
qed (simp add: run_request_def)

lemma process_one_moves: "server_moves S h (snd (process_one S raw j h))"
  by (simp add: process_one_def run_request_moves split: option.split)

lemma batch_moves: "server_moves S h (snd (process_batch S raw js h))"
proof (induction js arbitrary: h)
  case (Cons j js)
  have "server_moves S h (snd (process_batch S raw js (snd (process_one S raw j h))))"
    using process_one_moves Cons by (rule moves_trans)
  then show ?case by (simp add: case_prod_unfold)
qed simp

lemma post_moves: "server_moves S h (snd (post_jsonrpc S body h))"
  using batch_moves process_one_moves
  by (simp add: post_jsonrpc_def Let_def case_prod_unfold split: option.split json.split)

lemma query_session_moves: "server_moves S h (snd (query_session S q h))"
  using check_session_moves by (simp add: query_session_def)

lemma poll_moves: "server_moves S h (snd (on_mgr (poll_backup t st) h))"
  by (rule moves_on_mgr [where x = "PollBackup t st"]) simp

lemma read_data_moves: "server_moves S h (snd (on_mgr (read_backup_data t st) h))"
  by (rule moves_on_mgr [where x = "PollBackup t st"]) (simp add: poll_backup_def read_backup_data_def Let_def)

lemma archive_moves: "server_moves S h (snd (serve_archive S h))"
proof -
  let ?t = "now_ns (eng (handlers S))" and ?st = "backup_stamp (eng (handlers S))"
  have "server_moves S h (snd (on_mgr (read_backup_data ?t ?st) (snd (on_mgr (poll_backup ?t ?st) h))))"
    using poll_moves read_data_moves by (rule moves_trans)
  then show ?thesis using poll_moves by (simp add: serve_archive_def Let_def case_prod_unfold)
qed

lemma download_moves: "server_moves S h (snd (handle_backup_download S q h))"
  using moves_trans [OF query_session_moves archive_moves] query_session_moves
  by (simp add: handle_backup_download_def case_prod_unfold)

lemma maintenance_moves: "server_moves S h (snd (handle_maintenance S q h))"
proof -
  have "server_moves S h1 (snd (on_mgr trigger_update h1))" for h1
    by (rule moves_on_mgr [where x = TriggerUpdate]) simp
  then have "server_moves S h (snd (on_mgr trigger_update (snd (query_session S q h))))"
    by (rule moves_trans [OF query_session_moves])
  then show ?thesis using query_session_moves by (simp add: handle_maintenance_def Let_def case_prod_unfold)
qed

lemma backup_login_moves: "server_moves S h (snd (handle_backup_login S q h))"
  using moves_accounts [of _ "OpLogin u p (token_bytes (handlers S))" "handlers S" h for u p]
  by (simp add: handle_backup_login_def case_prod_unfold)

lemma backup_authorized_moves: "server_moves S h (snd (backup_authorized S q h))"
  using check_session_moves moves_trans [OF check_session_moves check_session_moves]
  by (simp add: backup_authorized_def Let_def case_prod_unfold split: option.split)

lemma tarfile_moves: "server_moves S h (snd (handle_backup_tarfile S q h))"
  using moves_trans [OF backup_authorized_moves archive_moves] backup_authorized_moves
  by (simp add: handle_backup_tarfile_def case_prod_unfold)

lemma backup_script_moves: "server_moves S h (snd (handle_backup_run_script S q h))"
  using moves_trans [OF backup_authorized_moves moves_acts_once [OF execute_acts]] backup_authorized_moves
  by (simp add: handle_backup_run_script_def case_prod_unfold)

lemma route_moves: "server_moves S h (snd (route S q h))"
  by (simp add: route_def Let_def handle_jsonrpc_def post_moves download_moves maintenance_moves backup_login_moves
      tarfile_moves backup_script_moves)

lemma serve_moves: "server_moves S h (snd (serve_http S q h))"
  by (simp add: serve_http_def route_moves)

section \<open>Reachable states stay reachable\<close>

lemma account_moves_reachable:
  "account_moves t a a' \<Longrightarrow> session_reachable a t0 \<Longrightarrow> t0 \<le> t \<Longrightarrow> session_reachable a' t0 \<or> session_reachable a' t"
proof -
  have "session_reachable a t1 \<Longrightarrow> t1 \<le> t \<Longrightarrow>
      session_reachable (fold (\<lambda>x. apply_op x t) xs a) t1 \<or> session_reachable (fold (\<lambda>x. apply_op x t) xs a) t" for xs a t1
  proof (induction xs arbitrary: a t1)
    case (Cons x xs)
    then have "session_reachable (apply_op x t a) t" by (blast intro: session_reachable.step)
    from Cons.IH [OF this] show ?case by simp
  qed simp
  then show "account_moves t a a' \<Longrightarrow> session_reachable a t0 \<Longrightarrow> t0 \<le> t \<Longrightarrow> ?thesis"
    by (auto simp: account_moves_def)
qed

lemma session_clock: "session_reachable a t0 \<Longrightarrow> t0 \<le> t \<Longrightarrow> session_reachable (set_auth_enabled (m_enabled a) a) t"
  using session_reachable.step [of a t0 t "OpSetAuth (m_enabled a)"] by simp

lemma session_later: "session_reachable a t0 \<Longrightarrow> t0 \<le> t \<Longrightarrow> session_reachable a t"
  using session_clock [of a t0 t] by (simp add: set_auth_enabled_def)

lemma manager_moves_reachable: "manager_moves m m' \<Longrightarrow> manager_reachable m \<Longrightarrow> manager_reachable m'"
proof -
  have "manager_reachable m \<Longrightarrow> manager_reachable (fold manager_step xs m)" for xs
    by (induction xs arbitrary: m) (auto intro: manager_reachable.step)
  then show "manager_moves m m' \<Longrightarrow> manager_reachable m \<Longrightarrow> manager_reachable m'" by (auto simp: manager_moves_def)
qed

lemma loads_nothing_allowed: "loads_nothing c \<Longrightarrow> allowed C c"
  by (cases c) (simp_all add: allowed_def)

lemma calls_simulated:
  "list_all loads_nothing cs \<Longrightarrow> simulated C L N r \<Longrightarrow> simulated C L N (fold (apply_call L N) cs r)"
  by (induction cs arbitrary: r) (auto intro: simulated.call loads_nothing_allowed)

definition hub_reachable :: "device_set set \<Rightarrow> golib \<Rightarrow> network \<Rightarrow> int \<Rightarrow> hub \<Rightarrow> bool" where
  "hub_reachable C L N t h \<longleftrightarrow> session_reachable (accounts h) t \<and> manager_reachable (manager_of h) \<and>
     (case sim (backend h) of None \<Rightarrow> True | Some r \<Rightarrow> simulated C L N r)"

lemma device_moves_reachable:
  "device_moves L N s s' \<Longrightarrow> case s of None \<Rightarrow> True | Some r \<Rightarrow> simulated C L N r \<Longrightarrow>
     case s' of None \<Rightarrow> True | Some r \<Rightarrow> simulated C L N r"
  by (cases s) (auto simp: device_moves_def calls_simulated)

lemma moves_reachable:
  assumes "moves A h h'" and "hub_reachable C (go A) (net A) t h" and "t \<le> now_ns (eng A)"
  shows "hub_reachable C (go A) (net A) (now_ns (eng A)) h'"
  unfolding hub_reachable_def
proof (intro conjI)
  show "session_reachable (accounts h') (now_ns (eng A))"
    using account_moves_reachable [of "now_ns (eng A)" "accounts h" "accounts h'" t] assms session_later
    by (auto simp: moves_def hub_reachable_def)
  show "manager_reachable (manager_of h')"
    using manager_moves_reachable assms(1,2) by (auto simp: moves_def hub_reachable_def)
  show "case sim (backend h') of None \<Rightarrow> True | Some r \<Rightarrow> simulated C (go A) (net A) r"
    using device_moves_reachable assms(1,2) unfolding moves_def hub_reachable_def by blast
qed

text \<open>C31. Whatever HTTP request a client sends, with whatever body, the sessions, the manager and the devices it
  leaves behind are states their own operations can reach: every invariant proved of the components holds of the
  running service.\<close>

theorem requests_keep_reachable:
  assumes "hub_reachable C (go (handlers S)) (net (handlers S)) t h" and "t \<le> now_ns (eng (handlers S))"
  shows "hub_reachable C (go (handlers S)) (net (handlers S)) (now_ns (eng (handlers S))) (snd (serve_http S q h))"
  using moves_reachable [OF serve_moves] assms by blast

text \<open>A server with one account, an empty manager and one device, at a moment.\<close>

definition demo_engine :: "int \<Rightarrow> engine" where
  "demo_engine t = \<lparr>marshal = (\<lambda>v. ''{}''), read_float = (\<lambda>s. None),
     clock_at = \<lparr>unix_time = 0, stamp = 0, stamp_int = (\<lambda>x. 0),
       local_time = \<lparr>c_year = 2026, c_month = 1, c_day = 1, c_hour = 0, c_minute = 0, c_second = 0, c_unix = 0\<rparr>\<rparr>,
     now_ns = t, backup_stamp = [], entropy = None\<rparr>"

definition demo_api :: "int \<Rightarrow> api" where
  "demo_api t = \<lparr>xmlrpc_port = 2001, inventory = [], realistic = False, rega_ids_on = False, engine_on = True,
     eng = demo_engine t, go = demo_lib, net = demo_net, token_bytes = Some [0x12, 0x34], local_text = (\<lambda>n. []),
     float_text = (\<lambda>x. []), error_text = (\<lambda>e. [])\<rparr>"

definition demo_server :: "int \<Rightarrow> server" where
  "demo_server t = \<lparr>handlers = demo_api t, ready = True, ccu_model = False, backup_api = False, upnp_on = False,
     redirect_port = 0, read_json = (\<lambda>s. None), json_error = (\<lambda>s j. ''bad'')\<rparr>"

definition demo_hub :: hub where
  "demo_hub = \<lparr>accounts = new_manager ''Admin'' ''pw'' 0 True,
     backend = \<lparr>mgr = new_state OpenCCU ''X'', sim = Some demo_rpc, notified = []\<rparr>,
     https_redirect = False, write_log = empty_log \<lparr>we_time = 0, we_interface = [], we_method = [], we_address = [], we_paramset = [],
       we_values = [], we_rejected = [], we_error = []\<rparr>, program_calls = []\<rparr>"

lemma demo_hub_reachable: "hub_reachable {demo_set} demo_lib demo_net 0 demo_hub"
  by (simp add: hub_reachable_def demo_hub_def manager_of_def session_reachable.start manager_reachable.start demo_simulated)

theorem requests_keep_reachable_witness:
  "hub_reachable {demo_set} demo_lib demo_net 100 (snd (serve_http (demo_server 100)
     \<lparr>hq_path = ''/api/homematic.cgi'', hq_verb = ''POST'', hq_body = ''{}'', hq_sid = [], hq_user = [], hq_password = [],
      hq_bearer = None, hq_tls = False, hq_host = [], hq_uri = []\<rparr> demo_hub))"
proof -
  have e: "go (handlers (demo_server 100)) = demo_lib" "net (handlers (demo_server 100)) = demo_net"
    "now_ns (eng (handlers (demo_server 100))) = 100"
    by (simp_all add: demo_server_def demo_api_def demo_engine_def)
  show ?thesis using requests_keep_reachable [of "{demo_set}" "demo_server 100" 0 demo_hub] demo_hub_reachable unfolding e by simp
qed

end
