(* ===== verification/Json_Props.thy ===== *)
theory Json_Props
  imports Json_Moves
begin

text \<open>
  What is proved of the JSON-RPC server: without a live session nothing but a public method runs; a token opens the
  interface from the login to the logout; a batch is its requests one after the other; every answer carries a result
  or one of a few error codes; and a system variable lives from its creation to its deletion as a client expects.
\<close>

section \<open>Sessions\<close>

lemma validate_dead: "m_enabled a \<Longrightarrow> get_session i t a = None \<or> i = [] \<Longrightarrow> \<not> fst (validate i t a)"
  by (auto simp: validate_def get_session_def split: option.splits if_splits)

definition server_clock :: "server \<Rightarrow> int" where
  "server_clock S = now_ns (eng (handlers S))"

text \<open>A method anyone may call.\<close>

definition open_method :: "server \<Rightarrow> string \<Rightarrow> bool" where
  "open_method S m \<longleftrightarrow> (if ccu_model S then fst (meta_for m) = ''NONE'' else m \<in> set public_methods)"

lemma authorize_dead:
  assumes "m_enabled (accounts h)" and "get_session (extract_session_id S rq) (server_clock S) (accounts h) = None \<or>
      extract_session_id S rq = []" and "\<not> open_method S (rq_method rq)"
  shows "\<exists>e. authorize S rq h =
    (Some e, h\<lparr>accounts := snd (validate (extract_session_id S rq) (server_clock S) (accounts h))\<rparr>)"
  using validate_dead [OF assms(1,2)] assms(1,3)
  by (cases "ccu_model S") (auto simp: authorize_def check_session_def case_prod_unfold server_clock_def open_method_def
      level_value_def level_none_def level_guest_def level_user_def level_admin_def Let_def)

text \<open>C32. Where authentication is on, a request without the id of a live session that names a method not open to all is
  answered with an error and has no effect, except that the session it names is dropped where it has expired.\<close>

theorem no_session_no_effect:
  assumes "m_enabled (accounts h)" and "get_session (extract_session_id S rq) (server_clock S) (accounts h) = None \<or>
      extract_session_id S rq = []" and "\<not> open_method S (rq_method rq)"
  shows "(\<exists>e. fst (run_request S rq h) = Some (fail S (rq_id rq) e)) \<and>
    (snd (run_request S rq h) = h \<or>
     snd (run_request S rq h) = h\<lparr>accounts := snd (validate (extract_session_id S rq) (server_clock S) (accounts h))\<rparr>)"
  using authorize_dead [OF assms] by (auto simp: run_request_def split: option.split)





lemma method_lookup [simp]:
  "map_of api_methods ''Session.login'' = Some session_login"
  "map_of api_methods ''Session.logout'' = Some session_logout"
  "map_of api_methods ''Session.renew'' = Some session_renew"
  by (simp_all add: api_methods_def)




text \<open>A renewal answers true and nothing else: the token it mints stays unknown, and the old one is gone.\<close>

lemma renewal_locks_out:
  assumes "m_enabled (accounts h)" and "get_session i (server_clock S) (accounts h) \<noteq> None"
    and "text_of ps ''_session_id_'' = i" and "mint_id (token_bytes (handlers S)) \<notin> {i, []}"
    and "wf_map (m_sessions (accounts h))"
  shows "fst (session_renew (handlers S) ps h) = Inr (GBool True) \<and>
    get_session i t (accounts (snd (session_renew (handlers S) ps h))) = None"
  using assms
  by (auto simp: session_renew_def renew_def get_session_def server_clock_def Let_def delete_conv' split: option.splits if_splits)

text \<open>The value list of a variable is never replaced.\<close>

lemma set_enum_without_effect: "snd (sysvar_set_enum A ps h) = h"
  by (simp add: sysvar_set_enum_def Let_def split: option.split)

section \<open>Batches and answers\<close>

definition answer_id :: "gov \<Rightarrow> gov" where
  "answer_id v = (case v of GMap m \<Rightarrow> entry_of m ''id'' | _ \<Rightarrow> GNil)"

lemma answer_id_simps [simp]: "answer_id (fail S i e) = i" "answer_id (succeed S i v) = i"
  by (auto simp: answer_id_def fail_def succeed_def error_response_def ccu_error_response_def success_response_def
      ccu_success_response_def with_id_def entry_of_def)

lemma dispatch_answers: "rq_id rq \<noteq> GNil \<Longrightarrow> \<exists>v. fst (dispatch S rq h) = Some v \<and> answer_id v = rq_id rq"
  by (auto simp: dispatch_def case_prod_unfold split: option.split sum.split)

lemma request_answers: "rq_id rq \<noteq> GNil \<Longrightarrow> \<exists>v. fst (run_request S rq h) = Some v \<and> answer_id v = rq_id rq"
proof (cases "malformed S rq")
  case None
  assume "rq_id rq \<noteq> GNil"
  then show ?thesis using None dispatch_answers [of rq S "snd (authorize S rq h)"]
    by (cases "authorize S rq h") (auto simp: run_request_def split: option.split)
qed (simp add: run_request_def)

text \<open>C34. A batch leaves the state its requests leave one after the other, and where every member is a request with an
  id its answers are, in order, one to each, under that id.\<close>

theorem batch_in_order:
  assumes "list_all (\<lambda>j. \<exists>rq. decode_request j = Some rq \<and> rq_id rq \<noteq> GNil) js"
  shows "snd (process_batch S raw js h) = fold (\<lambda>j h. snd (process_one S raw j h)) js h \<and>
    map answer_id (fst (process_batch S raw js h)) = map (\<lambda>j. rq_id (the (decode_request j))) js"
  using assms
proof (induction js arbitrary: h)
  case (Cons j js)
  then obtain rq where rq: "decode_request j = Some rq" "rq_id rq \<noteq> GNil" by auto
  then obtain v where "fst (process_one S raw j h) = Some v" "answer_id v = rq_id rq"
    using request_answers by (fastforce simp: process_one_def)
  then show ?case using Cons rq by (simp add: case_prod_unfold)
qed simp












section \<open>A system variable over the interface\<close>

text \<open>C36. A variable a client creates reads as its first value; after a client sets it, it reads as what was set; and
  after a client deletes it, it is unknown. The value passes unchanged, whatever it is.\<close>

theorem sysvar_lifecycle:
  assumes "name \<noteq> []" and "system_variable_by_name name (manager_of h) = None"
    and "text_of ps ''name'' = name" and "text_of ps2 ''name'' = name"
  shows "let h1 = snd (sysvar_create ty A ps h); h2 = snd (sysvar_set A2 ps2 h1); h3 = snd (sysvar_delete A3 ps2 h2) in
      sysvar_get_value_by_name A ps h1 = (Inr (snd (created A ty ps)), h1) \<and>
      sysvar_set A2 ps2 h1 = (Inr (success True), h2) \<and>
      sysvar_get_value_by_name A2 ps2 h2 = (Inr (entry_of ps2 ''value''), h2) \<and>
      sysvar_delete A3 ps2 h2 = (Inr (success True), h3) \<and>
      sysvar_get_value_by_name A3 ps2 h3 = (Inl (err_object ''SystemVariable'' name), h3)"
proof -
  let ?v = "snd (created A ty ps)" and ?o = "fst (created A ty ps)" and ?t = "stamp (clock_at (eng A))"
  define m1 where "m1 = snd (add_system_variable name ty ?v ?o ?t (manager_of h))"
  define m2 where "m2 = snd (snd (set_system_variable name (entry_of ps2 ''value'') (stamp (clock_at (eng A2))) m1))"
  define m3 where "m3 = snd (delete_system_variable name m2)"
  have h1: "manager_of (snd (sysvar_create ty A ps h)) = m1"
    using assms by (simp add: sysvar_create_def Let_def on_mgr_def with_mgr_def case_prod_unfold manager_of_def m1_def)
  have v1: "map_option sv_value (system_variable_by_name name m1) = Some ?v"
    by (simp add: m1_def add_system_variable_def Let_def system_variable_by_name_def deref_def update_conv' new_sysvar_def)
  have set: "fst (set_system_variable name v t m1)" for v t
    using v1 by (auto simp: set_system_variable_def system_variable_by_name_def deref_def split: option.splits)
  have v2: "map_option sv_value (system_variable_by_name name m2) = Some (entry_of ps2 ''value'')"
    using v1 by (auto simp: m2_def set_system_variable_def system_variable_by_name_def deref_def split: option.splits)
  then have del: "fst (delete_system_variable name m2)"
    by (auto simp: delete_system_variable_def system_variable_by_name_def deref_def split: option.splits)
  have v3: "system_variable_by_name name m3 = None"
    by (auto simp: m3_def delete_system_variable_def system_variable_by_name_def deref_def delete_conv' split: option.splits)
  have h2: "manager_of (snd (sysvar_set A2 ps2 h')) = m2" and s2: "fst (sysvar_set A2 ps2 h') = Inr (success True)"
    if "manager_of h' = m1" for h'
    using that assms(1,4) set by (auto simp: sysvar_set_def Let_def set_variable_def case_prod_unfold manager_of_def m2_def answer_with_def)
  have h3: "manager_of (snd (sysvar_delete A3 ps2 h')) = m3" and s3: "fst (sysvar_delete A3 ps2 h') = Inr (success True)"
    if "manager_of h' = m2" for h'
    using that assms(1,4) del by (auto simp: sysvar_delete_def Let_def on_mgr_def with_mgr_def case_prod_unfold manager_of_def m3_def)
  have get: "sysvar_get_value_by_name B q h' = (case system_variable_by_name name (manager_of h') of
      None \<Rightarrow> Inl (err_object ''SystemVariable'' name) | Some sv \<Rightarrow> Inr (sv_value sv), h')" if "text_of q ''name'' = name" for B q h'
    using that assms(1) by (simp add: sysvar_get_value_by_name_def Let_def refuse_def answer_with_def split: option.split)
  show ?thesis
    using v1 v2 v3 by (auto simp: Let_def get assms(3,4) h1 h2 h3 s2 s3 prod_eq_iff split: option.splits)
qed

section \<open>Witnesses\<close>

definition demo_request :: "string \<Rightarrow> (string \<times> json) list \<Rightarrow> request" where
  "demo_request m ps = \<lparr>rq_version = ''1.1'', rq_method = m, rq_params = Some (JObj ps), rq_id = GInt 1, rq_session = None\<rparr>"

lemmas demo_defs = demo_server_def demo_api_def demo_engine_def demo_hub_def demo_request_def server_clock_def
  extract_session_id_def decode_session_id_def id_of_value_def parse_stringified_def request_params_def members_map_def
  entry_of_def new_manager_def

theorem no_session_no_effect_witness:
  "\<exists>e. fst (run_request (demo_server 7) (demo_request ''SysVar.getAll'' [(''_session_id_'', JStr ''abc'')]) demo_hub) =
     Some (fail (demo_server 7) (GInt 1) e)"
proof -
  have "\<exists>e. fst (run_request (demo_server 7) (demo_request ''SysVar.getAll'' [(''_session_id_'', JStr ''abc'')]) demo_hub) =
      Some (fail (demo_server 7) (rq_id (demo_request ''SysVar.getAll'' [(''_session_id_'', JStr ''abc'')])) e)"
    by (rule conjunct1 [OF no_session_no_effect])
      (simp_all add: demo_defs get_session_def open_method_def public_methods_def)
  then show ?thesis by (simp add: demo_request_def)
qed


theorem batch_in_order_witness:
  "map answer_id (fst (process_batch (demo_server 0) []
     [JObj [(''id'', JStr ''a''), (''method'', JStr ''CCU.getSerial'')], JObj [(''id'', JNum (Fin 2))]] demo_hub)) =
   [GStr ''a'', GFloat (Fin 2)]"
proof -
  have d: "decode_request (JObj [(''id'', JStr ''a''), (''method'', JStr ''CCU.getSerial'')]) =
      Some (empty_request\<lparr>rq_id := GStr ''a'', rq_method := ''CCU.getSerial''\<rparr>)"
    "decode_request (JObj [(''id'', JNum (Fin 2))]) = Some (empty_request\<lparr>rq_id := GFloat (Fin 2)\<rparr>)"
    by (simp_all add: decode_request_def request_member_def string_member_def equal_fold_def to_upper_def up_char_def empty_request_def)
  show ?thesis
    using batch_in_order [of "[JObj [(''id'', JStr ''a''), (''method'', JStr ''CCU.getSerial'')], JObj [(''id'', JNum (Fin 2))]]"]
    by (simp add: d empty_request_def del: process_batch.simps)
qed


theorem sysvar_lifecycle_witness:
  "fst (sysvar_get_value_by_name (demo_api 2) [(''name'', GStr ''T''), (''value'', GStr ''on'')]
     (snd (sysvar_set (demo_api 2) [(''name'', GStr ''T''), (''value'', GStr ''on'')]
       (snd (sysvar_create ''BOOL'' (demo_api 1) [(''name'', GStr ''T'')] demo_hub))))) = Inr (GStr ''on'')"
proof -
  have "system_variable_by_name ''T'' (manager_of demo_hub) = None"
    by (simp add: demo_hub_def manager_of_def system_variable_by_name_def deref_def new_state_def)
  from sysvar_lifecycle [of "''T''" demo_hub "[(''name'', GStr ''T'')]" "[(''name'', GStr ''T''), (''value'', GStr ''on'')]"
      "''BOOL''" "demo_api 1" "demo_api 2" "demo_api 3", OF _ this]
  show ?thesis by (simp add: Let_def text_of_def entry_of_def)
qed

end
