(* ===== verification/Defaults.thy ===== *)
theory Defaults
  imports State_Props Xml_Value Float_Bits
begin

text \<open>
  \<^verbatim>\<open>internal/state/defaults.go\<close>: the programs, variables, rooms and functions a fresh manager is filled with, and the
  variables a CCU keeps for itself. Texts are UTF-8; the clock reading variables are stamped with is an argument.
\<close>

section \<open>The fixtures\<close>

definition setup_default_programs :: "'v manager \<Rightarrow> 'v manager" where
  "setup_default_programs m = fold (\<lambda>(n, d, a) m. snd (add_program n d a 0 m))
     [(''Heating Morning'', ''Start heating at 6:00'', True), (''Lights Off'', ''Turn off all lights at 23:00'', True),
      (''Vacation Mode'', ''Simulate presence when away'', False), (''Security Alert'', ''Triggered on intrusion detection'', True)] m"

definition bits :: "rat \<Rightarrow> float64" where
  "bits q = bits_of_f64 (Fin q)"

definition default_sysvars :: "(string \<times> string \<times> gov \<times> sysvar_opts) list" where
  "default_sysvars =
     [(''Presence'', ''BOOL'', GBool True, no_opts\<lparr>o_description := ''Someone is home''\<rparr>),
      (''AlarmLevel'', ''ENUM'', GInt 0,
         no_opts\<lparr>o_description := ''Current alarm level'', o_value_list := ''Off;Armed;Triggered'', o_min := bits 0, o_max := bits 2\<rparr>),
      (''TargetTemperature'', ''FLOAT'', GFloat (Fin (43 / 2)),
         no_opts\<lparr>o_description := ''Target room temperature'', o_unit := [CHR 0xC2, CHR 0xB0, CHR ''C''], o_min := bits 5, o_max := bits 30\<rparr>),
      (''LastMotion'', ''STRING'', GStr [], no_opts\<lparr>o_description := ''Last motion sensor triggered''\<rparr>),
      (''EnergyToday'', ''FLOAT'', GFloat (Fin 0),
         no_opts\<lparr>o_description := ''Energy consumed today'', o_unit := ''kWh'', o_min := bits 0, o_max := bits 1000\<rparr>)]"

definition add_sysvars :: "(string \<times> string \<times> gov \<times> sysvar_opts) list \<Rightarrow> float64 \<Rightarrow> gov manager \<Rightarrow> gov manager" where
  "add_sysvars vs now m = fold (\<lambda>(n, ty, v, opts) m. snd (add_system_variable n ty v opts now m)) vs m"

definition setup_default_sysvars :: "float64 \<Rightarrow> gov manager \<Rightarrow> gov manager" where
  "setup_default_sysvars now m = add_sysvars default_sysvars now m"

definition setup_default_rooms :: "'v manager \<Rightarrow> 'v manager" where
  "setup_default_rooms m = fold (\<lambda>(n, d) m. snd (add_room n d [] 0 m))
     [(''Living Room'', ''Main living area''), (''Bedroom'', ''Master bedroom''), (''Kitchen'', ''Kitchen area''),
      (''Bathroom'', ''Main bathroom''), (''Office'', ''Home office'')] m"

definition setup_default_functions :: "'v manager \<Rightarrow> 'v manager" where
  "setup_default_functions m = fold (\<lambda>(n, d) m. snd (add_function n d [] 0 m))
     [(''Lights'', ''All lighting devices''), (''Heating'', ''All heating devices''), (''Security'', ''Security devices''),
      (''Shutters'', ''Shutter and blind controls''), (''Weather'', ''Weather sensors'')] m"

definition setup_defaults :: "float64 \<Rightarrow> gov manager \<Rightarrow> gov manager" where
  "setup_defaults now m =
     setup_default_functions (setup_default_rooms (setup_default_sysvars now (setup_default_programs m)))"

definition builtin_sysvars :: "(string \<times> string \<times> gov \<times> sysvar_opts) list" where
  "builtin_sysvars =
     [(''${sysVarAlarmZone1}'', ''BOOL'', GBool False,
         no_opts\<lparr>o_id := 38, o_description := ''Alarmzone 1'', o_internal := True,
           o_value_name0 := ''nicht ausgel'' @ [CHR 0xC3, CHR 0xB6] @ ''st'', o_value_name1 := ''ausgel'' @ [CHR 0xC3, CHR 0xB6] @ ''st''\<rparr>),
      (''${sysVarPresence}'', ''BOOL'', GBool False,
         no_opts\<lparr>o_id := 39, o_description := ''Anwesenheit'', o_internal := True,
           o_value_name0 := ''nicht anwesend'', o_value_name1 := ''anwesend''\<rparr>),
      (''${sysVarAlarmMessages}'', ''FLOAT'', GFloat (Fin 0),
         no_opts\<lparr>o_id := 40, o_description := ''Alarmmeldungen'', o_internal := True, o_max := bits 255\<rparr>),
      (''${sysVarServiceMessages}'', ''FLOAT'', GFloat (Fin 0),
         no_opts\<lparr>o_id := 41, o_description := ''Servicemeldungen'', o_internal := True, o_max := bits 255\<rparr>)]"

definition setup_builtin_sysvars :: "float64 \<Rightarrow> gov manager \<Rightarrow> gov manager" where
  "setup_builtin_sysvars now m = add_sysvars builtin_sysvars now m"

section \<open>What a filled manager holds\<close>

text \<open>Setting up the fixtures is a history without clashing additions: the two indexes of the variables agree after it.\<close>

lemma fold_tidy: "tidy_reachable m \<Longrightarrow> (\<And>x m. P x \<Longrightarrow> tidy_reachable m \<Longrightarrow> tidy_reachable (f x m)) \<Longrightarrow> \<forall>x \<in> set xs. P x \<Longrightarrow>
   tidy_reachable (fold f xs m)"
  by (induction xs arbitrary: m) auto

lemma tidy_program: "tidy_reachable m \<Longrightarrow> tidy_reachable (snd (add_program n d a i m))"
  using tidy_reachable.step [of m "AddProgram n d a i"] by simp

lemma tidy_room: "tidy_reachable m \<Longrightarrow> tidy_reachable (snd (add_room n d cs i m))"
  using tidy_reachable.step [of m "AddRoom n d cs i"] by simp

lemma tidy_function: "tidy_reachable m \<Longrightarrow> tidy_reachable (snd (add_function n d cs i m))"
  using tidy_reachable.step [of m "AddFunction n d cs i"] by simp

lemma tidy_variable:
  "tidy_reachable m \<Longrightarrow> system_variable_by_name n m = None \<Longrightarrow>
     system_variable_by_id (if o_id opts = 0 then next_sysvar m else o_id opts) m = None \<Longrightarrow>
     tidy_reachable (snd (add_system_variable n ty v opts t m))"
  using tidy_reachable.step [of m "AddSysvar n ty v opts t"] by simp

end
