(* ===== verification/Spec2Isabelle.thy ===== *)
theory Spec2Isabelle
  imports Session Ring Logs Fault_Injection State_Props Bin_Rpc_Props Rega_Grammar Write_Props Pending_Props Client_Props Rega_Source Json_Props
    Defaults
begin

text \<open>
  \<^bold>\<open>godevccu\<close> simulates a HomeMatic central unit (CCU): the interface processes behind XML-RPC and BIN-RPC, the JSON-RPC and
  script interface of the web front end, and, in \<^verbatim>\<open>pkg/litefake\<close>, the HTTP interface of an openccu-lite box. This library models
  its core in definitions one can run and proves what makes each part correct.

  \<^bold>\<open>How the parts interact.\<close> A client registers with the device simulator over XML-RPC (\<^verbatim>\<open>internal/xmlrpc\<close>) or BIN-RPC
  (\<^verbatim>\<open>internal/binrpc\<close>), reads and writes paramsets and is told of changes through the dispatcher (\<^verbatim>\<open>internal/ccu\<close>). A web
  client logs in over JSON-RPC (\<^verbatim>\<open>internal/jsonrpc\<close>, sessions in \<^verbatim>\<open>internal/session\<close>) and works on the same simulator and on the
  state manager (\<^verbatim>\<open>internal/state\<close>), also with scripts: by name or pattern in \<^verbatim>\<open>internal/rega\<close>, by an interpreter of HomeMatic
  script in \<^verbatim>\<open>internal/regavm\<close> whose data source (\<^verbatim>\<open>internal/virtualccu/regasource.go\<close>) is manager and simulator. The openccu-lite
  box (\<^verbatim>\<open>pkg/litefake\<close>) subscribes to the interface processes and republishes their events on a ring that event streams read.

  \<^bold>\<open>Which theory models what.\<close> The definitions keep the order and, where they can, the names of the code.

  \<^item> \<^verbatim>\<open>Prelude\<close>: results as sums with the error on the left, Go maps as association lists, byte strings, the contract of a bounded
    history (locale \<open>history_buffer\<close>, interpreted by the call log and by the ring). \<^verbatim>\<open>Go_Num\<close>, \<^verbatim>\<open>Go_Any\<close>, \<^verbatim>\<open>Go_Regexp\<close>, \<^verbatim>\<open>Float64\<close>,
    \<^verbatim>\<open>Float_Bits\<close>: what the code uses of Go's \<^verbatim>\<open>strconv\<close>, of type assertions, of \<^verbatim>\<open>regexp\<close> and of doubles.
  \<^item> \<^verbatim>\<open>Session\<close> (\<^verbatim>\<open>internal/session/session.go\<close>): the table of tokens as a record, one function per operation. Shown: the table stays a
    table, dead tokens stay dead, exactly what validation accepts.
  \<^item> \<^verbatim>\<open>Logs\<close>, \<^verbatim>\<open>Fault_Injection\<close> (\<^verbatim>\<open>internal/ccu/logs.go\<close>, \<^verbatim>\<open>faultinject.go\<close>): the logs refine the history of calls; serving faults call by
    call equals serving them rule by rule.
  \<^item> \<^verbatim>\<open>State_Manager\<close>, \<^verbatim>\<open>State_Props\<close>, \<^verbatim>\<open>Defaults\<close> (\<^verbatim>\<open>internal/state\<close>): programs, variables, rooms, ReGa ids, backup and the fixtures.
  \<^item> \<^verbatim>\<open>Latin1\<close>, \<^verbatim>\<open>Xml_Value\<close>, \<^verbatim>\<open>Bin_Rpc\<close>, \<^verbatim>\<open>Bin_Rpc_Props\<close> (\<^verbatim>\<open>internal/xmlrpc\<close>, \<^verbatim>\<open>internal/binrpc\<close>): the value tree and the wire format on bytes; every codec is an interpretation of
    the locale \<open>prefix_codec\<close>, so that what is written is read back whatever follows.
  \<^item> \<^verbatim>\<open>Paramset_Store\<close>, \<^verbatim>\<open>Device_Rpc\<close>, \<^verbatim>\<open>Master_Model\<close>, \<^verbatim>\<open>Client_Registry\<close>, \<^verbatim>\<open>Device_Responses\<close>, \<^verbatim>\<open>Device_Runs\<close> (\<^verbatim>\<open>internal/ccu\<close>,
    \<^verbatim>\<open>internal/deviceresponses\<close>, \<^verbatim>\<open>internal/converter\<close>): the simulator as one record, its operations as a datatype and its reachable states.
    \<^verbatim>\<open>Paramset_Props\<close>, \<^verbatim>\<open>Write_Props\<close>, \<^verbatim>\<open>Pending_Props\<close>, \<^verbatim>\<open>Client_Props\<close>: caches are invisible, writes are read back, bounds hold, clients learn
    what they should, in order, a deletion takes what it should.
  \<^item> \<^verbatim>\<open>Rega_Lexer\<close>, \<^verbatim>\<open>Rega_Parser\<close>, \<^verbatim>\<open>Rega_Parser_Props\<close>, \<^verbatim>\<open>Rega_Grammar\<close>, \<^verbatim>\<open>Rega_Value\<close>, \<^verbatim>\<open>Rega_Interp\<close>, \<^verbatim>\<open>Rega_Interp_Props\<close> (\<^verbatim>\<open>internal/regavm\<close>) and
    \<^verbatim>\<open>Rega_Source\<close>: HomeMatic script from bytes to effects. Shown: tokens are well formed, parsing ends, expressions are exactly the
    phrases of a grammar, percent encoding round-trips.
  \<^item> \<^verbatim>\<open>Rega_Engine\<close>, \<^verbatim>\<open>Rega_Engine_Props\<close> (\<^verbatim>\<open>internal/rega/engine.go\<close>): scripts known by pattern; a script acts at most once.
  \<^item> \<^verbatim>\<open>Json_Meta\<close>, \<^verbatim>\<open>Json_Api\<close>, \<^verbatim>\<open>Json_Methods\<close>, \<^verbatim>\<open>Json_Server\<close>, \<^verbatim>\<open>Json_Props\<close>, \<^verbatim>\<open>Json_Moves\<close> (\<^verbatim>\<open>internal/jsonrpc\<close>): a request from its bytes to
    its reply. Shown: no session no effect, the life of a token, batches are sequences, and every request keeps all component
    invariants.
  \<^item> \<^verbatim>\<open>Ring\<close> (\<^verbatim>\<open>pkg/litefake/ring.go\<close>): the event history and its readers; it holds exactly what its two bounds
    allow, and a resumed stream sees every message once.

  \<^bold>\<open>Bounds and fuel.\<close> Widths, limits and counts are those of the code: 32-bit XML-RPC integers and BIN-RPC fields, 64-bit resume positions
  and script integers, nesting 64 deep in BIN-RPC, 10000 log entries, 256 waiting events of the
  dispatcher, request bodies of 4 MiB (JSON-RPC), scripts of 1 MiB, loops of 1000000 turns. Counters that a run cannot
  exhaust (event numbers, log ids) are natural numbers. Recursion is structural or has a measure (bytes or tokens left),
  with one exception: a \<open>while\<close> of a
  script has the bound of the code as its fuel: running out is the error the code reports. The interpreter
  recurses on the program text.

  \<^bold>\<open>Arguments instead of code.\<close> What is not under \<^verbatim>\<open>src\<close> is an argument of the definitions that use it: clock readings and random bytes
  of each call; JSON text (\<open>codec\<close>, \<open>marshal\<close>, \<open>read_json\<close>), number and date texts; the logarithm
  of BIN-RPC doubles; what a remote client or an interface process answers (an oracle or a function); the order in which timers
  fire (operations of their own). Theorems name what they need of them, such as that a text is read back, and their witnesses give
  a concrete instance. Letters fold as in ASCII, and blanks are those of ASCII.

  \<^bold>\<open>Concurrency.\<close> The code guards each component with a mutex; an operation is one step, and theorems over reachable states or runs hold
  for every order of steps. Channels and queues are lists with the capacity of the code; what a full queue loses is part of the
  model.

  \<^bold>\<open>Simplifications to keep in mind.\<close> The queue of a dispatcher holds what waits in the 256-slot channel and what its loop has already
  taken out of it for the next batch; the steps \<open>deliver_batch\<close> may be cut anywhere, which covers both. The end of a pending pulse
  (\<open>config_pending_elapsed\<close>) is one step, where \<^verbatim>\<open>reachability.go\<close> drops the timer under its lock and writes the value after
  unlocking; writes that fall between the two are not modelled. \<open>fresh_node\<close> numbers the nodes of a script because Go compares them as
  pointers; there is no such counter in the source. \<open>find_from\<close> and what it rests on model Go's \<^verbatim>\<open>regexp\<close> for the expressions of
  \<^verbatim>\<open>engine.go\<close>: they are part of the language's library, not of the program. \<open>delete_device\<close> is the part of \<open>DeleteDevice\<close> that changes
  the store; \<open>delete_device_call\<close> is the whole call. \<open>equal_fold\<close> folds ASCII letters, and \<open>route\<close> takes the paths as they are registered,
  without the cleaning and redirects of \<^verbatim>\<open>ServeMux\<close>.

  \<^bold>\<open>Not modelled.\<close> The rest of \<^verbatim>\<open>pkg/litefake\<close> and the XML text of XML-RPC. Sockets, listeners, TLS and goroutine start-up and shutdown (\<^verbatim>\<open>server.go\<close> of \<^verbatim>\<open>internal/ccu\<close> and \<^verbatim>\<open>internal/binrpc\<close>, \<^verbatim>\<open>binrpc_server.go\<close>,
  \<^verbatim>\<open>tls*.go\<close>, \<^verbatim>\<open>cmd/godevccu\<close>, \<^verbatim>\<open>internal/ssdp\<close>): their effect is the network. Loading and saving JSON files (\<^verbatim>\<open>loader.go\<close>, \<^verbatim>\<open>initpersistence.go\<close>,
  \<^verbatim>\<open>internal/embed\<close>): the data is the initial state. The wiring of \<^verbatim>\<open>internal/virtualccu\<close> and \<^verbatim>\<open>pkg/godevccu\<close> and the background device
  logic of \<^verbatim>\<open>internal/devicelogic\<close>: they call the operations modelled here on a schedule of timers.
\<close>

end
